theory Spec2Isabelle
  imports Complex_Main "HOL-Library.AList"
begin

section \<open>The masked speech-editing task (tasks/tts/a3t.py)\<close>

text \<open>
  A shallow embedding of \<^verbatim>\<open>A3TTask\<close>. Conventions:
  \<^item> a float tensor is a nested list (batch, time, channel) of binary32 floating-point
    numbers, torch's default element type: every arithmetic operation rounds its exact
    result to the nearest float, and the infinities and nan are values;
  \<^item> a Python exception is a value of \<open>error\<close>, and a method that can raise returns
    \<open>error + 'a\<close> (\<open>Inl\<close> the exception);
  \<^item> a method that changes \<^verbatim>\<open>self\<close> takes and returns the task state, also when
    it raises: what was changed before the exception stays changed;
  \<^item> the collaborators that are not in this file (the acoustic model, the loss of the
    base class, the vocoder, the token encoder, the alignment metrics, and torch's
    reductions \<^verbatim>\<open>sum\<close> and \<^verbatim>\<open>mean\<close>, whose order of additions is the library's)
    are function parameters, collected in the record \<open>collab\<close>; a collaborator
    returns for every argument and raises nothing, except the loss of the base class,
    which returns a loss record or an exception;
  \<^item> a Python string is a \<open>string\<close>, one \<open>char\<close> for each character.
\<close>

subsection \<open>Exceptions\<close>

datatype error =
    AssertionError string
  | KeyError string
  | IndexError
  | TypeError string
  | ValueError string
  | ZeroDivisionError
  | RuntimeError string

definition bind_err :: "error + 'a \<Rightarrow> ('a \<Rightarrow> error + 'b) \<Rightarrow> error + 'b" where
  "bind_err m f = (case m of Inl e \<Rightarrow> Inl e | Inr x \<Rightarrow> f x)"

text \<open>\<^verbatim>\<open>d[key]\<close> on a dictionary whose entry may be absent.\<close>

definition get_key :: "string \<Rightarrow> 'a option \<Rightarrow> error + 'a" where
  "get_key k v = (case v of None \<Rightarrow> Inl (KeyError k) | Some x \<Rightarrow> Inr x)"

text \<open>\<^verbatim>\<open>xs[0]\<close>.\<close>

definition index0 :: "'a list \<Rightarrow> error + 'a" where
  "index0 xs = (case xs of [] \<Rightarrow> Inl IndexError | x # _ \<Rightarrow> Inr x)"

subsection \<open>Floating-point numbers\<close>

text \<open>
  A binary32 value: a finite number, an infinity, or nan. The two zeros are one value
  and the nans are one value; no operation of this file tells them apart, except a
  division by zero, where the divisor is taken as the positive zero (the divisors of
  this file are lengths).
\<close>

datatype fl = Fin real | PInf | NInf | NaN

text \<open>
  The spacing of the binary32 numbers around a magnitude \<open>a\<close>: \<open>2 ^ -149\<close> below
  \<open>2 ^ -125\<close> (the subnormal numbers and the first binade), twice as much in each
  following binade, \<open>2 ^ 104\<close> in the last one.
\<close>

fun quantum_from :: "nat \<Rightarrow> real \<Rightarrow> real \<Rightarrow> real" where
  "quantum_from 0 q a = q"
| "quantum_from (Suc k) q a = (if a < 16777216 * q then q else quantum_from k (2 * q) a)"

definition quantum :: "real \<Rightarrow> real" where
  "quantum a = quantum_from 253 (1 / 2 ^ 149) a"

definition round_half_even :: "real \<Rightarrow> int" where
  "round_half_even y =
     (let n = \<lfloor>y\<rfloor>; d = y - of_int n
      in if d < 1 / 2 then n else if 1 / 2 < d then n + 1 else if even n then n else n + 1)"

text \<open>
  Rounding to nearest, ties to even: the multiple of the spacing that is nearest to
  the exact value; a result of magnitude \<open>2 ^ 128\<close> is an infinity.
\<close>

definition round32 :: "real \<Rightarrow> fl" where
  "round32 x =
     (let a = \<bar>x\<bar>; q = quantum a; r = of_int (round_half_even (a / q)) * q
      in if 2 ^ 128 \<le> r then (if x < 0 then NInf else PInf)
         else Fin (if x < 0 then - r else r))"

text \<open>\<^verbatim>\<open>.float()\<close> on an integer, and a Python integer used as a float32 scalar.\<close>

definition float_of_int :: "int \<Rightarrow> fl" where
  "float_of_int i = round32 (of_int i)"

definition is_fin :: "fl \<Rightarrow> bool" where
  "is_fin x = (case x of Fin r \<Rightarrow> True | _ \<Rightarrow> False)"

text \<open>The values that a float32 tensor can hold.\<close>

definition is_float32 :: "fl \<Rightarrow> bool" where
  "is_float32 x = (case x of Fin r \<Rightarrow> round32 r = Fin r | _ \<Rightarrow> True)"

definition is_neg :: "fl \<Rightarrow> bool" where
  "is_neg x = (case x of Fin r \<Rightarrow> r < 0 | NInf \<Rightarrow> True | _ \<Rightarrow> False)"

definition signed_inf :: "bool \<Rightarrow> fl" where
  "signed_inf neg = (if neg then NInf else PInf)"

definition fneg :: "fl \<Rightarrow> fl" where
  "fneg x = (case x of Fin a \<Rightarrow> Fin (- a) | PInf \<Rightarrow> NInf | NInf \<Rightarrow> PInf | NaN \<Rightarrow> NaN)"

definition fabs :: "fl \<Rightarrow> fl" where
  "fabs x = (case x of Fin a \<Rightarrow> Fin \<bar>a\<bar> | NInf \<Rightarrow> PInf | _ \<Rightarrow> x)"

definition fadd :: "fl \<Rightarrow> fl \<Rightarrow> fl" where
  "fadd x y =
     (case x of
        Fin a \<Rightarrow> (case y of Fin b \<Rightarrow> round32 (a + b) | _ \<Rightarrow> y)
      | PInf \<Rightarrow> (if y = NInf \<or> y = NaN then NaN else PInf)
      | NInf \<Rightarrow> (if y = PInf \<or> y = NaN then NaN else NInf)
      | NaN \<Rightarrow> NaN)"

definition fsub :: "fl \<Rightarrow> fl \<Rightarrow> fl" where
  "fsub x y = fadd x (fneg y)"

text \<open>An infinity times zero is nan, and so is nan times anything.\<close>

definition fmul :: "fl \<Rightarrow> fl \<Rightarrow> fl" where
  "fmul x y =
     (case x of
        Fin a \<Rightarrow>
          (case y of
             Fin b \<Rightarrow> round32 (a * b)
           | NaN \<Rightarrow> NaN
           | _ \<Rightarrow> if a = 0 then NaN else signed_inf ((a < 0) \<noteq> is_neg y))
      | NaN \<Rightarrow> NaN
      | _ \<Rightarrow> if y = NaN \<or> y = Fin 0 then NaN else signed_inf (is_neg x \<noteq> is_neg y))"

definition fdiv :: "fl \<Rightarrow> fl \<Rightarrow> fl" where
  "fdiv x y =
     (case y of
        Fin b \<Rightarrow>
          (case x of
             Fin a \<Rightarrow>
               if b = 0 then (if a = 0 then NaN else signed_inf (a < 0)) else round32 (a / b)
           | NaN \<Rightarrow> NaN
           | _ \<Rightarrow> signed_inf (is_neg x \<noteq> (b < 0)))
      | NaN \<Rightarrow> NaN
      | _ \<Rightarrow> (case x of Fin a \<Rightarrow> Fin 0 | _ \<Rightarrow> NaN))"

subsection \<open>Tensors and broadcasting\<close>

type_synonym tensor1 = "fl list"
type_synonym tensor2 = "fl list list"
type_synonym tensor3 = "fl list list list"

primrec sequence :: "(error + 'a) list \<Rightarrow> error + 'a list" where
  "sequence [] = Inr []"
| "sequence (r # rs) =
     (case r of
        Inl e \<Rightarrow> Inl e
      | Inr x \<Rightarrow> (case sequence rs of Inl e \<Rightarrow> Inl e | Inr xs \<Rightarrow> Inr (x # xs)))"

text \<open>
  One dimension of torch's broadcasting of a binary operation: the two sizes are
  equal, or one of them is 1 and that operand is repeated; any other pair of sizes
  raises a RuntimeError.
\<close>

definition broadcast ::
  "('a \<Rightarrow> 'b \<Rightarrow> error + 'c) \<Rightarrow> 'a list \<Rightarrow> 'b list \<Rightarrow> error + 'c list" where
  "broadcast f xs ys =
     (if length xs = length ys then sequence (map2 f xs ys)
      else if length xs = 1 then sequence (map (f (hd xs)) ys)
      else if length ys = 1 then sequence (map (\<lambda>x. f x (hd ys)) xs)
      else Inl (RuntimeError ''The size of tensor a must match the size of tensor b''))"

definition elementwise3 ::
  "(fl \<Rightarrow> fl \<Rightarrow> fl) \<Rightarrow> tensor3 \<Rightarrow> tensor3 \<Rightarrow> error + tensor3" where
  "elementwise3 f = broadcast (broadcast (broadcast (\<lambda>a b. Inr (f a b))))"

definition tmul :: "tensor3 \<Rightarrow> tensor3 \<Rightarrow> error + tensor3" where
  "tmul = elementwise3 fmul"

definition tadd :: "tensor3 \<Rightarrow> tensor3 \<Rightarrow> error + tensor3" where
  "tadd = elementwise3 fadd"

text \<open>\<^verbatim>\<open>1 - t\<close>: the scalar is broadcast to every element.\<close>

definition one_minus :: "tensor3 \<Rightarrow> tensor3" where
  "one_minus t = map (map (map (\<lambda>m. fsub (Fin 1) m))) t"

text \<open>\<^verbatim>\<open>t[:, :, None]\<close>: a new last dimension of size 1.\<close>

definition unsqueeze_last :: "tensor2 \<Rightarrow> tensor3" where
  "unsqueeze_last t = map (map (\<lambda>x. [x])) t"

subsection \<open>Batches, model output, loss records\<close>

text \<open>
  A collated batch (the dictionary \<^verbatim>\<open>sample\<close>). The entries read with
  \<^verbatim>\<open>sample.get\<close> are optional; \<open>sample_text\<close> is the entry \<^verbatim>\<open>'text'\<close>
  (one raw text for each item, which may be \<^verbatim>\<open>None\<close>).
\<close>

record sample =
  txt_tokens :: "int list list"
  txt_lengths :: "int list"
  mel_lengths :: "int list"
  mels :: tensor3
  mel2ph :: "int list list"
  time_mel_masks :: tensor2
  pitch :: "tensor2 option"
  spk_embed :: "tensor2 option"
  spk_ids :: "int list option"
  sample_text :: "string option list"
  item_name :: "string list"

text \<open>
  The dictionary the acoustic model returns, with the entries this file reads or
  writes; an entry that is absent is \<open>None\<close>.
\<close>

record model_output =
  mel_out_decoder :: "tensor3 option"
  mel_out_postnet :: "tensor3 option"
  mel_out :: "tensor3 option"
  attn :: "tensor3 option"

text \<open>The keyword arguments of one call of \<^verbatim>\<open>self.model\<close>.\<close>

record model_args =
  m_txt_tokens :: "int list list"
  m_mel2ph :: "int list list"
  m_pitch :: "tensor2 option"
  m_spk_embed :: "tensor2 option"
  m_spk_id :: "int list option"
  m_mels :: tensor3
  m_stutter_mel_masks :: "tensor3 option"
  m_time_mel_masks :: tensor3
  m_infer :: bool
  m_global_step :: "int option"

text \<open>
  A value of the loss record or of the logging record: a Python integer, or a 0-dim
  float tensor with its \<^verbatim>\<open>requires_grad\<close> flag.
\<close>

datatype pyval = PyInt int | Tensor fl bool

text \<open>A dictionary with string keys, in insertion order.\<close>

type_synonym losses = "(string \<times> pyval) list"

text \<open>The collaborators, none of which is defined in this file.\<close>

record collab =
  model :: "model_args \<Rightarrow> model_output"
  add_mel_loss :: "tensor3 \<Rightarrow> tensor3 \<Rightarrow> losses \<Rightarrow> string \<Rightarrow> error + losses"
  spec2wav :: "tensor2 \<Rightarrow> fl list"
  decode :: "int list \<Rightarrow> bool option \<Rightarrow> string"
  get_focus_rate :: "tensor3 \<Rightarrow> bool list list \<Rightarrow> bool list list \<Rightarrow> tensor1"
  get_phone_coverage_rate ::
    "tensor3 \<Rightarrow> bool list list \<Rightarrow> bool list list \<Rightarrow> bool list list \<Rightarrow> tensor1"
  get_diagonal_focus_rate ::
    "tensor3 \<Rightarrow> tensor1 \<Rightarrow> tensor1 \<Rightarrow> bool list list \<Rightarrow> bool list list
      \<Rightarrow> tensor1 \<times> tensor3"
  tensor_sum :: "tensor1 \<Rightarrow> fl"
  tensor_mean :: "tensor1 \<Rightarrow> fl"

text \<open>One job of the saving pool: the arguments of \<^verbatim>\<open>save_result\<close>.\<close>

record job =
  job_wav :: "fl list"
  job_mel :: tensor2
  job_base_fn :: string
  job_gen_dir :: string
  job_str_phs :: string
  job_mel2ph :: "int list option"

text \<open>
  The state of the task (\<^verbatim>\<open>self\<close>) and what it reaches: a scheduler is the list of
  the arguments its \<^verbatim>\<open>step\<close> has received, \<open>model_calls\<close> the calls of the
  acoustic model so far, \<open>saved_arrays\<close> the files written by \<^verbatim>\<open>np.save\<close>.
\<close>

record task =
  global_step :: int
  model_out_self :: "model_output option"
  model_out_gt :: "model_output option"
  scheduler :: "int list list option"
  model_calls :: "model_args list"
  saving_result_pool :: "job list"
  saved_arrays :: "(string \<times> tensor2) list"
  gen_dir :: string
  seg_idx :: int

record hparams =
  accumulate_grad_batches :: int
  save_gt :: bool
  save_attn :: "bool option"

subsection \<open>run_model\<close>

datatype run_result = TrainResult losses model_output | InferResult model_output

definition model_call :: "sample \<Rightarrow> tensor3 \<Rightarrow> bool \<Rightarrow> int option \<Rightarrow> model_args" where
  "model_call s tm infer_flag gs =
     \<lparr>m_txt_tokens = txt_tokens s, m_mel2ph = mel2ph s, m_pitch = pitch s,
      m_spk_embed = spk_embed s, m_spk_id = spk_ids s, m_mels = mels s,
      m_stutter_mel_masks = None, m_time_mel_masks = tm, m_infer = infer_flag,
      m_global_step = gs\<rparr>"

text \<open>
  \<^verbatim>\<open>x * time_mel_masks + sample['mels'] * (1 - time_mel_masks)\<close>, as lines 73 and 88
  write it.
\<close>

definition composite :: "tensor3 \<Rightarrow> tensor3 \<Rightarrow> tensor3 \<Rightarrow> error + tensor3" where
  "composite x gt tm =
     bind_err (tmul x tm) (\<lambda>a.
     bind_err (tmul gt (one_minus tm)) (\<lambda>b.
     tadd a b))"

definition run_model :: "collab \<Rightarrow> sample \<Rightarrow> bool \<Rightarrow> task \<Rightarrow> (error + run_result) \<times> task" where
  "run_model C s infer_flag st =
     (let tm = unsqueeze_last (time_mel_masks s) in
      if \<not> infer_flag then
        (let args = model_call s tm False (Some (global_step st));
             output = model C args;
             st' = st\<lparr>model_calls := model_calls st @ [args]\<rparr>
         in (bind_err (get_key ''mel_out_decoder'' (mel_out_decoder output)) (\<lambda>dec.
             bind_err (tmul dec tm) (\<lambda>dec_m.
             bind_err (tmul (mels s) tm) (\<lambda>gt_m.
             bind_err (add_mel_loss C dec_m gt_m [] ''_decoder'') (\<lambda>losses1.
             bind_err (get_key ''mel_out_postnet'' (mel_out_postnet output)) (\<lambda>post.
             bind_err (tmul post tm) (\<lambda>post_m.
             bind_err (tmul (mels s) tm) (\<lambda>gt_m'.
             bind_err (add_mel_loss C post_m gt_m' losses1 ''_postnet'') (\<lambda>losses2.
             bind_err (composite post (mels s) tm) (\<lambda>mo.
             Inr (TrainResult losses2 (output\<lparr>mel_out := Some mo\<rparr>))))))))))),
             st'))
      else
        (let args = model_call s tm True None;
             output = model C args;
             st' = st\<lparr>model_calls := model_calls st @ [args]\<rparr>
         in (bind_err (get_key ''mel_out'' (mel_out output)) (\<lambda>pred.
             bind_err (composite pred (mels s) tm) (\<lambda>mo.
             Inr (InferResult (output\<lparr>mel_out := Some mo\<rparr>)))),
             st')))"

text \<open>The two calls of the acoustic model that \<open>run_model\<close> makes, and the state after one.\<close>

definition train_output :: "collab \<Rightarrow> sample \<Rightarrow> task \<Rightarrow> model_output" where
  "train_output C s st =
     model C (model_call s (unsqueeze_last (time_mel_masks s)) False (Some (global_step st)))"

definition infer_output :: "collab \<Rightarrow> sample \<Rightarrow> model_output" where
  "infer_output C s = model C (model_call s (unsqueeze_last (time_mel_masks s)) True None)"

definition called :: "model_args \<Rightarrow> task \<Rightarrow> task" where
  "called args st = st\<lparr>model_calls := model_calls st @ [args]\<rparr>"

subsection \<open>The compositing rule in the spec's words\<close>

text \<open>
  The shapes of a batch: two tensors of the same shape, and a mask with one value for
  each frame of a tensor.
\<close>

definition same_shape3 :: "tensor3 \<Rightarrow> tensor3 \<Rightarrow> bool" where
  "same_shape3 x y = list_all2 (list_all2 (\<lambda>a b. length a = length b)) x y"

definition mask_shape :: "tensor2 \<Rightarrow> tensor3 \<Rightarrow> bool" where
  "mask_shape m x = list_all2 (\<lambda>mb xb. length mb = length xb) m x"

text \<open>
  \<open>composited = predicted * mask + ground_truth * (1 - mask)\<close>, elementwise, with the
  mask value of a frame used for each of its channels; each product, the difference
  and the sum are float operations.
\<close>

definition composite_spec :: "tensor3 \<Rightarrow> tensor3 \<Rightarrow> tensor2 \<Rightarrow> tensor3" where
  "composite_spec p g m =
     map (\<lambda>(pb, gb, mb).
       map (\<lambda>(pf, gf, mv).
             map (\<lambda>(pv, gv). fadd (fmul pv mv) (fmul gv (fsub (Fin 1) mv))) (zip pf gf))
         (zip pb (zip gb mb)))
       (zip p (zip g m))"

text \<open>Every channel of a frame combined with the mask value of that frame.\<close>

definition scale_frames :: "(fl \<Rightarrow> fl \<Rightarrow> fl) \<Rightarrow> tensor3 \<Rightarrow> tensor2 \<Rightarrow> tensor3" where
  "scale_frames f x m = map2 (map2 (\<lambda>xf mv. map (\<lambda>v. f v mv) xf)) x m"

text \<open>\<open>x * mask\<close>: the tensor restricted to the masked region.\<close>

definition masked :: "tensor3 \<Rightarrow> tensor2 \<Rightarrow> tensor3" where
  "masked x m = scale_frames fmul x m"

text \<open>
  The frame of the prediction where the mask is 1 and the frame of the ground truth
  elsewhere.
\<close>

definition select_frames :: "tensor3 \<Rightarrow> tensor3 \<Rightarrow> tensor2 \<Rightarrow> tensor3" where
  "select_frames p g m =
     map (\<lambda>(pb, gb, mb). map (\<lambda>(pf, gf, mv). if mv = Fin 1 then pf else gf) (zip pb (zip gb mb)))
       (zip p (zip g m))"

text \<open>One function applied to every element, as adding a constant is.\<close>

definition tmap :: "(fl \<Rightarrow> fl) \<Rightarrow> tensor3 \<Rightarrow> tensor3" where
  "tmap h x = map (map (map h)) x"

definition add_const :: "fl \<Rightarrow> tensor3 \<Rightarrow> tensor3" where
  "add_const c x = tmap (\<lambda>v. fadd v c) x"

definition const_mask :: "fl \<Rightarrow> tensor2 \<Rightarrow> bool" where
  "const_mask c m = list_all (list_all (\<lambda>v. v = c)) m"

definition binary_mask :: "tensor2 \<Rightarrow> bool" where
  "binary_mask m = list_all (list_all (\<lambda>v. v = Fin 0 \<or> v = Fin 1)) m"

text \<open>Tensors of float32 values, and tensors of finite float32 values.\<close>

definition float32_frame :: "tensor1 \<Rightarrow> bool" where
  "float32_frame f = list_all is_float32 f"

definition finite_frame :: "tensor1 \<Rightarrow> bool" where
  "finite_frame f = list_all (\<lambda>v. is_fin v \<and> is_float32 v) f"

definition float32_tensor :: "tensor3 \<Rightarrow> bool" where
  "float32_tensor x = list_all (list_all float32_frame) x"

definition finite_tensor :: "tensor3 \<Rightarrow> bool" where
  "finite_tensor x = list_all (list_all finite_frame) x"

subsection \<open>The objective: line 48 and \_training\_step\<close>

definition is_grad_tensor :: "pyval \<Rightarrow> bool" where
  "is_grad_tensor v = (case v of Tensor x g \<Rightarrow> g | _ \<Rightarrow> False)"

text \<open>\<^verbatim>\<open>loss_weights.get(k, 1)\<close>; a weight is a Python integer.\<close>

definition weight_of :: "(string \<times> int) list \<Rightarrow> string \<Rightarrow> int" where
  "weight_of W k = (case map_of W k of None \<Rightarrow> 1 | Some w \<Rightarrow> w)"

text \<open>
  A Python integer times a value, and the sum of two values. With a tensor the
  integer becomes a float32 scalar, and the result is a float32 tensor.
\<close>

fun py_scale :: "int \<Rightarrow> pyval \<Rightarrow> pyval" where
  "py_scale w (Tensor x g) = Tensor (fmul x (float_of_int w)) g"
| "py_scale w (PyInt i) = PyInt (w * i)"

fun py_add :: "pyval \<Rightarrow> pyval \<Rightarrow> pyval" where
  "py_add (PyInt a) (PyInt b) = PyInt (a + b)"
| "py_add (PyInt a) (Tensor y h) = Tensor (fadd y (float_of_int a)) h"
| "py_add (Tensor x g) (PyInt b) = Tensor (fadd x (float_of_int b)) g"
| "py_add (Tensor x g) (Tensor y h) = Tensor (fadd x y) (g \<or> h)"

text \<open>\<^verbatim>\<open>sum(xs)\<close>: from the integer 0, adding from the left.\<close>

definition py_sum :: "pyval list \<Rightarrow> pyval" where
  "py_sum xs = foldl py_add (PyInt 0) xs"

text \<open>
  Line 48:
  \<^verbatim>\<open>sum([loss_weights.get(k, 1) * v for k, v in loss_output.items()
        if isinstance(v, torch.Tensor) and v.requires_grad])\<close>
\<close>

definition total_loss_of :: "(string \<times> int) list \<Rightarrow> losses \<Rightarrow> pyval" where
  "total_loss_of loss_weights loss_output =
     py_sum (map (\<lambda>(k, v). py_scale (weight_of loss_weights k) v)
               (filter (\<lambda>(k, v). is_grad_tensor v) loss_output))"

text \<open>
  \<^verbatim>\<open>_training_step\<close> (an Isabelle name cannot start with an underscore). The
  dictionary \<^verbatim>\<open>loss_weights\<close> is created empty and nothing is stored in it.
  \<open>run_model\<close> returns a pair when \<open>infer\<close> is false; unpacking the dictionary of
  the other mode is the TypeError branch, which is never taken.
\<close>

definition a3t_training_step ::
  "collab \<Rightarrow> sample \<Rightarrow> int \<Rightarrow> int \<Rightarrow> task \<Rightarrow> (error + pyval \<times> losses) \<times> task" where
  "a3t_training_step C s batch_idx optimizer_idx st =
     (let loss_weights = [] in
      case run_model C s False st of
        (Inl e, st1) \<Rightarrow> (Inl e, st1)
      | (Inr (InferResult out), st1) \<Rightarrow> (Inl (TypeError ''cannot unpack model output''), st1)
      | (Inr (TrainResult loss_output out), st1) \<Rightarrow>
          (let st2 = st1\<lparr>model_out_self := Some out, model_out_gt := Some out\<rparr>;
               total_loss = total_loss_of loss_weights loss_output;
               loss_output' = AList.update ''batch_size''
                  (PyInt (int (length (txt_tokens s)))) loss_output
           in (Inr (total_loss, loss_output'), st2)))"

subsection \<open>The weighted sum in the spec's words\<close>

text \<open>
  The entries of a loss record that are tensors tracking gradients, in the order of
  the record, and the sum of their weighted values, added from the left.
\<close>

definition grad_entries :: "losses \<Rightarrow> (string \<times> fl) list" where
  "grad_entries l =
     concat (map (\<lambda>(k, v). case v of Tensor x g \<Rightarrow> (if g then [(k, x)] else []) | _ \<Rightarrow> []) l)"

definition weighted_sum :: "(string \<times> int) list \<Rightarrow> (string \<times> fl) list \<Rightarrow> fl" where
  "weighted_sum W xs =
     foldl fadd (Fin 0) (map (\<lambda>(k, x). fmul x (float_of_int (weight_of W k))) xs)"

subsection \<open>The loss of the base class\<close>

text \<open>
  Modelled from the spec: \<^verbatim>\<open>add_mel_loss\<close> is a method of the base class
  \<^verbatim>\<open>FastSpeechTask\<close>, which is not in src/. The spec: ``For each stage, compute a
  mel-reconstruction loss between predicted * mask and ground_truth * mask [...] and
  record it under a stage-qualified name'', and ``the loss of ground truth vs. ground
  truth, i.e. zero''. The reconstruction loss modelled here is the sum of the absolute
  errors of the elements, added from the left in float arithmetic, for two tensors of
  one shape; the entry is a tensor that tracks gradients, stored under the name
  \<open>mel\<close> followed by the postfix of the stage.
\<close>

definition flatten3 :: "tensor3 \<Rightarrow> tensor1" where
  "flatten3 x = concat (concat x)"

definition abs_err :: "tensor3 \<Rightarrow> tensor3 \<Rightarrow> fl" where
  "abs_err x y =
     foldl fadd (Fin 0) (map2 (\<lambda>a b. fabs (fsub a b)) (flatten3 x) (flatten3 y))"

definition add_mel_loss_spec :: "tensor3 \<Rightarrow> tensor3 \<Rightarrow> losses \<Rightarrow> string \<Rightarrow> error + losses" where
  "add_mel_loss_spec out target l postfix =
     Inr (AList.update (''mel'' @ postfix) (Tensor (abs_err out target) True) l)"

subsection \<open>get\_attn\_stats\<close>

text \<open>
  Lines 113 to 118. \<^verbatim>\<open>.float()\<close> rounds a length to a float, the division is the
  float division of two one-dimensional tensors, and \<^verbatim>\<open>.sum(-1)\<close> is torch's
  reduction over the channels of a frame.
\<close>

definition src_padding_mask_of :: "sample \<Rightarrow> bool list list" where
  "src_padding_mask_of s = map (map (\<lambda>t. t = 0)) (txt_tokens s)"

definition target_padding_mask_of :: "collab \<Rightarrow> sample \<Rightarrow> bool list list" where
  "target_padding_mask_of C s =
     map (map (\<lambda>frame. tensor_sum C (map fabs frame) = Fin 0)) (mels s)"

definition src_seg_mask_of :: "task \<Rightarrow> sample \<Rightarrow> bool list list" where
  "src_seg_mask_of st s = map (map (\<lambda>t. t = seg_idx st)) (txt_tokens s)"

definition attn_ks_of :: "sample \<Rightarrow> error + tensor1" where
  "attn_ks_of s =
     broadcast (\<lambda>a b. Inr (fdiv a b)) (map float_of_int (txt_lengths s))
       (map float_of_int (mel_lengths s))"

text \<open>
  \<^verbatim>\<open>.mean()\<close> is torch's reduction; lines 125 to 127 take the mean of a 0-dim tensor
  again, and \<^verbatim>\<open>.data\<close> is a tensor that tracks no gradient.
\<close>

definition get_attn_stats ::
  "collab \<Rightarrow> tensor3 \<Rightarrow> sample \<Rightarrow> losses \<Rightarrow> string \<Rightarrow> task \<Rightarrow> error + losses" where
  "get_attn_stats C attn_map s logging_outputs prefix st =
     (let mel_lengths' = map float_of_int (mel_lengths s);
          src_padding_mask = src_padding_mask_of s;
          target_padding_mask = target_padding_mask_of C s;
          src_seg_mask = src_seg_mask_of st s
      in bind_err (attn_ks_of s) (\<lambda>attn_ks.
         let focus_rate =
               tensor_mean C (get_focus_rate C attn_map src_padding_mask target_padding_mask);
             phone_coverage_rate =
               tensor_mean C (get_phone_coverage_rate C attn_map src_padding_mask src_seg_mask
                 target_padding_mask);
             (diagonal_focus_rate, diag_mask) =
               get_diagonal_focus_rate C attn_map attn_ks mel_lengths' src_padding_mask
                 target_padding_mask
         in Inr (AList.update (prefix @ ''dfr'') (Tensor (tensor_mean C diagonal_focus_rate) False)
                (AList.update (prefix @ ''pcr'') (Tensor (tensor_mean C [phone_coverage_rate]) False)
                (AList.update (prefix @ ''fr'') (Tensor (tensor_mean C [focus_rate]) False)
                   logging_outputs)))))"

text \<open>The three names that \<open>get_attn_stats\<close> writes.\<close>

definition stat_keys :: "string \<Rightarrow> string list" where
  "stat_keys prefix = [prefix @ ''fr'', prefix @ ''pcr'', prefix @ ''dfr'']"

subsection \<open>on\_after\_optimization\<close>

text \<open>
  \<^verbatim>\<open>self.scheduler[0].step(self.global_step // hparams['accumulate_grad_batches'])\<close>
  when there is a scheduler. The optimizer argument is not used and left out.
\<close>

definition on_after_optimization ::
  "hparams \<Rightarrow> int \<Rightarrow> int \<Rightarrow> int \<Rightarrow> task \<Rightarrow> (error + unit) \<times> task" where
  "on_after_optimization hp epoch batch_idx optimizer_idx st =
     (case scheduler st of
        None \<Rightarrow> (Inr (), st)
      | Some scheds \<Rightarrow>
          (case scheds of
             [] \<Rightarrow> (Inl IndexError, st)
           | sch # rest \<Rightarrow>
               if accumulate_grad_batches hp = 0 then (Inl ZeroDivisionError, st)
               else (Inr (),
                     st\<lparr>scheduler :=
                          Some ((sch @ [global_step st div accumulate_grad_batches hp]) # rest)\<rparr>)))"

text \<open>
  The hook called once at each of the given values of \<open>global_step\<close>. The counter is
  kept by the trainer, which is not in this file, so its values are a parameter.
\<close>

fun after_steps :: "hparams \<Rightarrow> int list \<Rightarrow> task \<Rightarrow> (error + unit) \<times> task" where
  "after_steps hp [] st = (Inr (), st)"
| "after_steps hp (g # gs) st =
     (case on_after_optimization hp 0 0 0 (st\<lparr>global_step := g\<rparr>) of
        (Inl e, st') \<Rightarrow> (Inl e, st')
      | (Inr u, st') \<Rightarrow> after_steps hp gs st')"

text \<open>How often a schedule that starts at position \<open>p\<close> moves along the given positions.\<close>

fun advances :: "int \<Rightarrow> int list \<Rightarrow> nat" where
  "advances p [] = 0"
| "advances p (q # qs) = (if q \<noteq> p then 1 else 0) + advances q qs"

text \<open>
  Modelled from the spec: the trainer, which keeps the counter \<^verbatim>\<open>global_step\<close> and
  calls the hook, is not in src/. The spec: ``a single attached learning-rate schedule
  stepped once per optimizer update'' and ``the attached schedule must advance exactly
  once per 4 raw optimizer calls''. The counter starts at \<open>g0\<close> and is incremented
  before each raw call, so that \<open>n\<close> consecutive calls see the values
  \<open>g0 + 1, ..., g0 + n\<close>.
\<close>

definition raw_steps :: "int \<Rightarrow> nat \<Rightarrow> int list" where
  "raw_steps g0 n = map (\<lambda>i. g0 + 1 + int i) [0..<n]"

text \<open>The arguments that the first scheduler has received.\<close>

definition schedule_trace :: "task \<Rightarrow> int list" where
  "schedule_trace st = (case scheduler st of Some (sch # rest) \<Rightarrow> sch | _ \<Rightarrow> [])"

subsection \<open>Strings: the format of the batch index, replace, the \% operator\<close>

definition digit_char :: "nat \<Rightarrow> char" where
  "digit_char d = ''0123456789'' ! d"

fun str_nat :: "nat \<Rightarrow> string" where
  "str_nat n = (if n < 10 then [digit_char n] else str_nat (n div 10) @ [digit_char (n mod 10)])"

declare str_nat.simps [simp del]

definition zfill :: "nat \<Rightarrow> string \<Rightarrow> string" where
  "zfill w s = replicate (w - length s) CHR ''0'' @ s"

text \<open>
  \<^verbatim>\<open>f'{batch_idx:06d}'\<close>: at least six characters, the sign of a negative number
  first and counted in the width.
\<close>

definition format_06d :: "int \<Rightarrow> string" where
  "format_06d i =
     (if i < 0 then CHR ''-'' # zfill 5 (str_nat (nat (- i))) else zfill 6 (str_nat (nat i)))"

text \<open>\<^verbatim>\<open>s.replace(c, new)\<close> for a single character \<open>c\<close>.\<close>

definition replace_char :: "char \<Rightarrow> string \<Rightarrow> string \<Rightarrow> string" where
  "replace_char c new s = concat (map (\<lambda>x. if x = c then new else [x]) s)"

text \<open>
  \<^verbatim>\<open>fmt % arg\<close> for one argument that is a string, after CPython's
  \<^verbatim>\<open>PyUnicode_Format\<close>. \<open>fmt_text\<close> copies the characters up to a \<open>%\<close>;
  \<open>fmt_spec\<close> reads a conversion specifier: flags, width, precision, a length
  modifier, the conversion character. The argument is \<open>Some v\<close> until a conversion
  has used it. A \<open>%\<close> right after the \<open>%\<close> writes a \<open>%\<close> and uses no argument; every
  conversion character needs one, also a \<open>%\<close> that follows a flag, a width, a
  precision or a length modifier. The width is bounded by the largest
  \<^verbatim>\<open>Py_ssize_t\<close> and the precision by the largest \<^verbatim>\<open>int\<close>. \<open>py_repr\<close> is exact for
  an argument of printable ASCII characters without quote or backslash, as the markers
  \<open>P\<close> and \<open>G\<close> are. Running out of memory while padding is not part of the model.
\<close>

datatype phase = Start | Flags | Width | AfterDot | Prec | Conv

definition is_digit :: "char \<Rightarrow> bool" where
  "is_digit c = (c \<in> set ''0123456789'')"

definition digit_val :: "char \<Rightarrow> nat" where
  "digit_val c = of_char c - 48"

definition pad :: "bool \<Rightarrow> nat \<Rightarrow> string \<Rightarrow> string" where
  "pad ljust w v =
     (if ljust then v @ replicate (w - length v) CHR '' ''
      else replicate (w - length v) CHR '' '' @ v)"

definition truncate :: "nat option \<Rightarrow> string \<Rightarrow> string" where
  "truncate p v = (case p of None \<Rightarrow> v | Some n \<Rightarrow> take n v)"

definition prec_of :: "nat option \<Rightarrow> nat" where
  "prec_of p = (case p of None \<Rightarrow> 0 | Some n \<Rightarrow> n)"

definition py_repr :: "string \<Rightarrow> string" where
  "py_repr v = [CHR 0x27] @ v @ [CHR 0x27]"

fun fmt_text :: "string option \<Rightarrow> string \<Rightarrow> error + string"
  and fmt_spec ::
    "phase \<Rightarrow> bool \<Rightarrow> nat \<Rightarrow> nat option \<Rightarrow> string option \<Rightarrow> string \<Rightarrow> error + string" where
  "fmt_text a [] =
     (case a of
        Some v \<Rightarrow> Inl (TypeError ''not all arguments converted during string formatting'')
      | None \<Rightarrow> Inr [])"
| "fmt_text a (c # cs) =
     (if c = CHR ''%'' then fmt_spec Start False 0 None a cs
      else bind_err (fmt_text a cs) (\<lambda>r. Inr (c # r)))"
| "fmt_spec ph lj w p a [] = Inl (ValueError ''incomplete format'')"
| "fmt_spec ph lj w p a (c # cs) =
     (if ph = Start \<and> c = CHR ''%'' then bind_err (fmt_text a cs) (\<lambda>r. Inr (CHR ''%'' # r))
      else if ph = Start \<and> c = CHR ''('' then Inl (TypeError ''format requires a mapping'')
      else if (ph = Start \<or> ph = Flags) \<and> c \<in> set ''-+ #0''
        then fmt_spec Flags (lj \<or> c = CHR ''-'') w p a cs
      else if (ph = Start \<or> ph = Flags \<or> ph = AfterDot) \<and> c = CHR ''*''
        then (case a of
                None \<Rightarrow> Inl (TypeError ''not enough arguments for format string'')
              | Some v \<Rightarrow> Inl (TypeError ''* wants int''))
      else if (ph = Start \<or> ph = Flags \<or> ph = Width) \<and> is_digit c
        then (if ph = Width \<and> (9223372036854775807 - digit_val c) div 10 < w
              then Inl (ValueError ''width too big'')
              else fmt_spec Width lj (10 * w + digit_val c) p a cs)
      else if (ph = Start \<or> ph = Flags \<or> ph = Width) \<and> c = CHR ''.''
        then fmt_spec AfterDot lj w (Some 0) a cs
      else if (ph = AfterDot \<or> ph = Prec) \<and> is_digit c
        then (if ph = Prec \<and> (2147483647 - digit_val c) div 10 < prec_of p
              then Inl (ValueError ''precision too big'')
              else fmt_spec Prec lj w (Some (10 * prec_of p + digit_val c)) a cs)
      else if ph \<noteq> Conv \<and> c \<in> set ''hlL'' then fmt_spec Conv lj w p a cs
      else
        (case a of
           None \<Rightarrow> Inl (TypeError ''not enough arguments for format string'')
         | Some v \<Rightarrow>
             if c = CHR ''s''
               then bind_err (fmt_text None cs) (\<lambda>r. Inr (pad lj w (truncate p v) @ r))
             else if c = CHR ''r'' \<or> c = CHR ''a''
               then bind_err (fmt_text None cs) (\<lambda>r. Inr (pad lj w (truncate p (py_repr v)) @ r))
             else if c = CHR ''c''
               then (if length v = 1 then bind_err (fmt_text None cs) (\<lambda>r. Inr (pad lj w v @ r))
                     else Inl (TypeError ''%c requires an int or a unicode character''))
             else if c \<in> set ''diuoxXeEfFgG''
               then Inl (TypeError ''a real number is required, not str'')
             else Inl (ValueError ''unsupported format character'')))"

definition py_format :: "string \<Rightarrow> string \<Rightarrow> error + string" where
  "py_format fmt arg = fmt_text (Some arg) fmt"

subsection \<open>test\_step\<close>

text \<open>Lines 167 to 170: the template of the file names.\<close>

definition base_fn_of :: "int \<Rightarrow> string \<Rightarrow> string option \<Rightarrow> string" where
  "base_fn_of batch_idx item txt =
     (let base_fn = ''['' @ format_06d batch_idx @ '']['' @ replace_char CHR ''%'' ''_'' item
                    @ ''][%s]'';
          base_fn' = (case txt of
                        None \<Rightarrow> base_fn
                      | Some t \<Rightarrow> base_fn @ take 80 (replace_char CHR '':'' ''$3A'' t))
      in replace_char CHR '' '' ''_'' base_fn')"

text \<open>A value of the dictionary that \<open>test_step\<close> returns.\<close>

datatype dval = DStr string | DNone

definition dval_of :: "string option \<Rightarrow> dval" where
  "dval_of t = (case t of None \<Rightarrow> DNone | Some x \<Rightarrow> DStr x)"

definition add_job :: "job \<Rightarrow> task \<Rightarrow> task" where
  "add_job j st = st\<lparr>saving_result_pool := saving_result_pool st @ [j]\<rparr>"

text \<open>Lines 159 to 164: the first item of each entry of the batch.\<close>

definition first_items ::
  "sample \<Rightarrow> model_output
    \<Rightarrow> error + string option \<times> string \<times> int list \<times> tensor2 \<times> tensor2 \<times> int list" where
  "first_items s outputs =
     bind_err (index0 (sample_text s)) (\<lambda>txt.
     bind_err (index0 (item_name s)) (\<lambda>item.
     bind_err (index0 (txt_tokens s)) (\<lambda>tokens.
     bind_err (index0 (mels s)) (\<lambda>mel_gt.
     bind_err (get_key ''mel_out'' (mel_out outputs)) (\<lambda>mo.
     bind_err (index0 mo) (\<lambda>mel_pred.
     bind_err (index0 (mel2ph s)) (\<lambda>mel2ph0.
     Inr (txt, item, tokens, mel_gt, mel_pred, mel2ph0))))))))"

text \<open>Lines 175 to 178 and lines 179 to 181, each with its guard.\<close>

definition save_gt_job ::
  "collab \<Rightarrow> hparams \<Rightarrow> string \<Rightarrow> tensor2 \<Rightarrow> string \<Rightarrow> int list \<Rightarrow> task \<Rightarrow> error + task" where
  "save_gt_job C hp base_fn mel_gt str_phs mel2ph0 st =
     (if save_gt hp then
        bind_err (py_format base_fn ''G'') (\<lambda>fn_g.
        Inr (add_job \<lparr>job_wav = spec2wav C mel_gt, job_mel = mel_gt, job_base_fn = fn_g,
                      job_gen_dir = gen_dir st, job_str_phs = str_phs,
                      job_mel2ph = Some mel2ph0\<rparr> st))
      else Inr st)"

definition save_attn_file :: "hparams \<Rightarrow> model_output \<Rightarrow> string \<Rightarrow> task \<Rightarrow> error + task" where
  "save_attn_file hp outputs item st =
     (if (case save_attn hp of None \<Rightarrow> False | Some b \<Rightarrow> b) then
        bind_err (get_key ''attn'' (attn outputs)) (\<lambda>a.
        bind_err (index0 a) (\<lambda>attn0.
        Inr (st\<lparr>saved_arrays := saved_arrays st @ [(gen_dir st @ ''/attn/'' @ item @ ''.npy'', attn0)]\<rparr>)))
      else Inr st)"

text \<open>
  \<open>test_step\<close>. The assertion comes first; the arguments of a job are evaluated before
  the job is added, so a file name that cannot be formatted adds no job. The line
  printed at the end is not part of the state and is left out.
\<close>

definition test_step ::
  "collab \<Rightarrow> hparams \<Rightarrow> sample \<Rightarrow> int \<Rightarrow> task \<Rightarrow> (error + (string \<times> dval) list) \<times> task" where
  "test_step C hp s batch_idx st =
     (if length (txt_tokens s) \<noteq> 1
        then (Inl (AssertionError ''only support batch_size=1 in inference''), st)
      else
        case run_model C s True st of
          (Inl e, st1) \<Rightarrow> (Inl e, st1)
        | (Inr (TrainResult l out), st1) \<Rightarrow> (Inl (TypeError ''tuple indices must be integers''), st1)
        | (Inr (InferResult outputs), st1) \<Rightarrow>
            (case first_items s outputs of
               Inl e \<Rightarrow> (Inl e, st1)
             | Inr (txt, item, tokens, mel_gt, mel_pred, mel2ph0) \<Rightarrow>
                 (let str_phs = decode C tokens (Some True);
                      base_fn = base_fn_of batch_idx item txt;
                      wav_pred = spec2wav C mel_pred
                  in case py_format base_fn ''P'' of
                       Inl e \<Rightarrow> (Inl e, st1)
                     | Inr fn_p \<Rightarrow>
                         (let st2 = add_job \<lparr>job_wav = wav_pred, job_mel = mel_pred,
                                     job_base_fn = fn_p, job_gen_dir = gen_dir st1,
                                     job_str_phs = str_phs, job_mel2ph = None\<rparr> st1
                          in case save_gt_job C hp base_fn mel_gt str_phs mel2ph0 st2 of
                               Inl e \<Rightarrow> (Inl e, st2)
                             | Inr st3 \<Rightarrow>
                                 (case save_attn_file hp outputs item st3 of
                                    Inl e \<Rightarrow> (Inl e, st3)
                                  | Inr st4 \<Rightarrow>
                                      (bind_err (py_format base_fn ''P'') (\<lambda>fn_pred.
                                       bind_err (py_format base_fn ''G'') (\<lambda>fn_gt.
                                       Inr [(''item_name'', DStr item),
                                            (''text'', dval_of txt),
                                            (''ph_tokens'', DStr (decode C tokens None)),
                                            (''wav_fn_pred'', DStr fn_pred),
                                            (''wav_fn_gt'', DStr fn_gt)])),
                                       st4))))))"

text \<open>Reading the batch index back from a file name: the digits between the first brackets.\<close>

definition undigits :: "string \<Rightarrow> nat" where
  "undigits ds = foldl (\<lambda>acc c. 10 * acc + digit_val c) 0 ds"

definition parse_index :: "string \<Rightarrow> int" where
  "parse_index ds =
     (case ds of
        [] \<Rightarrow> 0
      | c # cs \<Rightarrow> if c = CHR ''-'' then - int (undigits cs) else int (undigits ds))"

definition index_of_name :: "string \<Rightarrow> int" where
  "index_of_name name = parse_index (takeWhile (\<lambda>c. c \<noteq> CHR '']'') (tl name))"

subsection \<open>File names in the spec's words\<close>

text \<open>
  The item name with \<open>%\<close> and spaces replaced, the raw text with \<open>:\<close> replaced, cut
  to 80 characters and its spaces replaced, and the name built from the zero-padded
  batch index, the item, a marker and the text.
\<close>

definition sanitized_item :: "string \<Rightarrow> string" where
  "sanitized_item item = replace_char CHR '' '' ''_'' (replace_char CHR ''%'' ''_'' item)"

definition sanitized_text :: "string option \<Rightarrow> string" where
  "sanitized_text txt =
     (case txt of
        None \<Rightarrow> []
      | Some t \<Rightarrow> replace_char CHR '' '' ''_'' (take 80 (replace_char CHR '':'' ''$3A'' t)))"

definition file_name :: "int \<Rightarrow> string \<Rightarrow> string \<Rightarrow> string \<Rightarrow> string" where
  "file_name batch_idx item marker suffix =
     ''['' @ format_06d batch_idx @ '']['' @ sanitized_item item @ '']['' @ marker @ '']''
     @ suffix"

text \<open>The names of the jobs that a step added to the pool.\<close>

definition new_job_names :: "task \<Rightarrow> task \<Rightarrow> string list" where
  "new_job_names st st' =
     map job_base_fn (drop (length (saving_result_pool st)) (saving_result_pool st'))"

text \<open>
  The two jobs of a step, the state after they are added, and the dictionary that the
  step returns, for a file name whose text part is \<open>r\<close>.
\<close>

definition pred_job :: "collab \<Rightarrow> int \<Rightarrow> string \<Rightarrow> string \<Rightarrow> int list \<Rightarrow> tensor2 \<Rightarrow> task \<Rightarrow> job" where
  "pred_job C i item r tokens mel_pred st1 =
     \<lparr>job_wav = spec2wav C mel_pred, job_mel = mel_pred, job_base_fn = file_name i item ''P'' r,
      job_gen_dir = gen_dir st1, job_str_phs = decode C tokens (Some True), job_mel2ph = None\<rparr>"

definition gt_job :: "collab \<Rightarrow> int \<Rightarrow> string \<Rightarrow> string \<Rightarrow> int list \<Rightarrow> tensor2 \<Rightarrow> int list \<Rightarrow> task \<Rightarrow> job" where
  "gt_job C i item r tokens mel_gt mel2ph0 st1 =
     \<lparr>job_wav = spec2wav C mel_gt, job_mel = mel_gt, job_base_fn = file_name i item ''G'' r,
      job_gen_dir = gen_dir st1, job_str_phs = decode C tokens (Some True),
      job_mel2ph = Some mel2ph0\<rparr>"

definition after_jobs ::
  "collab \<Rightarrow> hparams \<Rightarrow> int \<Rightarrow> string \<Rightarrow> string \<Rightarrow> int list \<Rightarrow> tensor2 \<Rightarrow> tensor2 \<Rightarrow> int list
    \<Rightarrow> task \<Rightarrow> task" where
  "after_jobs C hp i item r tokens mel_gt mel_pred mel2ph0 st1 =
     (let st2 = add_job (pred_job C i item r tokens mel_pred st1) st1
      in if save_gt hp then add_job (gt_job C i item r tokens mel_gt mel2ph0 st1) st2 else st2)"

definition description :: "collab \<Rightarrow> int \<Rightarrow> string \<Rightarrow> string option \<Rightarrow> string \<Rightarrow> int list
    \<Rightarrow> (string \<times> dval) list" where
  "description C i item txt r tokens =
     [(''item_name'', DStr item), (''text'', dval_of txt),
      (''ph_tokens'', DStr (decode C tokens None)),
      (''wav_fn_pred'', DStr (file_name i item ''P'' r)),
      (''wav_fn_gt'', DStr (file_name i item ''G'' r))]"

text \<open>An error that is an assertion failure.\<close>

definition is_assertion :: "error \<Rightarrow> bool" where
  "is_assertion e = (case e of AssertionError msg \<Rightarrow> True | _ \<Rightarrow> False)"

subsection \<open>A batch, collaborators and a task to run the definitions on\<close>

text \<open>
  The scenario of the spec: four mel frames of one channel, two tokens, the mask
  \<open>[0, 0, 1, 1]\<close>, a ground truth of ones and a model that predicts nines.
\<close>

definition demo_sample :: sample where
  "demo_sample =
     \<lparr>txt_tokens = [[5, 7]], txt_lengths = [2], mel_lengths = [4],
      mels = [[[Fin 1], [Fin 1], [Fin 1], [Fin 1]]], mel2ph = [[1, 1, 2, 2]],
      time_mel_masks = [[Fin 0, Fin 0, Fin 1, Fin 1]], pitch = None, spk_embed = None,
      spk_ids = None, sample_text = [Some ''hi there: ok''], item_name = [''utt%1 a'']\<rparr>"

definition nines :: tensor3 where
  "nines = [[[Fin 9], [Fin 9], [Fin 9], [Fin 9]]]"

definition demo_model :: "model_args \<Rightarrow> model_output" where
  "demo_model a =
     (if m_infer a
      then \<lparr>mel_out_decoder = None, mel_out_postnet = None, mel_out = Some nines,
            attn = Some [[[Fin 1, Fin 0], [Fin 1, Fin 0], [Fin 0, Fin 1], [Fin 0, Fin 1]]]\<rparr>
      else \<lparr>mel_out_decoder = Some nines, mel_out_postnet = Some nines, mel_out = None,
            attn = None\<rparr>)"

text \<open>Reductions that add from the left.\<close>

definition sum_left :: "tensor1 \<Rightarrow> fl" where
  "sum_left xs = foldl fadd (Fin 0) xs"

definition mean_left :: "tensor1 \<Rightarrow> fl" where
  "mean_left xs = fdiv (sum_left xs) (float_of_int (int (length xs)))"

definition demo_collab :: collab where
  "demo_collab =
     \<lparr>model = demo_model, add_mel_loss = add_mel_loss_spec, spec2wav = concat,
      decode = (\<lambda>tokens strip. ''HH AY''),
      get_focus_rate = (\<lambda>a sp tp. [Fin 1]),
      get_phone_coverage_rate = (\<lambda>a sp sg tp. [Fin (1 / 2)]),
      get_diagonal_focus_rate = (\<lambda>a ks ml sp tp. ([Fin (1 / 2)], [])),
      tensor_sum = sum_left, tensor_mean = mean_left\<rparr>"

definition demo_task :: task where
  "demo_task =
     \<lparr>global_step = 0, model_out_self = None, model_out_gt = None, scheduler = Some [[]],
      model_calls = [], saving_result_pool = [], saved_arrays = [], gen_dir = ''out'',
      seg_idx = 7\<rparr>"

definition demo_hparams :: hparams where
  "demo_hparams = \<lparr>accumulate_grad_batches = 4, save_gt = False, save_attn = None\<rparr>"

text \<open>The same batch with a mask that is zero everywhere.\<close>

definition zero_mask_sample :: sample where
  "zero_mask_sample = demo_sample\<lparr>time_mel_masks := [[Fin 0, Fin 0, Fin 0, Fin 0]]\<rparr>"

text \<open>A model whose prediction is nan in the first frame, and the collaborators with it.\<close>

definition nan_first :: tensor3 where
  "nan_first = [[[NaN], [Fin 9], [Fin 9], [Fin 9]]]"

definition nan_model :: "model_args \<Rightarrow> model_output" where
  "nan_model a =
     (if m_infer a
      then \<lparr>mel_out_decoder = None, mel_out_postnet = None, mel_out = Some nan_first, attn = None\<rparr>
      else \<lparr>mel_out_decoder = Some nan_first, mel_out_postnet = Some nan_first, mel_out = None,
            attn = None\<rparr>)"

definition nan_collab :: collab where
  "nan_collab = demo_collab\<lparr>model := nan_model\<rparr>"

text \<open>The floats nearest to 0.1 and to 0.3.\<close>

definition tenth :: fl where
  "tenth = Fin (13421773 / 134217728)"

definition three_tenths :: fl where
  "three_tenths = Fin (5033165 / 16777216)"

text \<open>
  A base-class loss that writes the record \<open>{a: 2 (grad), b: 3 (grad), c: 5 (no grad)}\<close>,
  and one whose entries do not track gradients.
\<close>

definition abc_loss :: "tensor3 \<Rightarrow> tensor3 \<Rightarrow> losses \<Rightarrow> string \<Rightarrow> error + losses" where
  "abc_loss out target l postfix =
     Inr (if postfix = ''_decoder''
          then AList.update ''b'' (Tensor (Fin 3) True)
                 (AList.update ''a'' (Tensor (Fin 2) True) l)
          else AList.update ''c'' (Tensor (Fin 5) False) l)"

definition detached_loss :: "tensor3 \<Rightarrow> tensor3 \<Rightarrow> losses \<Rightarrow> string \<Rightarrow> error + losses" where
  "detached_loss out target l postfix =
     Inr (AList.update (''mel'' @ postfix) (Tensor (abs_err out target) False) l)"

definition abc_collab :: collab where
  "abc_collab = demo_collab\<lparr>add_mel_loss := abc_loss\<rparr>"

definition detached_collab :: collab where
  "detached_collab = demo_collab\<lparr>add_mel_loss := detached_loss\<rparr>"

definition abc_record :: losses where
  "abc_record = [(''a'', Tensor (Fin 2) True), (''b'', Tensor (Fin 3) True),
                 (''c'', Tensor (Fin 5) False)]"

text \<open>A batch of two items.\<close>

definition two_items :: sample where
  "two_items = demo_sample\<lparr>txt_tokens := [[5, 7], [5, 0]]\<rparr>"

section \<open>Rounding to a float\<close>

lemma quantum_from_down:
  "j \<le> k \<Longrightarrow> i \<le> j \<Longrightarrow> a < 16777216 / 2 ^ i
    \<Longrightarrow> \<exists>j'. i \<le> j' \<and> j' \<le> j \<and> quantum_from k (1 / 2 ^ j) a = 1 / 2 ^ j'"
proof (induction k arbitrary: j)
  case 0
  then show ?case by auto
next
  case (Suc k)
  show ?case
  proof (cases "a < 16777216 * (1 / 2 ^ j)")
    case True
    then show ?thesis using Suc.prems by auto
  next
    case False
    have "i \<noteq> j" using False Suc.prems(3) by auto
    then obtain j0 where j0: "j = Suc j0" "i \<le> j0" "j0 \<le> k"
      using Suc.prems by (cases j) auto
    have "2 * (1 / 2 ^ j) = (1 / 2 ^ j0 :: real)" by (simp add: j0)
    moreover from Suc.IH[OF j0(3) j0(2) Suc.prems(3)]
    obtain j' where "i \<le> j'" "j' \<le> j0" "quantum_from k (1 / 2 ^ j0) a = 1 / 2 ^ j'"
      by blast
    ultimately show ?thesis using False j0 by (intro exI[of _ j']) simp
  qed
qed

lemma quantum_from_exact:
  "j \<le> k \<Longrightarrow> i \<le> j \<Longrightarrow> a < 16777216 / 2 ^ i \<Longrightarrow> (i < j \<Longrightarrow> 16777216 / 2 ^ Suc i \<le> a)
    \<Longrightarrow> quantum_from k (1 / 2 ^ j) a = 1 / 2 ^ i"
proof (induction k arbitrary: j)
  case 0
  then show ?case by auto
next
  case (Suc k)
  show ?case
  proof (cases "i = j")
    case True
    then show ?thesis using Suc.prems by simp
  next
    case False
    then obtain j0 where j0: "j = Suc j0" "i \<le> j0" "j0 \<le> k"
      using Suc.prems by (cases j) auto
    have "(16777216 / 2 ^ j :: real) \<le> 16777216 / 2 ^ Suc i"
      using j0 by (simp add: frac_le power_increasing)
    also have "\<dots> \<le> a" using Suc.prems False by simp
    finally have stop: "\<not> a < 16777216 * (1 / 2 ^ j)" by simp
    have two: "2 * (1 / 2 ^ j) = (1 / 2 ^ j0 :: real)" by (simp add: j0)
    have "quantum_from k (1 / 2 ^ j0) a = 1 / 2 ^ i"
      using Suc.prems j0 by (intro Suc.IH) auto
    then show ?thesis using stop two j0 by simp
  qed
qed

lemma round_half_even_int: "round_half_even (of_int n) = n"
  by (simp add: round_half_even_def)

lemma round32_dyadic:
  assumes "\<bar>m\<bar> < 16777216" "i \<le> 149"
  shows "round32 (of_int m / 2 ^ i) = Fin (of_int m / 2 ^ i)"
proof -
  let ?x = "of_int m / 2 ^ i :: real"
  have a: "\<bar>?x\<bar> = of_int \<bar>m\<bar> / 2 ^ i" by simp
  have "of_int \<bar>m\<bar> < (16777216 :: real)" using assms(1) by linarith
  then have lt: "\<bar>?x\<bar> < 16777216 / 2 ^ i" unfolding a by (simp add: divide_strict_right_mono)
  from quantum_from_down[OF _ assms(2) lt, of 253]
  obtain j' where j': "i \<le> j'" "j' \<le> 149" "quantum \<bar>?x\<bar> = 1 / 2 ^ j'"
    by (auto simp: quantum_def)
  have "\<bar>?x\<bar> / (1 / 2 ^ j') = of_int \<bar>m\<bar> * (2 ^ j' / 2 ^ i)" unfolding a by simp
  also have "(2 ^ j' / 2 ^ i :: real) = 2 ^ (j' - i)" using j'(1) by (simp add: power_diff)
  finally have q: "\<bar>?x\<bar> / (1 / 2 ^ j') = of_int (\<bar>m\<bar> * 2 ^ (j' - i))" by simp
  have "\<bar>?x\<bar> = (\<bar>?x\<bar> / (1 / 2 ^ j')) * (1 / 2 ^ j')" by simp
  then have r: "of_int (\<bar>m\<bar> * 2 ^ (j' - i)) * (1 / 2 ^ j') = \<bar>?x\<bar>"
    unfolding q by simp
  have small: "\<not> (2 ^ 128 \<le> \<bar>?x\<bar>)"
  proof -
    have "\<bar>?x\<bar> < 16777216 / 2 ^ i" by (rule lt)
    also have "\<dots> \<le> 16777216" by (simp add: divide_le_eq)
    finally show ?thesis by simp
  qed
  have neg: "?x < 0 \<longleftrightarrow> m < 0" by (simp add: divide_less_0_iff)
  show ?thesis
    unfolding round32_def Let_def j'(3) q round_half_even_int r
    using small by (auto simp: neg abs_if)
qed

lemma round32_int: "\<bar>m\<bar> < 16777216 \<Longrightarrow> round32 (of_int m) = Fin (of_int m)"
  using round32_dyadic[of m 0] by simp

lemma round32_numeral [simp]:
  "numeral n < (16777216 :: int) \<Longrightarrow> round32 (numeral n) = Fin (numeral n)"
  using round32_int[of "numeral n"] by simp

lemma round32_0 [simp]: "round32 0 = Fin 0"
  using round32_int[of 0] by simp

lemma round32_1 [simp]: "round32 1 = Fin 1"
  using round32_int[of 1] by simp

lemma round32_half [simp]: "round32 (1 / 2) = Fin (1 / 2)"
  using round32_dyadic[of 1 1] by simp

lemma round32_scaled:
  assumes "0 \<le> x" "i \<le> 149" "x * 2 ^ i < 16777216" "i < 149 \<Longrightarrow> 8388608 \<le> x * 2 ^ i"
  shows "round32 x = Fin (of_int (round_half_even (x * 2 ^ i)) / 2 ^ i)"
proof -
  have lt: "x < 16777216 / 2 ^ i" using assms(3) by (simp add: pos_less_divide_eq)
  have ge: "16777216 / 2 ^ Suc i \<le> x" if "i < 149"
    using assms(4)[OF that] by (simp add: pos_divide_le_eq)
  have q: "quantum \<bar>x\<bar> = 1 / 2 ^ i"
    unfolding quantum_def using assms(1,2) lt ge by (intro quantum_from_exact) auto
  have up: "round_half_even (x * 2 ^ i) \<le> 16777216"
  proof -
    have "\<lfloor>x * 2 ^ i\<rfloor> < 16777216" using assms(3) by (simp add: floor_less_iff)
    then show ?thesis by (auto simp: round_half_even_def Let_def)
  qed
  have nn: "0 \<le> round_half_even (x * 2 ^ i)"
  proof -
    have "0 \<le> \<lfloor>x * 2 ^ i\<rfloor>" using assms(1) by simp
    then show ?thesis by (auto simp: round_half_even_def Let_def)
  qed
  have "of_int (round_half_even (x * 2 ^ i)) * (1 / 2 ^ i) \<le> (16777216 :: real)"
  proof -
    have "(of_int (round_half_even (x * 2 ^ i)) :: real) \<le> 16777216" using up by linarith
    moreover have "(1 / 2 ^ i :: real) \<le> 1" by (simp add: divide_le_eq)
    moreover have "(0::real) \<le> of_int (round_half_even (x * 2 ^ i))" using nn by simp
    ultimately show ?thesis
      using mult_mono[of "of_int (round_half_even (x * 2 ^ i))" "16777216::real" "1 / 2 ^ i" 1]
      by simp
  qed
  then have small: "\<not> 2 ^ 128 \<le> (of_int (round_half_even (x * 2 ^ i)) * (1 / 2 ^ i) :: real)"
    by simp
  show ?thesis
    unfolding round32_def Let_def q using small assms(1) by simp
qed

section \<open>Float arithmetic with zero and one\<close>

lemma fmul_zero: "is_fin x \<Longrightarrow> fmul x (Fin 0) = Fin 0"
  by (cases x) (simp_all add: fmul_def is_fin_def)

lemma fmul_one: "is_float32 x \<Longrightarrow> fmul x (Fin 1) = x"
  by (cases x) (simp_all add: fmul_def is_float32_def signed_inf_def is_neg_def)

lemma fsub_one_zero: "fsub (Fin 1) (Fin 0) = Fin 1"
  by (simp add: fsub_def fneg_def fadd_def)

lemma fsub_one_one: "fsub (Fin 1) (Fin 1) = Fin 0"
  by (simp add: fsub_def fneg_def fadd_def)

lemma fadd_zero_left: "is_float32 x \<Longrightarrow> fadd (Fin 0) x = x"
  by (cases x) (simp_all add: fadd_def is_float32_def)

lemma fadd_zero_right: "is_float32 x \<Longrightarrow> fadd x (Fin 0) = x"
  by (cases x) (simp_all add: fadd_def is_float32_def)

lemma blend_zero:
  "is_fin p \<Longrightarrow> is_float32 g \<Longrightarrow> fadd (fmul p (Fin 0)) (fmul g (fsub (Fin 1) (Fin 0))) = g"
  by (simp add: fmul_zero fsub_one_zero fmul_one fadd_zero_left)

lemma blend_one:
  "is_float32 p \<Longrightarrow> is_fin g \<Longrightarrow> fadd (fmul p (Fin 1)) (fmul g (fsub (Fin 1) (Fin 1))) = p"
  by (simp add: fmul_zero fsub_one_one fmul_one fadd_zero_right)

lemma nan_blend: "fadd (fmul NaN m) y = NaN"
  by (simp add: fmul_def fadd_def)

lemma float32_numeral [simp]: "numeral n < (16777216 :: int) \<Longrightarrow> is_float32 (Fin (numeral n))"
  by (simp add: is_float32_def)

lemma float32_small [simp]: "is_float32 (Fin 0)" "is_float32 (Fin 1)" "is_float32 NaN"
  "is_float32 PInf" "is_float32 NInf"
  by (simp_all add: is_float32_def)

lemma is_fin_Fin [simp]: "is_fin (Fin r)" "\<not> is_fin NaN" "\<not> is_fin PInf" "\<not> is_fin NInf"
  by (simp_all add: is_fin_def)

section \<open>Broadcasting on tensors of matching shapes\<close>

lemma sequence_map2:
  "length xs = length ys \<Longrightarrow> (\<And>x y. (x, y) \<in> set (zip xs ys) \<Longrightarrow> f x y = Inr (g x y))
    \<Longrightarrow> sequence (map2 f xs ys) = Inr (map2 g xs ys)"
  by (induction xs ys rule: list_induct2) auto

lemma sequence_map_Inr: "sequence (map (\<lambda>x. Inr (g x)) xs) = Inr (map g xs)"
  by (induction xs) auto

lemma broadcast_same:
  "length xs = length ys \<Longrightarrow> (\<And>x y. (x, y) \<in> set (zip xs ys) \<Longrightarrow> f x y = Inr (g x y))
    \<Longrightarrow> broadcast f xs ys = Inr (map2 g xs ys)"
  by (simp add: broadcast_def sequence_map2)

lemma broadcast_channel:
  "broadcast (\<lambda>a b. Inr (f a b)) xs [m] = Inr (map (\<lambda>x. f x m) xs)"
proof (cases "length xs = 1")
  case True
  then obtain x where "xs = [x]" by (cases xs) auto
  then show ?thesis by (simp add: broadcast_def)
next
  case False
  then show ?thesis by (simp add: broadcast_def sequence_map_Inr)
qed

lemma elementwise3_mask:
  assumes "mask_shape m x"
  shows "elementwise3 f x (unsqueeze_last m) = Inr (scale_frames f x m)"
proof -
  have len: "length x = length m"
    using assms by (auto simp: mask_shape_def dest: list_all2_lengthD)
  have row: "broadcast (broadcast (\<lambda>a b. Inr (f a b))) xb (map (\<lambda>v. [v]) mb)
      = Inr (map2 (\<lambda>xf mv. map (\<lambda>v. f v mv) xf) xb mb)"
    if "length xb = length mb" for xb mb
  proof -
    have "broadcast (broadcast (\<lambda>a b. Inr (f a b))) xb (map (\<lambda>v. [v]) mb)
      = Inr (map2 (\<lambda>xf mf. map (\<lambda>v. f v (hd mf)) xf) xb (map (\<lambda>v. [v]) mb))"
      using that by (intro broadcast_same) (auto simp: zip_map2 broadcast_channel)
    also have "map2 (\<lambda>xf mf. map (\<lambda>v. f v (hd mf)) xf) xb (map (\<lambda>v. [v]) mb)
      = map2 (\<lambda>xf mv. map (\<lambda>v. f v mv) xf) xb mb"
      by (simp add: zip_map2 case_prod_unfold)
    finally show ?thesis .
  qed
  have "elementwise3 f x (unsqueeze_last m)
      = Inr (map2 (\<lambda>xb mb3. map2 (\<lambda>xf mf. map (\<lambda>v. f v (hd mf)) xf) xb mb3) x (unsqueeze_last m))"
    unfolding elementwise3_def
  proof (rule broadcast_same)
    show "length x = length (unsqueeze_last m)" by (simp add: len unsqueeze_last_def)
  next
    fix xb mb3 assume "(xb, mb3) \<in> set (zip x (unsqueeze_last m))"
    then obtain mb where mb: "mb3 = map (\<lambda>v. [v]) mb" "(xb, mb) \<in> set (zip x m)"
      by (auto simp: unsqueeze_last_def zip_map2)
    with assms have "length xb = length mb"
      by (auto simp: mask_shape_def list_all2_conv_all_nth in_set_zip)
    from row[OF this] show "broadcast (broadcast (\<lambda>a b. Inr (f a b))) xb mb3
       = Inr (map2 (\<lambda>xf mf. map (\<lambda>v. f v (hd mf)) xf) xb mb3)"
      by (simp add: mb zip_map2 case_prod_unfold)
  qed
  also have "map2 (\<lambda>xb mb3. map2 (\<lambda>xf mf. map (\<lambda>v. f v (hd mf)) xf) xb mb3) x (unsqueeze_last m)
     = scale_frames f x m"
    by (simp add: scale_frames_def unsqueeze_last_def zip_map2 case_prod_unfold)
  finally show ?thesis .
qed

lemma elementwise3_same:
  assumes "same_shape3 x y"
  shows "elementwise3 f x y = Inr (map2 (map2 (map2 f)) x y)"
proof -
  have l3: "broadcast (\<lambda>a b. Inr (f a b)) a b = Inr (map2 f a b)" if "length a = length b" for a b
    using that by (intro broadcast_same) auto
  have l2: "broadcast (broadcast (\<lambda>a b. Inr (f a b))) a b = Inr (map2 (map2 f) a b)"
    if "list_all2 (\<lambda>a b. length a = length b) a b" for a b
    using that by (intro broadcast_same) (auto simp: list_all2_conv_all_nth in_set_zip l3)
  show ?thesis
    unfolding elementwise3_def using assms
    by (intro broadcast_same) (auto simp: same_shape3_def list_all2_conv_all_nth in_set_zip l2)
qed

lemma one_minus_unsqueeze:
  "one_minus (unsqueeze_last m) = unsqueeze_last (map (map (\<lambda>v. fsub (Fin 1) v)) m)"
  by (simp add: one_minus_def unsqueeze_last_def)

lemma mask_shape_map: "mask_shape (map (map h) m) x = mask_shape m x"
  by (simp add: mask_shape_def list_all2_conv_all_nth)

lemma mask_shape_trans: "mask_shape m g \<Longrightarrow> same_shape3 p g \<Longrightarrow> mask_shape m p"
  by (auto simp: mask_shape_def same_shape3_def list_all2_conv_all_nth)

lemma tmul_mask: "mask_shape m x \<Longrightarrow> tmul x (unsqueeze_last m) = Inr (masked x m)"
  unfolding tmul_def masked_def by (rule elementwise3_mask)

lemma composite_eq:
  assumes "mask_shape m g" "same_shape3 p g"
  shows "composite p g (unsqueeze_last m) = Inr (composite_spec p g m)"
proof -
  let ?m' = "map (map (\<lambda>v. fsub (Fin 1) v)) m"
  let ?mul = fmul
  have mp: "mask_shape m p" using assms by (rule mask_shape_trans)
  have a: "tmul p (unsqueeze_last m) = Inr (scale_frames ?mul p m)"
    unfolding tmul_def by (rule elementwise3_mask[OF mp])
  have b: "tmul g (one_minus (unsqueeze_last m)) = Inr (scale_frames ?mul g ?m')"
    unfolding tmul_def one_minus_unsqueeze
    by (rule elementwise3_mask) (simp add: mask_shape_map assms)
  have sh: "same_shape3 (scale_frames ?mul p m) (scale_frames ?mul g ?m')"
    using assms mp
    by (auto simp: same_shape3_def mask_shape_def scale_frames_def list_all2_conv_all_nth)
  have c: "tadd (scale_frames ?mul p m) (scale_frames ?mul g ?m')
      = Inr (map2 (map2 (map2 fadd)) (scale_frames ?mul p m)
               (scale_frames ?mul g ?m'))"
    unfolding tadd_def by (rule elementwise3_same[OF sh])
  have lens: "length p = length m" "length g = length m"
    using assms mp by (auto simp: mask_shape_def dest: list_all2_lengthD)
  have d: "map2 (map2 (map2 fadd)) (scale_frames ?mul p m)
               (scale_frames ?mul g ?m') = composite_spec p g m"
    using assms mp lens
    by (auto simp: composite_spec_def scale_frames_def same_shape3_def mask_shape_def
        list_all2_conv_all_nth intro!: nth_equalityI)
  show ?thesis
    by (simp add: composite_def bind_err_def a b c d)
qed

section \<open>The composited tensor, element by element\<close>

lemma composite_spec_length:
  "mask_shape m g \<Longrightarrow> same_shape3 p g \<Longrightarrow> length (composite_spec p g m) = length g"
  by (simp add: composite_spec_def mask_shape_def same_shape3_def list_all2_conv_all_nth)

lemma composite_spec_row_length:
  "mask_shape m g \<Longrightarrow> same_shape3 p g \<Longrightarrow> b < length g
    \<Longrightarrow> length (composite_spec p g m ! b) = length (g ! b)"
  by (auto simp: composite_spec_def mask_shape_def same_shape3_def list_all2_conv_all_nth)

lemma composite_spec_frame:
  assumes "mask_shape m g" "same_shape3 p g" "b < length g" "t < length (g ! b)"
  shows "composite_spec p g m ! b ! t
     = map2 (\<lambda>pv gv. fadd (fmul pv (m ! b ! t)) (fmul gv (fsub (Fin 1) (m ! b ! t))))
         (p ! b ! t) (g ! b ! t)"
  using assms
  by (auto simp: composite_spec_def mask_shape_def same_shape3_def list_all2_conv_all_nth)

lemma frame_length:
  "same_shape3 p g \<Longrightarrow> b < length g \<Longrightarrow> t < length (g ! b)
    \<Longrightarrow> length (p ! b ! t) = length (g ! b ! t)"
  by (auto simp: same_shape3_def list_all2_conv_all_nth)

lemma composite_spec_nth:
  assumes "mask_shape m g" "same_shape3 p g" "b < length g" "t < length (g ! b)"
    "c < length (g ! b ! t)"
  shows "composite_spec p g m ! b ! t ! c
     = fadd (fmul (p ! b ! t ! c) (m ! b ! t)) (fmul (g ! b ! t ! c) (fsub (Fin 1) (m ! b ! t)))"
  using assms frame_length[OF assms(2,3,4)] by (simp add: composite_spec_frame)

lemma map2_second:
  "length xs = length ys \<Longrightarrow> (\<And>x y. (x, y) \<in> set (zip xs ys) \<Longrightarrow> f x y = y)
    \<Longrightarrow> map2 f xs ys = ys"
  by (induction xs ys rule: list_induct2) auto

lemma map2_first:
  "length xs = length ys \<Longrightarrow> (\<And>x y. (x, y) \<in> set (zip xs ys) \<Longrightarrow> f x y = x)
    \<Longrightarrow> map2 f xs ys = xs"
  by (induction xs ys rule: list_induct2) auto

lemma finite_frame_elem: "finite_frame f \<Longrightarrow> x \<in> set f \<Longrightarrow> is_fin x \<and> is_float32 x"
  by (simp add: finite_frame_def list_all_iff)

lemma float32_frame_elem: "float32_frame f \<Longrightarrow> x \<in> set f \<Longrightarrow> is_float32 x"
  by (simp add: float32_frame_def list_all_iff)

lemma finite_frame_float32: "finite_frame f \<Longrightarrow> float32_frame f"
  by (simp add: finite_frame_def float32_frame_def list_all_iff)

lemma composite_spec_outside:
  assumes "mask_shape m g" "same_shape3 p g" "b < length g" "t < length (g ! b)"
    "m ! b ! t = Fin 0" "finite_frame (p ! b ! t)" "float32_frame (g ! b ! t)"
  shows "composite_spec p g m ! b ! t = g ! b ! t"
proof -
  have "map2 (\<lambda>pv gv. fadd (fmul pv (Fin 0)) (fmul gv (fsub (Fin 1) (Fin 0))))
          (p ! b ! t) (g ! b ! t) = g ! b ! t"
  proof (rule map2_second)
    show "length (p ! b ! t) = length (g ! b ! t)" by (rule frame_length[OF assms(2,3,4)])
  next
    fix x y assume "(x, y) \<in> set (zip (p ! b ! t) (g ! b ! t))"
    then have "x \<in> set (p ! b ! t)" "y \<in> set (g ! b ! t)"
      by (auto dest: set_zip_leftD set_zip_rightD)
    then have "is_fin x" "is_float32 y"
      using assms(6,7) by (auto dest: finite_frame_elem float32_frame_elem)
    then show "fadd (fmul x (Fin 0)) (fmul y (fsub (Fin 1) (Fin 0))) = y" by (rule blend_zero)
  qed
  then show ?thesis using assms(1-5) by (simp add: composite_spec_frame)
qed

lemma composite_spec_inside:
  assumes "mask_shape m g" "same_shape3 p g" "b < length g" "t < length (g ! b)"
    "m ! b ! t = Fin 1" "float32_frame (p ! b ! t)" "finite_frame (g ! b ! t)"
  shows "composite_spec p g m ! b ! t = p ! b ! t"
proof -
  have "map2 (\<lambda>pv gv. fadd (fmul pv (Fin 1)) (fmul gv (fsub (Fin 1) (Fin 1))))
          (p ! b ! t) (g ! b ! t) = p ! b ! t"
  proof (rule map2_first)
    show "length (p ! b ! t) = length (g ! b ! t)" by (rule frame_length[OF assms(2,3,4)])
  next
    fix x y assume "(x, y) \<in> set (zip (p ! b ! t) (g ! b ! t))"
    then have "x \<in> set (p ! b ! t)" "y \<in> set (g ! b ! t)"
      by (auto dest: set_zip_leftD set_zip_rightD)
    then have "is_float32 x" "is_fin y"
      using assms(6,7) by (auto dest: finite_frame_elem float32_frame_elem)
    then show "fadd (fmul x (Fin 1)) (fmul y (fsub (Fin 1) (Fin 1))) = x" by (rule blend_one)
  qed
  then show ?thesis using assms(1-5) by (simp add: composite_spec_frame)
qed

lemma composite_spec_nan:
  assumes "mask_shape m g" "same_shape3 p g" "b < length g" "t < length (g ! b)"
    "c < length (g ! b ! t)" "p ! b ! t ! c = NaN"
  shows "composite_spec p g m ! b ! t ! c = NaN"
  using assms by (simp add: composite_spec_nth nan_blend)

section \<open>run_model on a batch of matching shapes\<close>

lemma run_model_infer_eq:
  assumes "mask_shape (time_mel_masks s) (mels s)"
    "mel_out (infer_output C s) = Some pred" "same_shape3 pred (mels s)"
  shows "run_model C s True st =
     (Inr (InferResult ((infer_output C s)
        \<lparr>mel_out := Some (composite_spec pred (mels s) (time_mel_masks s))\<rparr>)),
      called (model_call s (unsqueeze_last (time_mel_masks s)) True None) st)"
  using assms(2) composite_eq[OF assms(1) assms(3)]
  by (simp add: run_model_def Let_def infer_output_def called_def get_key_def bind_err_def)

lemma run_model_train_eq:
  assumes "mask_shape (time_mel_masks s) (mels s)"
    "mel_out_decoder (train_output C s st) = Some dec" "same_shape3 dec (mels s)"
    "mel_out_postnet (train_output C s st) = Some post" "same_shape3 post (mels s)"
  shows "run_model C s False st =
     (bind_err (add_mel_loss C (masked dec (time_mel_masks s))
                 (masked (mels s) (time_mel_masks s)) [] ''_decoder'') (\<lambda>losses1.
      bind_err (add_mel_loss C (masked post (time_mel_masks s))
                 (masked (mels s) (time_mel_masks s)) losses1 ''_postnet'') (\<lambda>losses2.
      Inr (TrainResult losses2 ((train_output C s st)
        \<lparr>mel_out := Some (composite_spec post (mels s) (time_mel_masks s))\<rparr>)))),
      called (model_call s (unsqueeze_last (time_mel_masks s)) False (Some (global_step st))) st)"
proof -
  note e = tmul_mask[OF mask_shape_trans[OF assms(1,3)]] tmul_mask[OF mask_shape_trans[OF assms(1,5)]]
    tmul_mask[OF assms(1)]
  show ?thesis
    using assms(2,4) composite_eq[OF assms(1) assms(5)] e
    by (simp add: run_model_def Let_def train_output_def called_def get_key_def bind_err_def
        split: sum.splits)
qed

lemma run_model_train_mel_out:
  assumes "mask_shape (time_mel_masks s) (mels s)"
    "mel_out_postnet (train_output C s st) = Some post" "same_shape3 post (mels s)"
    "run_model C s False st = (Inr (TrainResult l out), st')"
  shows "mel_out out = Some (composite_spec post (mels s) (time_mel_masks s))"
  using assms(2,4) composite_eq[OF assms(1) assms(3)]
  by (auto simp: run_model_def Let_def train_output_def get_key_def bind_err_def
      split: sum.splits option.splits)

lemma run_model_False_not_infer: "fst (run_model C s False st) \<noteq> Inr (InferResult out)"
  by (auto simp: run_model_def Let_def bind_err_def split: sum.splits)

lemma run_model_True_not_train: "fst (run_model C s True st) \<noteq> Inr (TrainResult l out)"
  by (auto simp: run_model_def Let_def bind_err_def split: sum.splits)

section \<open>The scenario of the spec, and a prediction with a nan\<close>

lemma demo_shapes:
  "mask_shape (time_mel_masks demo_sample) (mels demo_sample)"
  "same_shape3 nines (mels demo_sample)"
  "same_shape3 nan_first (mels demo_sample)"
  by (simp_all add: demo_sample_def nines_def nan_first_def mask_shape_def same_shape3_def)

lemma demo_outputs:
  "mel_out (infer_output demo_collab demo_sample) = Some nines"
  "mel_out_decoder (train_output demo_collab demo_sample st) = Some nines"
  "mel_out_postnet (train_output demo_collab demo_sample st) = Some nines"
  by (simp_all add: infer_output_def train_output_def demo_collab_def demo_model_def
      model_call_def)

lemma blend_values:
  "fadd (fmul (Fin 9) (Fin 0)) (fmul (Fin 1) (fsub (Fin 1) (Fin 0))) = Fin 1"
  "fadd (fmul (Fin 9) (Fin 1)) (fmul (Fin 1) (fsub (Fin 1) (Fin 1))) = Fin 9"
  "fadd (fmul NaN (Fin 0)) (fmul (Fin 1) (fsub (Fin 1) (Fin 0))) = NaN"
  by (simp_all add: blend_zero blend_one nan_blend)

lemma demo_composite:
  "composite_spec nines (mels demo_sample) (time_mel_masks demo_sample)
     = [[[Fin 1], [Fin 1], [Fin 9], [Fin 9]]]"
  by (simp add: composite_spec_def nines_def demo_sample_def blend_values)

lemma nan_composite:
  "composite_spec nan_first (mels demo_sample) (time_mel_masks demo_sample)
     = [[[NaN], [Fin 1], [Fin 9], [Fin 9]]]"
  by (simp add: composite_spec_def nan_first_def demo_sample_def blend_values)

text \<open>
  Claim C1. On a batch whose mask has one value for each mel frame, and for a model
  output of the shape of the ground truth, the tensor that \<open>run_model\<close> stores under
  \<^verbatim>\<open>'mel_out'\<close> is \<open>predicted * mask + ground_truth * (1 - mask)\<close>, element by
  element in float arithmetic, with the mask value of a frame used for all its
  channels. This holds in training mode (the prediction is the postnet output; the
  step returns when the loss of the base class does) and in inference mode (the step
  returns). A frame whose mask value is 0 is the frame of the ground truth when the
  prediction is finite there, and a frame whose mask value is 1 is the frame of the
  prediction when the ground truth is finite there. An element whose prediction is
  nan is nan, whatever the mask.
\<close>

theorem run_model_composited:
  assumes "mask_shape (time_mel_masks s) (mels s)"
  shows
    "(\<forall>post l out st'.
        mel_out_postnet (train_output C s st) = Some post \<and> same_shape3 post (mels s)
        \<and> run_model C s False st = (Inr (TrainResult l out), st')
        \<longrightarrow> mel_out out = Some (composite_spec post (mels s) (time_mel_masks s)))
     \<and> (\<forall>dec post.
        mel_out_decoder (train_output C s st) = Some dec \<and> same_shape3 dec (mels s)
        \<and> mel_out_postnet (train_output C s st) = Some post \<and> same_shape3 post (mels s)
        \<and> (\<forall>a b l p. \<exists>l'. add_mel_loss C a b l p = Inr l')
        \<longrightarrow> (\<exists>l out st'. run_model C s False st = (Inr (TrainResult l out), st')))
     \<and> (\<forall>pred.
        mel_out (infer_output C s) = Some pred \<and> same_shape3 pred (mels s)
        \<longrightarrow> (\<exists>out st'. run_model C s True st = (Inr (InferResult out), st')
              \<and> mel_out out = Some (composite_spec pred (mels s) (time_mel_masks s))))
     \<and> (\<forall>p b t.
        same_shape3 p (mels s) \<and> b < length (mels s) \<and> t < length (mels s ! b)
        \<longrightarrow> (\<forall>c < length (mels s ! b ! t).
               composite_spec p (mels s) (time_mel_masks s) ! b ! t ! c
               = fadd (fmul (p ! b ! t ! c) (time_mel_masks s ! b ! t))
                   (fmul (mels s ! b ! t ! c) (fsub (Fin 1) (time_mel_masks s ! b ! t)))
               \<and> (p ! b ! t ! c = NaN
                  \<longrightarrow> composite_spec p (mels s) (time_mel_masks s) ! b ! t ! c = NaN))
            \<and> (time_mel_masks s ! b ! t = Fin 0 \<and> finite_frame (p ! b ! t)
                 \<and> float32_frame (mels s ! b ! t)
               \<longrightarrow> composite_spec p (mels s) (time_mel_masks s) ! b ! t = mels s ! b ! t)
            \<and> (time_mel_masks s ! b ! t = Fin 1 \<and> float32_frame (p ! b ! t)
                 \<and> finite_frame (mels s ! b ! t)
               \<longrightarrow> composite_spec p (mels s) (time_mel_masks s) ! b ! t = p ! b ! t))"
proof (intro conjI allI impI)
  fix post l out st'
  assume "mel_out_postnet (train_output C s st) = Some post \<and> same_shape3 post (mels s)
        \<and> run_model C s False st = (Inr (TrainResult l out), st')"
  then show "mel_out out = Some (composite_spec post (mels s) (time_mel_masks s))"
    using run_model_train_mel_out[OF assms] by blast
next
  fix dec post
  assume h: "mel_out_decoder (train_output C s st) = Some dec \<and> same_shape3 dec (mels s)
        \<and> mel_out_postnet (train_output C s st) = Some post \<and> same_shape3 post (mels s)
        \<and> (\<forall>a b l p. \<exists>l'. add_mel_loss C a b l p = Inr l')"
  then obtain l1 where l1: "add_mel_loss C (masked dec (time_mel_masks s))
      (masked (mels s) (time_mel_masks s)) [] ''_decoder'' = Inr l1"
    by blast
  from h obtain l2 where l2: "add_mel_loss C (masked post (time_mel_masks s))
      (masked (mels s) (time_mel_masks s)) l1 ''_postnet'' = Inr l2"
    by blast
  from h have "run_model C s False st =
      (Inr (TrainResult l2 ((train_output C s st)
        \<lparr>mel_out := Some (composite_spec post (mels s) (time_mel_masks s))\<rparr>)),
      called (model_call s (unsqueeze_last (time_mel_masks s)) False (Some (global_step st))) st)"
    by (simp add: run_model_train_eq[OF assms, of C st dec post] l1 l2 bind_err_def)
  then show "\<exists>l out st'. run_model C s False st = (Inr (TrainResult l out), st')"
    by blast
next
  fix pred
  assume "mel_out (infer_output C s) = Some pred \<and> same_shape3 pred (mels s)"
  then show "\<exists>out st'. run_model C s True st = (Inr (InferResult out), st')
      \<and> mel_out out = Some (composite_spec pred (mels s) (time_mel_masks s))"
    by (simp add: run_model_infer_eq[OF assms])
next
  fix p b t c
  assume "same_shape3 p (mels s) \<and> b < length (mels s) \<and> t < length (mels s ! b)"
    and "c < length (mels s ! b ! t)"
  then show "composite_spec p (mels s) (time_mel_masks s) ! b ! t ! c
       = fadd (fmul (p ! b ! t ! c) (time_mel_masks s ! b ! t))
           (fmul (mels s ! b ! t ! c) (fsub (Fin 1) (time_mel_masks s ! b ! t)))"
    by (simp add: composite_spec_nth[OF assms])
next
  fix p b t c
  assume "same_shape3 p (mels s) \<and> b < length (mels s) \<and> t < length (mels s ! b)"
    and "c < length (mels s ! b ! t)" and "p ! b ! t ! c = NaN"
  then show "composite_spec p (mels s) (time_mel_masks s) ! b ! t ! c = NaN"
    by (simp add: composite_spec_nan[OF assms])
next
  fix p b t
  assume "same_shape3 p (mels s) \<and> b < length (mels s) \<and> t < length (mels s ! b)"
    and "time_mel_masks s ! b ! t = Fin 0 \<and> finite_frame (p ! b ! t)
         \<and> float32_frame (mels s ! b ! t)"
  then show "composite_spec p (mels s) (time_mel_masks s) ! b ! t = mels s ! b ! t"
    by (simp add: composite_spec_outside[OF assms])
next
  fix p b t
  assume "same_shape3 p (mels s) \<and> b < length (mels s) \<and> t < length (mels s ! b)"
    and "time_mel_masks s ! b ! t = Fin 1 \<and> float32_frame (p ! b ! t)
         \<and> finite_frame (mels s ! b ! t)"
  then show "composite_spec p (mels s) (time_mel_masks s) ! b ! t = p ! b ! t"
    by (simp add: composite_spec_inside[OF assms])
qed

theorem run_model_composited_witness:
  "mask_shape (time_mel_masks demo_sample) (mels demo_sample)
   \<and> (\<exists>out st'. run_model demo_collab demo_sample True demo_task = (Inr (InferResult out), st')
        \<and> mel_out out = Some [[[Fin 1], [Fin 1], [Fin 9], [Fin 9]]])
   \<and> (\<exists>l out st'. run_model demo_collab demo_sample False demo_task
          = (Inr (TrainResult l out), st')
        \<and> mel_out out = Some [[[Fin 1], [Fin 1], [Fin 9], [Fin 9]]])"
proof -
  note t = run_model_composited[OF demo_shapes(1), of demo_collab demo_task]
  have loss: "\<forall>a b l p. \<exists>l'. add_mel_loss demo_collab a b l p = Inr l'"
    by (simp add: demo_collab_def add_mel_loss_spec_def)
  from t have "\<exists>out st'. run_model demo_collab demo_sample True demo_task
        = (Inr (InferResult out), st')
      \<and> mel_out out = Some (composite_spec nines (mels demo_sample) (time_mel_masks demo_sample))"
    using demo_outputs(1) demo_shapes(2) by blast
  moreover from t have "\<exists>l out st'. run_model demo_collab demo_sample False demo_task
        = (Inr (TrainResult l out), st')"
    using demo_outputs(2,3) demo_shapes(2) loss by blast
  moreover from t have "\<And>l out st'. run_model demo_collab demo_sample False demo_task
        = (Inr (TrainResult l out), st')
      \<Longrightarrow> mel_out out = Some (composite_spec nines (mels demo_sample) (time_mel_masks demo_sample))"
    using demo_outputs(3) demo_shapes(2) by blast
  ultimately show ?thesis
    using demo_shapes(1) by (auto simp: demo_composite)
qed

text \<open>
  The prediction of \<open>nan_model\<close> is nan in the first frame, where the mask is 0 and
  the ground truth is 1: the composited frame is nan, not the ground truth.
\<close>

theorem run_model_nan_counterexample:
  "fst (run_model nan_collab demo_sample True demo_task)
     = Inr (InferResult \<lparr>mel_out_decoder = None, mel_out_postnet = None,
              mel_out = Some [[[NaN], [Fin 1], [Fin 9], [Fin 9]]], attn = None\<rparr>)
   \<and> time_mel_masks demo_sample ! 0 ! 0 = Fin 0 \<and> mels demo_sample ! 0 ! 0 = [Fin 1]"
proof -
  have out: "infer_output nan_collab demo_sample
      = \<lparr>mel_out_decoder = None, mel_out_postnet = None, mel_out = Some nan_first, attn = None\<rparr>"
    by (simp add: infer_output_def nan_collab_def nan_model_def model_call_def)
  have "fst (run_model nan_collab demo_sample True demo_task)
     = Inr (InferResult ((infer_output nan_collab demo_sample)
        \<lparr>mel_out := Some (composite_spec nan_first (mels demo_sample)
            (time_mel_masks demo_sample))\<rparr>))"
    by (subst run_model_infer_eq[OF demo_shapes(1) _ demo_shapes(3)]) (simp_all add: out)
  then show ?thesis
    by (simp add: out nan_composite) (simp add: demo_sample_def)
qed


section \<open>Laws of the compositing rule\<close>

lemma tmap_shape: "same_shape3 p g \<Longrightarrow> same_shape3 (tmap h p) (tmap h' g)"
  by (simp add: same_shape3_def tmap_def list_all2_conv_all_nth)

lemma mask_shape_tmap: "mask_shape m g \<Longrightarrow> mask_shape m (tmap h g)"
  by (simp add: mask_shape_def tmap_def list_all2_conv_all_nth)

lemma tensor3_eqI:
  assumes "same_shape3 x y"
    "\<And>b t. b < length y \<Longrightarrow> t < length (y ! b) \<Longrightarrow> x ! b ! t = y ! b ! t"
  shows "x = y"
proof (rule nth_equalityI)
  show len: "length x = length y"
    using assms(1) by (simp add: same_shape3_def list_all2_conv_all_nth)
  fix b assume b: "b < length x"
  then have l2: "length (x ! b) = length (y ! b)"
    using assms(1) by (simp add: same_shape3_def list_all2_conv_all_nth)
  show "x ! b = y ! b"
    by (rule nth_equalityI) (use l2 b len assms(2) in auto)
qed

lemma composite_spec_shape:
  "mask_shape m g \<Longrightarrow> same_shape3 p g \<Longrightarrow> same_shape3 (composite_spec p g m) g"
  by (simp add: composite_spec_def mask_shape_def same_shape3_def list_all2_conv_all_nth)

lemma select_frames_shape:
  "mask_shape m g \<Longrightarrow> same_shape3 p g \<Longrightarrow> same_shape3 (select_frames p g m) g"
  by (simp add: select_frames_def mask_shape_def same_shape3_def list_all2_conv_all_nth)

lemma select_frames_frame:
  "mask_shape m g \<Longrightarrow> same_shape3 p g \<Longrightarrow> b < length g \<Longrightarrow> t < length (g ! b)
    \<Longrightarrow> select_frames p g m ! b ! t = (if m ! b ! t = Fin 1 then p ! b ! t else g ! b ! t)"
  by (simp add: select_frames_def mask_shape_def same_shape3_def list_all2_conv_all_nth)

lemma const_mask_nth:
  "const_mask c m \<Longrightarrow> b < length m \<Longrightarrow> t < length (m ! b) \<Longrightarrow> m ! b ! t = c"
  by (simp add: const_mask_def list_all_length)

lemma binary_mask_nth:
  "binary_mask m \<Longrightarrow> b < length m \<Longrightarrow> t < length (m ! b)
    \<Longrightarrow> m ! b ! t = Fin 0 \<or> m ! b ! t = Fin 1"
  by (simp add: binary_mask_def list_all_length)

lemma mask_row_length:
  "mask_shape m g \<Longrightarrow> b < length g \<Longrightarrow> length (m ! b) = length (g ! b)"
  "mask_shape m g \<Longrightarrow> length m = length g"
  by (simp_all add: mask_shape_def list_all2_conv_all_nth)

lemma same_shape3_sym: "same_shape3 p g \<Longrightarrow> same_shape3 g p"
  by (simp add: same_shape3_def list_all2_conv_all_nth)

lemma same_shape3_trans: "same_shape3 x y \<Longrightarrow> same_shape3 y z \<Longrightarrow> same_shape3 x z"
  by (simp add: same_shape3_def list_all2_conv_all_nth)

lemma same_shape3_lengths:
  "same_shape3 p g \<Longrightarrow> length p = length g"
  "same_shape3 p g \<Longrightarrow> b < length g \<Longrightarrow> length (p ! b) = length (g ! b)"
  by (simp_all add: same_shape3_def list_all2_conv_all_nth)

lemma finite_tensor_frame:
  "finite_tensor x \<Longrightarrow> b < length x \<Longrightarrow> t < length (x ! b) \<Longrightarrow> finite_frame (x ! b ! t)"
  by (simp add: finite_tensor_def list_all_length)

lemma float32_tensor_frame:
  "float32_tensor x \<Longrightarrow> b < length x \<Longrightarrow> t < length (x ! b) \<Longrightarrow> float32_frame (x ! b ! t)"
  by (simp add: float32_tensor_def list_all_length)

lemma composite_spec_zero:
  assumes "mask_shape m g" "same_shape3 p g" "const_mask (Fin 0) m"
    "finite_tensor p" "float32_tensor g"
  shows "composite_spec p g m = g"
proof (rule tensor3_eqI)
  show "same_shape3 (composite_spec p g m) g" using assms by (simp add: composite_spec_shape)
  fix b t assume bt: "b < length g" "t < length (g ! b)"
  with assms have m0: "m ! b ! t = Fin 0"
    by (intro const_mask_nth) (simp_all add: mask_row_length)
  have "finite_frame (p ! b ! t)" "float32_frame (g ! b ! t)"
    using assms(2,4,5) bt
    by (simp_all add: finite_tensor_frame float32_tensor_frame same_shape3_lengths)
  with assms(1,2) bt m0 show "composite_spec p g m ! b ! t = g ! b ! t"
    by (simp add: composite_spec_outside)
qed

lemma composite_spec_one:
  assumes "mask_shape m g" "same_shape3 p g" "const_mask (Fin 1) m"
    "float32_tensor p" "finite_tensor g"
  shows "composite_spec p g m = p"
proof (rule tensor3_eqI)
  show "same_shape3 (composite_spec p g m) p"
    using assms by (blast intro: same_shape3_trans composite_spec_shape same_shape3_sym)
  fix b t assume bt: "b < length p" "t < length (p ! b)"
  with assms(2) have bt': "b < length g" "t < length (g ! b)"
    by (simp_all add: same_shape3_lengths)
  with assms have m1: "m ! b ! t = Fin 1"
    by (intro const_mask_nth) (simp_all add: mask_row_length)
  have "float32_frame (p ! b ! t)" "finite_frame (g ! b ! t)"
    using assms(4,5) bt bt' by (simp_all add: finite_tensor_frame float32_tensor_frame)
  with assms(1,2) bt' m1 show "composite_spec p g m ! b ! t = p ! b ! t"
    by (simp add: composite_spec_inside)
qed

lemma composite_spec_binary:
  assumes "mask_shape m g" "same_shape3 p g" "binary_mask m"
    "finite_tensor p" "finite_tensor g"
  shows "composite_spec p g m = select_frames p g m"
proof (rule tensor3_eqI)
  show "same_shape3 (composite_spec p g m) (select_frames p g m)"
    using assms
    by (blast intro: same_shape3_trans composite_spec_shape select_frames_shape same_shape3_sym)
  have sl: "length (select_frames p g m) = length g"
    "\<And>b. b < length g \<Longrightarrow> length (select_frames p g m ! b) = length (g ! b)"
    using select_frames_shape[OF assms(1,2)] by (simp_all add: same_shape3_lengths)
  fix b t assume "b < length (select_frames p g m)" "t < length (select_frames p g m ! b)"
  with sl have bt: "b < length g" "t < length (g ! b)" by simp_all
  have fp: "finite_frame (p ! b ! t)" and fg: "finite_frame (g ! b ! t)"
    using assms(2,4,5) bt by (simp_all add: finite_tensor_frame same_shape3_lengths)
  have "m ! b ! t = Fin 0 \<or> m ! b ! t = Fin 1"
    using assms(1,3) bt by (intro binary_mask_nth) (simp_all add: mask_row_length)
  then show "composite_spec p g m ! b ! t = select_frames p g m ! b ! t"
  proof
    assume m0: "m ! b ! t = Fin 0"
    then show ?thesis
      using assms(1,2) bt fp fg
      by (simp add: composite_spec_outside select_frames_frame finite_frame_float32)
  next
    assume m1: "m ! b ! t = Fin 1"
    then show ?thesis
      using assms(1,2) bt fp fg
      by (simp add: composite_spec_inside select_frames_frame finite_frame_float32)
  qed
qed

lemma select_frames_tmap:
  assumes "mask_shape m g" "same_shape3 p g"
  shows "select_frames (tmap h p) (tmap h g) m = tmap h (select_frames p g m)"
  using assms
  by (auto simp: select_frames_def tmap_def mask_shape_def same_shape3_def
      list_all2_conv_all_nth intro!: nth_equalityI)

lemma composite_formula:
  assumes "mask_shape m g" "same_shape3 p g"
  shows "\<exists>x. composite p g (unsqueeze_last m) = Inr x \<and> same_shape3 x g
     \<and> (\<forall>b t c. b < length g \<and> t < length (g ! b) \<and> c < length (g ! b ! t)
          \<longrightarrow> x ! b ! t ! c
              = fadd (fmul (p ! b ! t ! c) (m ! b ! t))
                  (fmul (g ! b ! t ! c) (fsub (Fin 1) (m ! b ! t))))"
  using assms by (simp add: composite_eq composite_spec_shape composite_spec_nth)

lemma composite_binary_shift:
  assumes "mask_shape m g" "same_shape3 p g" "binary_mask m"
    "finite_tensor (add_const c p)" "finite_tensor (add_const c g)"
  shows "composite (add_const c p) (add_const c g) (unsqueeze_last m)
     = Inr (add_const c (select_frames p g m))"
proof -
  have sh: "mask_shape m (add_const c g)" "same_shape3 (add_const c p) (add_const c g)"
    using assms(1,2) by (simp_all add: add_const_def mask_shape_tmap tmap_shape)
  have "composite (add_const c p) (add_const c g) (unsqueeze_last m)
      = Inr (select_frames (add_const c p) (add_const c g) m)"
    by (simp add: composite_eq[OF sh] composite_spec_binary[OF sh assms(3,4,5)])
  then show ?thesis
    by (simp add: add_const_def select_frames_tmap[OF assms(1,2)])
qed

section \<open>Rounding in a composite with a fractional mask\<close>

lemma round_half_even_numeral:
  "round_half_even x = (if x - of_int \<lfloor>x\<rfloor> < 1 / 2 then \<lfloor>x\<rfloor>
     else if 1 / 2 < x - of_int \<lfloor>x\<rfloor> then \<lfloor>x\<rfloor> + 1 else if even \<lfloor>x\<rfloor> then \<lfloor>x\<rfloor> else \<lfloor>x\<rfloor> + 1)"
  by (simp add: round_half_even_def Let_def)

lemma shifted_nine: "fadd (Fin 9) tenth = Fin (4771021 / 524288)"
  using round32_scaled[of "9 + 13421773 / 134217728" 20]
  by (simp add: fadd_def tenth_def round_half_even_numeral)

lemma shifted_one: "fadd (Fin 1) tenth = Fin (9227469 / 8388608)"
  using round32_scaled[of "1 + 13421773 / 134217728" 23]
  by (simp add: fadd_def tenth_def round_half_even_numeral)

lemma one_minus_three_tenths: "fsub (Fin 1) three_tenths = Fin (11744051 / 16777216)"
  using round32_scaled[of "1 + - (5033165 / 16777216)" 24]
  by (simp add: fadd_def fsub_def fneg_def three_tenths_def round_half_even_numeral)

lemma shifted_nine_masked: "fmul (Fin (4771021 / 524288)) three_tenths = Fin (11450451 / 4194304)"
  using round32_scaled[of "4771021 / 524288 * (5033165 / 16777216)" 22]
  by (simp add: fmul_def three_tenths_def round_half_even_numeral)

lemma shifted_one_masked:
  "fmul (Fin (9227469 / 8388608)) (Fin (11744051 / 16777216)) = Fin (1614807 / 2097152)"
  using round32_scaled[of "9227469 / 8388608 * (11744051 / 16777216)" 24]
  by (simp add: fmul_def round_half_even_numeral)

lemma shifted_sum:
  "fadd (Fin (11450451 / 4194304)) (Fin (1614807 / 2097152)) = Fin (14680065 / 4194304)"
  using round32_scaled[of "11450451 / 4194304 + 1614807 / 2097152" 22]
  by (simp add: fadd_def round_half_even_numeral)

lemma nine_masked: "fmul (Fin 9) three_tenths = Fin (11324621 / 4194304)"
  using round32_scaled[of "9 * (5033165 / 16777216)" 22]
  by (simp add: fmul_def three_tenths_def round_half_even_numeral)

lemma one_masked: "fmul (Fin 1) (Fin (11744051 / 16777216)) = Fin (11744051 / 16777216)"
  using round32_scaled[of "11744051 / 16777216" 24]
  by (simp add: fmul_def round_half_even_numeral)

lemma plain_sum:
  "fadd (Fin (11324621 / 4194304)) (Fin (11744051 / 16777216)) = Fin (7130317 / 2097152)"
  using round32_scaled[of "11324621 / 4194304 + 11744051 / 16777216" 22]
  by (simp add: fadd_def round_half_even_numeral)

lemma plain_sum_shifted: "fadd (Fin (7130317 / 2097152)) tenth = Fin (7 / 2)"
  using round32_scaled[of "7130317 / 2097152 + 13421773 / 134217728" 22]
  by (simp add: fadd_def tenth_def round_half_even_numeral)

lemma one_frame_shapes:
  "mask_shape [[m]] [[[g]]]" "same_shape3 [[[p]]] [[[g]]]"
  by (simp_all add: mask_shape_def same_shape3_def)

lemma composite_one_frame:
  "composite [[[p]]] [[[g]]] (unsqueeze_last [[m]])
     = Inr [[[fadd (fmul p m) (fmul g (fsub (Fin 1) m))]]]"
  by (simp add: composite_eq[OF one_frame_shapes] composite_spec_def)

text \<open>
  Claim C5. The laws of the compositing rule of lines 73 and 88, on tensors of one
  shape. Every element of the result is
  \<open>predicted * mask + ground_truth * (1 - mask)\<close> in float arithmetic. With a mask
  that is 0 everywhere and a finite prediction the result is the ground truth; with a
  mask that is 1 everywhere and a finite ground truth it is the prediction. With a
  mask of zeros and ones and finite tensors the result takes each frame from the
  prediction or from the ground truth, so that adding a constant to both (with finite
  sums) adds it to the result.
\<close>

theorem composite_laws:
  assumes "mask_shape m g" and "same_shape3 p g"
  shows "(\<exists>x. composite p g (unsqueeze_last m) = Inr x \<and> same_shape3 x g
          \<and> (\<forall>b t c. b < length g \<and> t < length (g ! b) \<and> c < length (g ! b ! t)
               \<longrightarrow> x ! b ! t ! c
                   = fadd (fmul (p ! b ! t ! c) (m ! b ! t))
                       (fmul (g ! b ! t ! c) (fsub (Fin 1) (m ! b ! t)))))
     \<and> (const_mask (Fin 0) m \<and> finite_tensor p \<and> float32_tensor g
          \<longrightarrow> composite p g (unsqueeze_last m) = Inr g)
     \<and> (const_mask (Fin 1) m \<and> float32_tensor p \<and> finite_tensor g
          \<longrightarrow> composite p g (unsqueeze_last m) = Inr p)
     \<and> (binary_mask m \<and> finite_tensor p \<and> finite_tensor g
          \<longrightarrow> composite p g (unsqueeze_last m) = Inr (select_frames p g m)
            \<and> (finite_tensor (add_const c p) \<and> finite_tensor (add_const c g)
                 \<longrightarrow> composite (add_const c p) (add_const c g) (unsqueeze_last m)
                     = Inr (add_const c (select_frames p g m))))"
proof (intro conjI impI)
  show "\<exists>x. composite p g (unsqueeze_last m) = Inr x \<and> same_shape3 x g
          \<and> (\<forall>b t c. b < length g \<and> t < length (g ! b) \<and> c < length (g ! b ! t)
               \<longrightarrow> x ! b ! t ! c
                   = fadd (fmul (p ! b ! t ! c) (m ! b ! t))
                       (fmul (g ! b ! t ! c) (fsub (Fin 1) (m ! b ! t))))"
    by (rule composite_formula[OF assms])
next
  assume "const_mask (Fin 0) m \<and> finite_tensor p \<and> float32_tensor g"
  then show "composite p g (unsqueeze_last m) = Inr g"
    using assms by (simp add: composite_eq composite_spec_zero)
next
  assume "const_mask (Fin 1) m \<and> float32_tensor p \<and> finite_tensor g"
  then show "composite p g (unsqueeze_last m) = Inr p"
    using assms by (simp add: composite_eq composite_spec_one)
next
  assume "binary_mask m \<and> finite_tensor p \<and> finite_tensor g"
  then show "composite p g (unsqueeze_last m) = Inr (select_frames p g m)"
    using assms by (simp add: composite_eq composite_spec_binary)
next
  assume "binary_mask m \<and> finite_tensor p \<and> finite_tensor g"
    and "finite_tensor (add_const c p) \<and> finite_tensor (add_const c g)"
  then show "composite (add_const c p) (add_const c g) (unsqueeze_last m)
      = Inr (add_const c (select_frames p g m))"
    using assms by (simp add: composite_binary_shift)
qed

theorem composite_laws_witness:
  "mask_shape [[Fin 0, Fin 0, Fin 1, Fin 1]] (mels demo_sample)
   \<and> same_shape3 nines (mels demo_sample)
   \<and> binary_mask [[Fin 0, Fin 0, Fin 1, Fin 1]]
   \<and> finite_tensor nines \<and> finite_tensor (mels demo_sample)
   \<and> finite_tensor (add_const (Fin 2) nines) \<and> finite_tensor (add_const (Fin 2) (mels demo_sample))
   \<and> composite nines (mels demo_sample) (unsqueeze_last [[Fin 0, Fin 0, Fin 1, Fin 1]])
       = Inr [[[Fin 1], [Fin 1], [Fin 9], [Fin 9]]]
   \<and> composite (add_const (Fin 2) nines) (add_const (Fin 2) (mels demo_sample))
         (unsqueeze_last [[Fin 0, Fin 0, Fin 1, Fin 1]])
       = Inr [[[Fin 3], [Fin 3], [Fin 11], [Fin 11]]]
   \<and> const_mask (Fin 0) [[Fin 0, Fin 0, Fin 0, Fin 0]]
   \<and> composite nines (mels demo_sample) (unsqueeze_last [[Fin 0, Fin 0, Fin 0, Fin 0]])
       = Inr (mels demo_sample)
   \<and> const_mask (Fin 1) [[Fin 1, Fin 1, Fin 1, Fin 1]]
   \<and> composite nines (mels demo_sample) (unsqueeze_last [[Fin 1, Fin 1, Fin 1, Fin 1]])
       = Inr nines"
proof -
  have sh: "mask_shape [[Fin 0, Fin 0, Fin 1, Fin 1]] (mels demo_sample)"
    "mask_shape [[Fin 0, Fin 0, Fin 0, Fin 0]] (mels demo_sample)"
    "mask_shape [[Fin 1, Fin 1, Fin 1, Fin 1]] (mels demo_sample)"
    "same_shape3 nines (mels demo_sample)"
    by (simp_all add: mask_shape_def same_shape3_def nines_def demo_sample_def)
  have m: "binary_mask [[Fin 0, Fin 0, Fin 1, Fin 1]]"
    "const_mask (Fin 0) [[Fin 0, Fin 0, Fin 0, Fin 0]]"
    "const_mask (Fin 1) [[Fin 1, Fin 1, Fin 1, Fin 1]]"
    by (simp_all add: binary_mask_def const_mask_def)
  have sums: "add_const (Fin 2) nines = [[[Fin 11], [Fin 11], [Fin 11], [Fin 11]]]"
    "add_const (Fin 2) (mels demo_sample) = [[[Fin 3], [Fin 3], [Fin 3], [Fin 3]]]"
    by (simp_all add: add_const_def tmap_def nines_def demo_sample_def fadd_def)
  have fin: "finite_tensor nines" "finite_tensor (mels demo_sample)"
    "finite_tensor [[[Fin 11], [Fin 11], [Fin 11], [Fin 11]]]"
    "finite_tensor [[[Fin 3], [Fin 3], [Fin 3], [Fin 3]]]"
    by (simp_all add: finite_tensor_def finite_frame_def nines_def demo_sample_def)
  have f32: "float32_tensor nines" "float32_tensor (mels demo_sample)"
    by (simp_all add: float32_tensor_def float32_frame_def nines_def demo_sample_def)
  have sel: "select_frames nines (mels demo_sample) [[Fin 0, Fin 0, Fin 1, Fin 1]]
      = [[[Fin 1], [Fin 1], [Fin 9], [Fin 9]]]"
    by (simp add: select_frames_def nines_def demo_sample_def)
  have shifted: "add_const (Fin 2) [[[Fin 1], [Fin 1], [Fin 9], [Fin 9]]]
      = [[[Fin 3], [Fin 3], [Fin 11], [Fin 11]]]"
    by (simp add: add_const_def tmap_def fadd_def)
  show ?thesis
    using composite_laws[OF sh(1,4), of "Fin 2"] composite_laws[OF sh(2,4), of "Fin 2"]
      composite_laws[OF sh(3,4), of "Fin 2"] sh m fin f32
    by (simp add: sums sel shifted)
qed

text \<open>
  A prediction that is nan under a mask that is 0 gives nan, not the ground truth. And
  with the mask 0.3, the prediction 9, the ground truth 1 and the constant 0.1 (each the
  nearest float), the composite of the shifted tensors is \<open>14680065 / 4194304\<close>, the
  float after 3.5, while the shifted composite is 3.5.
\<close>

theorem composite_laws_counterexample:
  "const_mask (Fin 0) [[Fin 0]]
   \<and> composite [[[NaN]]] [[[Fin 1]]] (unsqueeze_last [[Fin 0]]) = Inr [[[NaN]]]
   \<and> composite (add_const tenth [[[Fin 9]]]) (add_const tenth [[[Fin 1]]])
         (unsqueeze_last [[three_tenths]])
       = Inr [[[Fin (14680065 / 4194304)]]]
   \<and> composite [[[Fin 9]]] [[[Fin 1]]] (unsqueeze_last [[three_tenths]])
       = Inr [[[Fin (7130317 / 2097152)]]]
   \<and> add_const tenth [[[Fin (7130317 / 2097152)]]] = [[[Fin (7 / 2)]]]"
  by (simp add: composite_one_frame const_mask_def add_const_def tmap_def nan_blend
      shifted_nine shifted_one one_minus_three_tenths shifted_nine_masked shifted_one_masked
      shifted_sum nine_masked one_masked plain_sum plain_sum_shifted)


section \<open>The masked reconstruction loss\<close>

lemma masked_frame:
  assumes "mask_shape m x" "b < length x" "t < length (x ! b)"
  shows "masked x m ! b ! t = map (\<lambda>v. fmul v (m ! b ! t)) (x ! b ! t)"
  using assms
  by (simp add: masked_def scale_frames_def mask_shape_def list_all2_conv_all_nth)

lemma masked_shape: "mask_shape m x \<Longrightarrow> same_shape3 (masked x m) x"
  by (simp add: masked_def scale_frames_def mask_shape_def same_shape3_def
      list_all2_conv_all_nth)

lemma map_fmul_zero: "finite_frame f \<Longrightarrow> map (\<lambda>v. fmul v (Fin 0)) f = replicate (length f) (Fin 0)"
  by (induction f) (simp_all add: finite_frame_def fmul_zero)

lemma masked_frame_zero:
  assumes "mask_shape m x" "b < length x" "t < length (x ! b)" "m ! b ! t = Fin 0"
    "finite_frame (x ! b ! t)"
  shows "masked x m ! b ! t = replicate (length (x ! b ! t)) (Fin 0)"
  using assms by (simp add: masked_frame map_fmul_zero)

lemma masked_cong:
  assumes "mask_shape m g" "same_shape3 p g" "same_shape3 q g"
    "finite_tensor p" "finite_tensor q"
    "\<And>b t. b < length g \<Longrightarrow> t < length (g ! b) \<Longrightarrow> m ! b ! t \<noteq> Fin 0 \<Longrightarrow> q ! b ! t = p ! b ! t"
  shows "masked q m = masked p m"
proof (rule tensor3_eqI)
  have mp: "mask_shape m p" and mq: "mask_shape m q"
    using assms(1-3) by (blast intro: mask_shape_trans)+
  show "same_shape3 (masked q m) (masked p m)"
    using masked_shape[OF mp] masked_shape[OF mq] assms(2,3)
    by (blast intro: same_shape3_trans same_shape3_sym)
  fix b t assume "b < length (masked p m)" "t < length (masked p m ! b)"
  then have bt: "b < length g" "t < length (g ! b)"
    using masked_shape[OF mp] assms(2) by (simp_all add: same_shape3_lengths)
  then have btp: "b < length p" "t < length (p ! b)" and btq: "b < length q" "t < length (q ! b)"
    using assms(2,3) by (simp_all add: same_shape3_lengths)
  have fin: "finite_frame (p ! b ! t)" "finite_frame (q ! b ! t)"
    using assms(4,5) btp btq by (simp_all add: finite_tensor_frame)
  show "masked q m ! b ! t = masked p m ! b ! t"
  proof (cases "m ! b ! t = Fin 0")
    case True
    have "length (q ! b ! t) = length (p ! b ! t)"
      using frame_length[OF assms(2) bt] frame_length[OF assms(3) bt] by simp
    then show ?thesis
      using True fin
      by (simp add: masked_frame_zero[OF mp btp] masked_frame_zero[OF mq btq])
  next
    case False
    then show ?thesis
      using assms(6)[OF bt] by (simp add: masked_frame[OF mp btp] masked_frame[OF mq btq])
  qed
qed

lemma same_shape3_refl: "same_shape3 g g"
  by (simp add: same_shape3_def list_all2_conv_all_nth)

lemma masked_zero_mask:
  assumes "mask_shape m g" "same_shape3 p g" "const_mask (Fin 0) m"
    "finite_tensor p" "finite_tensor g"
  shows "masked p m = masked g m"
proof (rule masked_cong[OF assms(1) same_shape3_refl assms(2) assms(5) assms(4)])
  fix b t assume "b < length g" "t < length (g ! b)" "m ! b ! t \<noteq> Fin 0"
  with assms show "p ! b ! t = g ! b ! t"
    using const_mask_nth[OF assms(3), of b t] by (simp add: mask_row_length)
qed

lemma masked_zero_elems:
  assumes "mask_shape m g" "const_mask (Fin 0) m" "finite_tensor g"
  shows "\<forall>v \<in> set (flatten3 (masked g m)). v = Fin 0"
proof -
  have "v = Fin 0" if "v \<in> set f" "f \<in> set r" "r \<in> set (masked g m)" for v f r
  proof -
    from that(3) obtain b where b: "b < length (masked g m)" "masked g m ! b = r"
      by (auto simp: in_set_conv_nth)
    from that(2) b obtain t where t: "t < length (masked g m ! b)" "masked g m ! b ! t = f"
      by (auto simp: in_set_conv_nth)
    have b': "b < length g"
      using b masked_shape[OF assms(1)] by (simp add: same_shape3_lengths)
    have bt: "b < length g" "t < length (g ! b)"
      using b' t same_shape3_lengths(2)[OF masked_shape[OF assms(1)] b'] by simp_all
    have m0: "m ! b ! t = Fin 0"
      using assms(1,2) bt by (intro const_mask_nth) (simp_all add: mask_row_length)
    have "f = replicate (length (g ! b ! t)) (Fin 0)"
      using masked_frame_zero[OF assms(1) bt m0] assms(3) bt t(2)
      by (simp add: finite_tensor_frame)
    with that(1) show ?thesis by simp
  qed
  then show ?thesis by (auto simp: flatten3_def)
qed

lemma foldl_fadd_zeros: "\<forall>v \<in> set xs. v = Fin 0 \<Longrightarrow> foldl fadd (Fin 0) xs = Fin 0"
  by (induction xs) (simp_all add: fadd_def)

lemma abs_err_zeros:
  assumes "\<forall>v \<in> set (flatten3 x). v = Fin 0"
  shows "abs_err x x = Fin 0"
proof -
  have z: "fabs (fsub (Fin 0) (Fin 0)) = Fin 0"
    by (simp add: fsub_def fneg_def fadd_def fabs_def)
  have "v = Fin 0" if "v \<in> set (map2 (\<lambda>a b. fabs (fsub a b)) (flatten3 x) (flatten3 x))" for v
  proof -
    from that obtain a b where ab: "(a, b) \<in> set (zip (flatten3 x) (flatten3 x))"
      "v = fabs (fsub a b)"
      by auto
    then have "a = Fin 0" "b = Fin 0"
      using assms by (auto dest: set_zip_leftD set_zip_rightD)
    with ab(2) z show ?thesis by simp
  qed
  then have "\<forall>v \<in> set (map2 (\<lambda>a b. fabs (fsub a b)) (flatten3 x) (flatten3 x)). v = Fin 0"
    by blast
  then show ?thesis unfolding abs_err_def by (rule foldl_fadd_zeros)
qed

text \<open>
  Claim C2. With the loss of the base class modelled from the spec (the sum of the
  absolute errors), a training batch of matching shapes gives the loss record with
  the decoder loss of \<open>decoder * mask\<close> against \<open>ground_truth * mask\<close> and the
  postnet loss of \<open>postnet * mask\<close> against \<open>ground_truth * mask\<close>, the products
  taken in float arithmetic. A frame whose mask value is 0 is a frame of zeros in
  both arguments when the tensors are finite there, so the loss does not depend on
  the finite values that the model predicts there. With a mask that is 0 everywhere
  and finite tensors both arguments are the masked ground truth, and both losses are 0.
\<close>

theorem masked_loss_restriction:
  assumes "add_mel_loss C = add_mel_loss_spec"
    and "mask_shape (time_mel_masks s) (mels s)"
    and "mel_out_decoder (train_output C s st) = Some dec" and "same_shape3 dec (mels s)"
    and "mel_out_postnet (train_output C s st) = Some post" and "same_shape3 post (mels s)"
  shows
    "(\<exists>out st'. run_model C s False st =
        (Inr (TrainResult
           [(''mel_decoder'', Tensor (abs_err (masked dec (time_mel_masks s))
                                       (masked (mels s) (time_mel_masks s))) True),
            (''mel_postnet'', Tensor (abs_err (masked post (time_mel_masks s))
                                       (masked (mels s) (time_mel_masks s))) True)]
           out), st'))
     \<and> (\<forall>b t. b < length (mels s) \<and> t < length (mels s ! b)
          \<longrightarrow> masked dec (time_mel_masks s) ! b ! t
                = map (\<lambda>v. fmul v (time_mel_masks s ! b ! t)) (dec ! b ! t)
            \<and> masked post (time_mel_masks s) ! b ! t
                = map (\<lambda>v. fmul v (time_mel_masks s ! b ! t)) (post ! b ! t)
            \<and> masked (mels s) (time_mel_masks s) ! b ! t
                = map (\<lambda>v. fmul v (time_mel_masks s ! b ! t)) (mels s ! b ! t))
     \<and> (\<forall>b t. b < length (mels s) \<and> t < length (mels s ! b)
            \<and> time_mel_masks s ! b ! t = Fin 0
            \<and> finite_frame (dec ! b ! t) \<and> finite_frame (post ! b ! t)
            \<and> finite_frame (mels s ! b ! t)
          \<longrightarrow> masked dec (time_mel_masks s) ! b ! t
                = replicate (length (mels s ! b ! t)) (Fin 0)
            \<and> masked post (time_mel_masks s) ! b ! t
                = replicate (length (mels s ! b ! t)) (Fin 0)
            \<and> masked (mels s) (time_mel_masks s) ! b ! t
                = replicate (length (mels s ! b ! t)) (Fin 0))
     \<and> (\<forall>dec'. same_shape3 dec' (mels s) \<and> finite_tensor dec \<and> finite_tensor dec'
          \<and> (\<forall>b t. b < length (mels s) \<and> t < length (mels s ! b)
                \<and> time_mel_masks s ! b ! t \<noteq> Fin 0
                \<longrightarrow> dec' ! b ! t = dec ! b ! t)
          \<longrightarrow> abs_err (masked dec' (time_mel_masks s)) (masked (mels s) (time_mel_masks s))
              = abs_err (masked dec (time_mel_masks s)) (masked (mels s) (time_mel_masks s)))
     \<and> (const_mask (Fin 0) (time_mel_masks s)
          \<and> finite_tensor dec \<and> finite_tensor post \<and> finite_tensor (mels s)
          \<longrightarrow> masked dec (time_mel_masks s) = masked (mels s) (time_mel_masks s)
            \<and> masked post (time_mel_masks s) = masked (mels s) (time_mel_masks s)
            \<and> abs_err (masked (mels s) (time_mel_masks s)) (masked (mels s) (time_mel_masks s))
                = Fin 0
            \<and> (\<exists>out st'. run_model C s False st =
                 (Inr (TrainResult [(''mel_decoder'', Tensor (Fin 0) True),
                                    (''mel_postnet'', Tensor (Fin 0) True)] out), st')))"
proof -
  let ?m = "time_mel_masks s" and ?g = "mels s"
  note md = mask_shape_trans[OF assms(2,4)] and mp = mask_shape_trans[OF assms(2,6)]
  have run: "run_model C s False st =
        (Inr (TrainResult
           [(''mel_decoder'', Tensor (abs_err (masked dec ?m) (masked ?g ?m)) True),
            (''mel_postnet'', Tensor (abs_err (masked post ?m) (masked ?g ?m)) True)]
           ((train_output C s st)\<lparr>mel_out := Some (composite_spec post ?g ?m)\<rparr>)),
         called (model_call s (unsqueeze_last ?m) False (Some (global_step st))) st)"
    by (simp add: run_model_train_eq[OF assms(2-6)] assms(1) add_mel_loss_spec_def bind_err_def)
  have frames: "masked dec ?m ! b ! t = map (\<lambda>v. fmul v (?m ! b ! t)) (dec ! b ! t)
      \<and> masked post ?m ! b ! t = map (\<lambda>v. fmul v (?m ! b ! t)) (post ! b ! t)
      \<and> masked ?g ?m ! b ! t = map (\<lambda>v. fmul v (?m ! b ! t)) (?g ! b ! t)"
    if "b < length ?g \<and> t < length (?g ! b)" for b t
  proof -
    from that have bt: "b < length ?g" "t < length (?g ! b)" by simp_all
    have d: "b < length dec" "t < length (dec ! b)" "b < length post" "t < length (post ! b)"
      using bt assms(4,6) by (simp_all add: same_shape3_lengths)
    show ?thesis
      using masked_frame[OF md d(1,2)] masked_frame[OF mp d(3,4)] masked_frame[OF assms(2) bt]
      by simp
  qed
  have zero: "masked dec ?m ! b ! t = replicate (length (?g ! b ! t)) (Fin 0)
      \<and> masked post ?m ! b ! t = replicate (length (?g ! b ! t)) (Fin 0)
      \<and> masked ?g ?m ! b ! t = replicate (length (?g ! b ! t)) (Fin 0)"
    if "b < length ?g \<and> t < length (?g ! b) \<and> ?m ! b ! t = Fin 0
        \<and> finite_frame (dec ! b ! t) \<and> finite_frame (post ! b ! t) \<and> finite_frame (?g ! b ! t)"
    for b t
  proof -
    from that have bt: "b < length ?g" "t < length (?g ! b)" "?m ! b ! t = Fin 0"
      and fin: "finite_frame (dec ! b ! t)" "finite_frame (post ! b ! t)"
        "finite_frame (?g ! b ! t)"
      by simp_all
    have d: "b < length dec" "t < length (dec ! b)" "b < length post" "t < length (post ! b)"
      using bt assms(4,6) by (simp_all add: same_shape3_lengths)
    show ?thesis
      using masked_frame_zero[OF md d(1,2) bt(3) fin(1)]
        masked_frame_zero[OF mp d(3,4) bt(3) fin(2)]
        masked_frame_zero[OF assms(2) bt fin(3)] frame_length[OF assms(4) bt(1,2)]
        frame_length[OF assms(6) bt(1,2)]
      by simp
  qed
  have indep: "abs_err (masked dec' ?m) (masked ?g ?m) = abs_err (masked dec ?m) (masked ?g ?m)"
    if "same_shape3 dec' ?g \<and> finite_tensor dec \<and> finite_tensor dec'
        \<and> (\<forall>b t. b < length ?g \<and> t < length (?g ! b) \<and> ?m ! b ! t \<noteq> Fin 0
          \<longrightarrow> dec' ! b ! t = dec ! b ! t)" for dec'
  proof -
    have "masked dec' ?m = masked dec ?m"
      using that by (intro masked_cong[OF assms(2,4)]) auto
    then show ?thesis by simp
  qed
  have eq: "masked dec ?m = masked ?g ?m \<and> masked post ?m = masked ?g ?m
      \<and> abs_err (masked ?g ?m) (masked ?g ?m) = Fin 0"
    if "const_mask (Fin 0) ?m \<and> finite_tensor dec \<and> finite_tensor post \<and> finite_tensor ?g"
    using that masked_zero_mask[OF assms(2,4)] masked_zero_mask[OF assms(2,6)]
      abs_err_zeros[OF masked_zero_elems[OF assms(2)]]
    by simp
  show ?thesis
  proof (intro conjI allI impI)
    show "\<exists>out st'. run_model C s False st =
        (Inr (TrainResult
           [(''mel_decoder'', Tensor (abs_err (masked dec ?m) (masked ?g ?m)) True),
            (''mel_postnet'', Tensor (abs_err (masked post ?m) (masked ?g ?m)) True)]
           out), st')"
      using run by blast
  next
    fix b t assume "b < length ?g \<and> t < length (?g ! b)"
    from frames[OF this]
    show "masked dec ?m ! b ! t = map (\<lambda>v. fmul v (?m ! b ! t)) (dec ! b ! t)"
      "masked post ?m ! b ! t = map (\<lambda>v. fmul v (?m ! b ! t)) (post ! b ! t)"
      "masked ?g ?m ! b ! t = map (\<lambda>v. fmul v (?m ! b ! t)) (?g ! b ! t)"
      by simp_all
  next
    fix b t assume "b < length ?g \<and> t < length (?g ! b) \<and> ?m ! b ! t = Fin 0
        \<and> finite_frame (dec ! b ! t) \<and> finite_frame (post ! b ! t) \<and> finite_frame (?g ! b ! t)"
    from zero[OF this]
    show "masked dec ?m ! b ! t = replicate (length (?g ! b ! t)) (Fin 0)"
      "masked post ?m ! b ! t = replicate (length (?g ! b ! t)) (Fin 0)"
      "masked ?g ?m ! b ! t = replicate (length (?g ! b ! t)) (Fin 0)"
      by simp_all
  next
    fix dec' assume "same_shape3 dec' ?g \<and> finite_tensor dec \<and> finite_tensor dec'
        \<and> (\<forall>b t. b < length ?g \<and> t < length (?g ! b) \<and> ?m ! b ! t \<noteq> Fin 0
          \<longrightarrow> dec' ! b ! t = dec ! b ! t)"
    from indep[OF this]
    show "abs_err (masked dec' ?m) (masked ?g ?m) = abs_err (masked dec ?m) (masked ?g ?m)" .
  next
    assume h: "const_mask (Fin 0) ?m \<and> finite_tensor dec \<and> finite_tensor post
        \<and> finite_tensor ?g"
    from eq[OF h]
    show "masked dec ?m = masked ?g ?m" "masked post ?m = masked ?g ?m"
      "abs_err (masked ?g ?m) (masked ?g ?m) = Fin 0"
      by simp_all
    from eq[OF h] run
    show "\<exists>out st'. run_model C s False st =
        (Inr (TrainResult [(''mel_decoder'', Tensor (Fin 0) True),
                           (''mel_postnet'', Tensor (Fin 0) True)] out), st')"
      by simp
  qed
qed

lemma zero_mask_facts:
  "mask_shape (time_mel_masks zero_mask_sample) (mels zero_mask_sample)"
  "same_shape3 nines (mels zero_mask_sample)"
  "same_shape3 nan_first (mels zero_mask_sample)"
  "const_mask (Fin 0) (time_mel_masks zero_mask_sample)"
  "finite_tensor nines" "finite_tensor (mels zero_mask_sample)"
  by (simp_all add: zero_mask_sample_def demo_sample_def mask_shape_def same_shape3_def
      nines_def nan_first_def const_mask_def finite_tensor_def finite_frame_def)

theorem masked_loss_restriction_witness:
  "add_mel_loss demo_collab = add_mel_loss_spec
   \<and> mask_shape (time_mel_masks zero_mask_sample) (mels zero_mask_sample)
   \<and> same_shape3 nines (mels zero_mask_sample)
   \<and> const_mask (Fin 0) (time_mel_masks zero_mask_sample)
   \<and> finite_tensor nines \<and> finite_tensor (mels zero_mask_sample)
   \<and> (\<exists>out st'. run_model demo_collab zero_mask_sample False demo_task =
         (Inr (TrainResult [(''mel_decoder'', Tensor (Fin 0) True),
                            (''mel_postnet'', Tensor (Fin 0) True)] out), st'))"
proof -
  have h: "add_mel_loss demo_collab = add_mel_loss_spec"
    "mel_out_decoder (train_output demo_collab zero_mask_sample demo_task) = Some nines"
    "mel_out_postnet (train_output demo_collab zero_mask_sample demo_task) = Some nines"
    by (simp_all add: demo_collab_def train_output_def demo_model_def model_call_def)
  show ?thesis
    using masked_loss_restriction[OF h(1) zero_mask_facts(1) h(2) zero_mask_facts(2) h(3)
        zero_mask_facts(2)] h(1) zero_mask_facts
    by blast
qed

text \<open>
  The mask is 0 everywhere and the prediction of \<open>nan_model\<close> is nan in the first
  frame: both losses are nan, not 0.
\<close>

theorem masked_loss_nan_counterexample:
  "const_mask (Fin 0) (time_mel_masks zero_mask_sample)
   \<and> fst (run_model nan_collab zero_mask_sample False demo_task)
     = Inr (TrainResult [(''mel_decoder'', Tensor NaN True), (''mel_postnet'', Tensor NaN True)]
        \<lparr>mel_out_decoder = Some nan_first, mel_out_postnet = Some nan_first,
         mel_out = Some [[[NaN], [Fin 1], [Fin 1], [Fin 1]]], attn = None\<rparr>)"
proof -
  have out: "train_output nan_collab zero_mask_sample demo_task
      = \<lparr>mel_out_decoder = Some nan_first, mel_out_postnet = Some nan_first, mel_out = None,
         attn = None\<rparr>"
    by (simp add: train_output_def nan_collab_def nan_model_def model_call_def)
  have loss: "add_mel_loss nan_collab = add_mel_loss_spec"
    by (simp add: nan_collab_def demo_collab_def)
  have m: "masked nan_first (time_mel_masks zero_mask_sample)
      = [[[NaN], [Fin 0], [Fin 0], [Fin 0]]]"
    "masked (mels zero_mask_sample) (time_mel_masks zero_mask_sample)
      = [[[Fin 0], [Fin 0], [Fin 0], [Fin 0]]]"
    by (simp_all add: masked_def scale_frames_def nan_first_def zero_mask_sample_def
        demo_sample_def fmul_def)
  have e: "abs_err [[[NaN], [Fin 0], [Fin 0], [Fin 0]]] [[[Fin 0], [Fin 0], [Fin 0], [Fin 0]]]
      = NaN"
    by (simp add: abs_err_def flatten3_def fsub_def fneg_def fadd_def fabs_def)
  have c: "composite_spec nan_first (mels zero_mask_sample) (time_mel_masks zero_mask_sample)
      = [[[NaN], [Fin 1], [Fin 1], [Fin 1]]]"
    by (simp add: composite_spec_def nan_first_def zero_mask_sample_def demo_sample_def
        blend_values)
  have "fst (run_model nan_collab zero_mask_sample False demo_task)
     = Inr (TrainResult [(''mel_decoder'', Tensor NaN True), (''mel_postnet'', Tensor NaN True)]
        ((train_output nan_collab zero_mask_sample demo_task)
          \<lparr>mel_out := Some (composite_spec nan_first (mels zero_mask_sample)
              (time_mel_masks zero_mask_sample))\<rparr>))"
    by (subst run_model_train_eq[OF zero_mask_facts(1) _ zero_mask_facts(3) _ zero_mask_facts(3)])
       (simp_all add: out loss add_mel_loss_spec_def bind_err_def m e)
  then show ?thesis
    by (simp add: out c zero_mask_facts(4))
qed


section \<open>The objective\<close>

lemma fadd_commute: "fadd x y = fadd y x"
  by (cases x; cases y) (simp_all add: fadd_def add.commute)

lemma foldl_py_add_tensor:
  "foldl py_add (Tensor x g) (map (\<lambda>y. Tensor y True) ys)
     = Tensor (foldl fadd x ys) (g \<or> ys \<noteq> [])"
  by (induction ys arbitrary: x g) auto

lemma py_sum_grad:
  "py_sum (map (\<lambda>y. Tensor y True) ys)
     = (if ys = [] then PyInt 0 else Tensor (foldl fadd (Fin 0) ys) True)"
proof (cases ys)
  case Nil
  then show ?thesis by (simp add: py_sum_def)
next
  case (Cons y ys')
  have "fadd y (float_of_int 0) = fadd (Fin 0) y"
    by (simp add: float_of_int_def fadd_commute)
  then show ?thesis
    by (simp add: Cons py_sum_def foldl_py_add_tensor)
qed

lemma weight_of_empty: "weight_of [] k = 1"
  by (simp add: weight_of_def)

lemma weight_of_absent: "k \<notin> fst ` set W \<Longrightarrow> weight_of W k = 1"
  by (simp add: weight_of_def map_of_eq_None_iff[THEN iffD2])

lemma weighted_terms:
  "map (\<lambda>(k, v). py_scale (weight_of W k) v) (filter (\<lambda>(k, v). is_grad_tensor v) l)
     = map (\<lambda>y. Tensor y True)
         (map (\<lambda>(k, x). fmul x (float_of_int (weight_of W k))) (grad_entries l))"
proof (induction l)
  case Nil
  show ?case by (simp add: grad_entries_def)
next
  case (Cons e l)
  obtain k v where e: "e = (k, v)" by (cases e)
  have "grad_entries (e # l)
      = (case v of Tensor x g \<Rightarrow> (if g then [(k, x)] else []) | _ \<Rightarrow> []) @ grad_entries l"
    by (simp add: grad_entries_def e)
  with Cons show ?case
    by (cases v) (auto simp: e is_grad_tensor_def)
qed

lemma total_loss_weighted:
  "total_loss_of W l
     = (if grad_entries l = [] then PyInt 0 else Tensor (weighted_sum W (grad_entries l)) True)"
  unfolding total_loss_of_def weighted_terms py_sum_grad weighted_sum_def by simp

lemma grad_entries_filter:
  "grad_entries (filter (\<lambda>(k, v). is_grad_tensor v) l) = grad_entries l"
proof (induction l)
  case Nil
  show ?case by simp
next
  case (Cons e l)
  obtain k v where e: "e = (k, v)" by (cases e)
  from Cons show ?case
    by (cases v) (auto simp: e grad_entries_def is_grad_tensor_def)
qed

lemma grad_entries_set:
  "(k, x) \<in> set (grad_entries l) \<longleftrightarrow> (k, Tensor x True) \<in> set l"
proof (induction l)
  case Nil
  show ?case by (simp add: grad_entries_def)
next
  case (Cons e l)
  obtain k' v where e: "e = (k', v)" by (cases e)
  have "grad_entries (e # l)
      = (case v of Tensor x g \<Rightarrow> (if g then [(k', x)] else []) | _ \<Rightarrow> []) @ grad_entries l"
    by (simp add: grad_entries_def e)
  with Cons show ?case
    by (cases v) (auto simp: e)
qed

lemma grad_entries_empty:
  "grad_entries l = [] \<longleftrightarrow> (\<forall>(k, v) \<in> set l. \<not> is_grad_tensor v)"
proof (induction l)
  case Nil
  show ?case by (simp add: grad_entries_def)
next
  case (Cons e l)
  obtain k v where e: "e = (k, v)" by (cases e)
  have "grad_entries (e # l)
      = (case v of Tensor x g \<Rightarrow> (if g then [(k, x)] else []) | _ \<Rightarrow> []) @ grad_entries l"
    by (simp add: grad_entries_def e)
  with Cons show ?case
    by (cases v) (auto simp: e is_grad_tensor_def)
qed

lemma unit_weights:
  assumes "\<forall>(k, x) \<in> set xs. is_float32 x"
  shows "map (\<lambda>(k, x). fmul x (float_of_int (weight_of [] k))) xs = map snd xs"
  using assms
  by (induction xs) (auto simp: weight_of_empty float_of_int_def fmul_one)

lemma weighted_sum_unit:
  "\<forall>(k, x) \<in> set xs. is_float32 x \<Longrightarrow> weighted_sum [] xs = foldl fadd (Fin 0) (map snd xs)"
  by (simp add: weighted_sum_def unit_weights)

lemma training_step_eq:
  assumes "run_model C s False st = (Inr (TrainResult l out), st1)"
  shows "a3t_training_step C s batch_idx optimizer_idx st =
     (Inr (total_loss_of [] l,
           AList.update ''batch_size'' (PyInt (int (length (txt_tokens s)))) l),
      st1\<lparr>model_out_self := Some out, model_out_gt := Some out\<rparr>)"
  using assms by (simp add: a3t_training_step_def Let_def)

lemma training_step_error:
  assumes "run_model C s False st = (Inl e, st1)"
  shows "a3t_training_step C s batch_idx optimizer_idx st = (Inl e, st1)"
  using assms by (simp add: a3t_training_step_def Let_def)

lemma training_step_cases:
  "(\<exists>e st1. run_model C s False st = (Inl e, st1))
   \<or> (\<exists>l out st1. run_model C s False st = (Inr (TrainResult l out), st1))"
proof (cases "run_model C s False st")
  case (Pair r st1)
  show ?thesis
  proof (cases r)
    case (Inl e)
    with Pair show ?thesis by simp
  next
    case (Inr x)
    show ?thesis
    proof (cases x)
      case (TrainResult l out)
      with Pair Inr show ?thesis by simp
    next
      case (InferResult out)
      with Pair Inr run_model_False_not_infer[of C s st out] show ?thesis by simp
    qed
  qed
qed

lemma demo_masked:
  "masked nines (time_mel_masks demo_sample) = [[[Fin 0], [Fin 0], [Fin 9], [Fin 9]]]"
  "masked (mels demo_sample) (time_mel_masks demo_sample)
     = [[[Fin 0], [Fin 0], [Fin 1], [Fin 1]]]"
  by (simp_all add: masked_def scale_frames_def nines_def demo_sample_def fmul_def)

lemma demo_train_run:
  assumes "model C = demo_model"
  shows "run_model C demo_sample False demo_task =
     (bind_err (add_mel_loss C [[[Fin 0], [Fin 0], [Fin 9], [Fin 9]]]
                  [[[Fin 0], [Fin 0], [Fin 1], [Fin 1]]] [] ''_decoder'')
        (\<lambda>losses1.
      bind_err (add_mel_loss C [[[Fin 0], [Fin 0], [Fin 9], [Fin 9]]]
                  [[[Fin 0], [Fin 0], [Fin 1], [Fin 1]]] losses1 ''_postnet'')
        (\<lambda>losses2.
      Inr (TrainResult losses2
        \<lparr>mel_out_decoder = Some nines, mel_out_postnet = Some nines,
         mel_out = Some [[[Fin 1], [Fin 1], [Fin 9], [Fin 9]]], attn = None\<rparr>))),
      called (model_call demo_sample (unsqueeze_last (time_mel_masks demo_sample)) False (Some 0))
        demo_task)"
proof -
  have out: "train_output C demo_sample demo_task =
      \<lparr>mel_out_decoder = Some nines, mel_out_postnet = Some nines, mel_out = None, attn = None\<rparr>"
    by (simp add: train_output_def assms demo_model_def model_call_def)
  have g: "global_step demo_task = 0" by (simp add: demo_task_def)
  show ?thesis
    using run_model_train_eq[OF demo_shapes(1) _ demo_shapes(2) _ demo_shapes(2),
        of C demo_task]
    by (simp add: out demo_masked g demo_composite)
qed

lemma abc_run:
  "\<exists>out st1. run_model abc_collab demo_sample False demo_task
      = (Inr (TrainResult abc_record out), st1)"
  by (simp add: demo_train_run abc_collab_def demo_collab_def abc_loss_def bind_err_def
      abc_record_def)

lemma abc_entries: "grad_entries abc_record = [(''a'', Fin 2), (''b'', Fin 3)]"
  by (simp add: grad_entries_def abc_record_def)

lemma abc_total: "total_loss_of [] abc_record = Tensor (Fin 5) True"
  "total_loss_of [(''a'', 1), (''b'', 2)] abc_record = Tensor (Fin 8) True"
  by (simp_all add: total_loss_weighted abc_entries weighted_sum_def weight_of_def
      float_of_int_def fmul_def fadd_def)

lemma demo_abs_err:
  "abs_err [[[Fin 0], [Fin 0], [Fin 9], [Fin 9]]] [[[Fin 0], [Fin 0], [Fin 1], [Fin 1]]] = Fin 16"
  by (simp add: abs_err_def flatten3_def fsub_def fneg_def fadd_def fabs_def)

lemma detached_run:
  "\<exists>out st1. run_model detached_collab demo_sample False demo_task
      = (Inr (TrainResult [(''mel_decoder'', Tensor (Fin 16) False),
                           (''mel_postnet'', Tensor (Fin 16) False)] out), st1)"
  by (simp add: demo_train_run detached_collab_def demo_collab_def detached_loss_def bind_err_def
      demo_abs_err)


text \<open>
  Claim C3. The total loss that \<open>_training_step\<close> returns is the weighted sum, with
  the weight 1 for every name that the dictionary of weights does not hold, of exactly
  the entries of the loss record that are tensors tracking gradients: the integer 0
  when there is none, and otherwise a gradient-tracking tensor holding the float sum,
  taken in the order of the record, of the weighted values. The other entries do not
  change the sum and are kept in the returned record, which is the loss record with
  the batch size stored under \<^verbatim>\<open>'batch_size'\<close>. For the record
  \<open>{a: 2 (grad), b: 3 (grad), c: 5 (no grad)}\<close> and the weights \<open>{a: 1, b: 2}\<close>
  line 48 gives 8.
\<close>

theorem training_step_total:
  assumes "run_model C s False st = (Inr (TrainResult l out), st1)"
  shows "(\<exists>returned st2.
        a3t_training_step C s batch_idx optimizer_idx st
          = (Inr (total_loss_of [] l, returned), st2)
        \<and> (\<forall>k. k \<noteq> ''batch_size'' \<longrightarrow> map_of returned k = map_of l k)
        \<and> map_of returned ''batch_size'' = Some (PyInt (int (length (txt_tokens s)))))
     \<and> (\<forall>W. total_loss_of W l
            = (if grad_entries l = [] then PyInt 0
               else Tensor (weighted_sum W (grad_entries l)) True)
          \<and> total_loss_of W l = total_loss_of W (filter (\<lambda>(k, v). is_grad_tensor v) l))
     \<and> (\<forall>k x. (k, x) \<in> set (grad_entries l) \<longleftrightarrow> (k, Tensor x True) \<in> set l)
     \<and> (\<forall>W k. k \<notin> fst ` set W \<longrightarrow> weight_of W k = 1)
     \<and> ((\<forall>(k, x) \<in> set (grad_entries l). is_float32 x)
          \<longrightarrow> weighted_sum [] (grad_entries l) = foldl fadd (Fin 0) (map snd (grad_entries l)))
     \<and> grad_entries abc_record = [(''a'', Fin 2), (''b'', Fin 3)]
     \<and> total_loss_of [(''a'', 1), (''b'', 2)] abc_record = Tensor (Fin 8) True"
proof (intro conjI allI impI)
  show "\<exists>returned st2.
        a3t_training_step C s batch_idx optimizer_idx st
          = (Inr (total_loss_of [] l, returned), st2)
        \<and> (\<forall>k. k \<noteq> ''batch_size'' \<longrightarrow> map_of returned k = map_of l k)
        \<and> map_of returned ''batch_size'' = Some (PyInt (int (length (txt_tokens s))))"
    using training_step_eq[OF assms, of batch_idx optimizer_idx] by (simp add: update_conv')
next
  fix W
  show "total_loss_of W l
      = (if grad_entries l = [] then PyInt 0 else Tensor (weighted_sum W (grad_entries l)) True)"
    by (rule total_loss_weighted)
  show "total_loss_of W l = total_loss_of W (filter (\<lambda>(k, v). is_grad_tensor v) l)"
    by (simp add: total_loss_weighted grad_entries_filter)
next
  fix k x
  show "(k, x) \<in> set (grad_entries l) \<longleftrightarrow> (k, Tensor x True) \<in> set l"
    by (rule grad_entries_set)
next
  fix W :: "(string \<times> int) list" and k
  assume "k \<notin> fst ` set W"
  then show "weight_of W k = 1" by (rule weight_of_absent)
next
  assume "\<forall>(k, x) \<in> set (grad_entries l). is_float32 x"
  then show "weighted_sum [] (grad_entries l) = foldl fadd (Fin 0) (map snd (grad_entries l))"
    by (rule weighted_sum_unit)
next
  show "grad_entries abc_record = [(''a'', Fin 2), (''b'', Fin 3)]" by (rule abc_entries)
  show "total_loss_of [(''a'', 1), (''b'', 2)] abc_record = Tensor (Fin 8) True"
    by (rule abc_total(2))
qed

theorem training_step_total_witness:
  "\<exists>out st1 st2.
      run_model abc_collab demo_sample False demo_task = (Inr (TrainResult abc_record out), st1)
      \<and> a3t_training_step abc_collab demo_sample 0 0 demo_task
          = (Inr (Tensor (Fin 5) True,
                  [(''a'', Tensor (Fin 2) True), (''b'', Tensor (Fin 3) True),
                   (''c'', Tensor (Fin 5) False), (''batch_size'', PyInt 1)]), st2)"
proof -
  obtain out st1 where r: "run_model abc_collab demo_sample False demo_task
      = (Inr (TrainResult abc_record out), st1)"
    using abc_run by blast
  from training_step_total[OF r, of 0 0] obtain returned st2 where
    t: "a3t_training_step abc_collab demo_sample 0 0 demo_task
          = (Inr (total_loss_of [] abc_record, returned), st2)"
    by blast
  have "returned = [(''a'', Tensor (Fin 2) True), (''b'', Tensor (Fin 3) True),
                   (''c'', Tensor (Fin 5) False), (''batch_size'', PyInt 1)]"
    using t training_step_eq[OF r, of 0 0] by (simp add: abc_record_def demo_sample_def)
  with r t show ?thesis by (simp add: abc_total(1))
qed

text \<open>
  Claim C4, as amended. When no entry of the loss record is a tensor that tracks
  gradients, \<open>_training_step\<close> raises nothing: it returns the integer 0 as the total
  loss, with the loss record and the batch size. It raises only what \<open>run_model\<close>
  raises.
\<close>

theorem training_step_no_grad:
  assumes "run_model C s False st = (Inr (TrainResult l out), st1)"
    and "\<forall>(k, v) \<in> set l. \<not> is_grad_tensor v"
  shows "a3t_training_step C s batch_idx optimizer_idx st =
       (Inr (PyInt 0, AList.update ''batch_size'' (PyInt (int (length (txt_tokens s)))) l),
        st1\<lparr>model_out_self := Some out, model_out_gt := Some out\<rparr>)
     \<and> (\<forall>C' s' st' e. fst (a3t_training_step C' s' batch_idx optimizer_idx st') = Inl e
          \<longrightarrow> fst (run_model C' s' False st') = Inl e)"
proof -
  have "grad_entries l = []"
    using assms(2) by (simp add: grad_entries_empty)
  then have a: "total_loss_of [] l = PyInt 0"
    by (simp add: total_loss_weighted)
  have b: "fst (run_model C' s' False st') = Inl e"
    if "fst (a3t_training_step C' s' batch_idx optimizer_idx st') = Inl e" for C' s' st' e
    using training_step_cases[of C' s' st'] that
    by (auto simp: training_step_eq training_step_error)
  show ?thesis
    using training_step_eq[OF assms(1), of batch_idx optimizer_idx] a b by simp
qed

theorem training_step_no_grad_witness:
  "\<exists>out st1 st2.
      run_model detached_collab demo_sample False demo_task
        = (Inr (TrainResult [(''mel_decoder'', Tensor (Fin 16) False),
                             (''mel_postnet'', Tensor (Fin 16) False)] out), st1)
      \<and> (\<forall>(k, v) \<in> set [(''mel_decoder'', Tensor (Fin 16) False),
                          (''mel_postnet'', Tensor (Fin 16) False)]. \<not> is_grad_tensor v)
      \<and> a3t_training_step detached_collab demo_sample 0 0 demo_task
          = (Inr (PyInt 0, [(''mel_decoder'', Tensor (Fin 16) False),
                            (''mel_postnet'', Tensor (Fin 16) False),
                            (''batch_size'', PyInt 1)]), st2)"
proof -
  let ?l = "[(''mel_decoder'', Tensor (Fin 16) False), (''mel_postnet'', Tensor (Fin 16) False)]"
  obtain out st1 where r: "run_model detached_collab demo_sample False demo_task
      = (Inr (TrainResult ?l out), st1)"
    using detached_run by blast
  have n: "\<forall>(k, v) \<in> set ?l. \<not> is_grad_tensor v"
    by (simp add: is_grad_tensor_def)
  from training_step_no_grad[OF r n, of 0 0]
  have "a3t_training_step detached_collab demo_sample 0 0 demo_task
      = (Inr (PyInt 0, ?l @ [(''batch_size'', PyInt 1)]),
         st1\<lparr>model_out_self := Some out, model_out_gt := Some out\<rparr>)"
    by (simp add: demo_sample_def)
  with r n show ?thesis by auto
qed

theorem training_step_no_grad_counterexample:
  "fst (a3t_training_step detached_collab demo_sample 0 0 demo_task)
     = Inr (PyInt 0, [(''mel_decoder'', Tensor (Fin 16) False),
                      (''mel_postnet'', Tensor (Fin 16) False),
                      (''batch_size'', PyInt 1)])"
proof -
  obtain out st1 where r: "run_model detached_collab demo_sample False demo_task
      = (Inr (TrainResult [(''mel_decoder'', Tensor (Fin 16) False),
                           (''mel_postnet'', Tensor (Fin 16) False)] out), st1)"
    using detached_run by blast
  have n: "length (txt_tokens demo_sample) = 1"
    by (simp add: demo_sample_def)
  show ?thesis
    by (simp add: training_step_eq[OF r] total_loss_of_def is_grad_tensor_def py_sum_def n)
qed


section \<open>Strings\<close>

lemma replace_char_append:
  "replace_char c n (xs @ ys) = replace_char c n xs @ replace_char c n ys"
  by (simp add: replace_char_def)

lemma replace_char_absent: "c \<notin> set xs \<Longrightarrow> replace_char c n xs = xs"
  by (induction xs) (auto simp: replace_char_def)

lemma replace_char_removes: "c \<notin> set n \<Longrightarrow> c \<notin> set (replace_char c n xs)"
  by (induction xs) (auto simp: replace_char_def)

lemma replace_char_keeps_out:
  "d \<notin> set xs \<Longrightarrow> d \<notin> set n \<Longrightarrow> d \<notin> set (replace_char c n xs)"
  by (induction xs) (auto simp: replace_char_def)

lemma digit_char_cases:
  assumes "d < 10"
  shows "is_digit (digit_char d) \<and> digit_val (digit_char d) = d"
proof -
  from assms have "d \<in> {0, 1, 2, 3, 4, 5, 6, 7, 8, 9}" by auto
  then show ?thesis
    by (auto simp: digit_char_def digit_val_def is_digit_def)
qed

lemma is_digit_other:
  assumes "is_digit c"
  shows "c \<noteq> CHR '']''" "c \<noteq> CHR ''-''" "c \<noteq> CHR ''%''" "c \<noteq> CHR '' ''"
  using assms by (auto simp: is_digit_def)

lemma str_nat_digits: "c \<in> set (str_nat n) \<Longrightarrow> is_digit c"
proof (induction n rule: str_nat.induct)
  case (1 n)
  show ?case
  proof (cases "n < 10")
    case True
    with "1.prems" show ?thesis
      using digit_char_cases[of n] by (simp add: str_nat.simps[of n])
  next
    case False
    have "n mod 10 < 10" by simp
    with False "1.prems" "1.IH" show ?thesis
      using digit_char_cases[of "n mod 10"] by (auto simp: str_nat.simps[of n])
  qed
qed

lemma undigits_snoc: "undigits (xs @ [c]) = 10 * undigits xs + digit_val c"
  by (simp add: undigits_def)

lemma undigits_str_nat: "undigits (str_nat n) = n"
proof (induction n rule: str_nat.induct)
  case (1 n)
  show ?case
  proof (cases "n < 10")
    case True
    then show ?thesis
      using digit_char_cases[of n] by (simp add: str_nat.simps[of n] undigits_def)
  next
    case False
    have "n mod 10 < 10" by simp
    with False 1 show ?thesis
      using digit_char_cases[of "n mod 10"] by (simp add: str_nat.simps[of n] undigits_snoc)
  qed
qed

lemma undigits_zeros: "undigits (replicate k CHR ''0'' @ xs) = undigits xs"
proof -
  have "foldl (\<lambda>acc c. 10 * acc + digit_val c) 0 (replicate k CHR ''0'') = 0"
    by (induction k) (simp_all add: digit_val_def)
  then show ?thesis by (simp add: undigits_def)
qed

lemma undigits_zfill: "undigits (zfill w (str_nat n)) = n"
  by (simp add: zfill_def undigits_zeros undigits_str_nat)

lemma zfill_digits: "c \<in> set (zfill w (str_nat n)) \<Longrightarrow> is_digit c"
  using str_nat_digits[of c n] by (auto simp: zfill_def is_digit_def)

lemma str_nat_nonempty: "str_nat n \<noteq> []"
  by (simp add: str_nat.simps[of n])

lemma format_06d_chars: "c \<in> set (format_06d i) \<Longrightarrow> c = CHR ''-'' \<or> is_digit c"
  using zfill_digits[of c 5 "nat (- i)"] zfill_digits[of c 6 "nat i"]
  by (auto simp: format_06d_def split: if_splits)

lemma format_06d_other:
  "CHR '']'' \<notin> set (format_06d i)" "CHR ''%'' \<notin> set (format_06d i)"
  "CHR '' '' \<notin> set (format_06d i)"
  using format_06d_chars[of _ i] is_digit_other by blast+

lemma parse_index_format: "parse_index (format_06d i) = i"
proof (cases "i < 0")
  case True
  then show ?thesis
    by (simp add: format_06d_def parse_index_def undigits_zfill)
next
  case False
  obtain c cs where z: "zfill 6 (str_nat (nat i)) = c # cs"
    using str_nat_nonempty[of "nat i"] by (cases "zfill 6 (str_nat (nat i))") (auto simp: zfill_def)
  then have "is_digit c"
    using zfill_digits[of c 6 "nat i"] by simp
  then have "c \<noteq> CHR ''-''" by (rule is_digit_other)
  then show ?thesis
    using False z undigits_zfill[of 6 "nat i"] by (simp add: format_06d_def parse_index_def)
qed

lemma takeWhile_stop: "c \<notin> set xs \<Longrightarrow> takeWhile (\<lambda>x. x \<noteq> c) (xs @ c # ys) = xs"
  by (induction xs) auto

lemma index_of_file_name: "index_of_name (file_name i item marker suffix) = i"
proof -
  obtain rest where t: "tl (file_name i item marker suffix) = format_06d i @ CHR '']'' # rest"
    by (simp add: file_name_def)
  show ?thesis
    unfolding index_of_name_def t takeWhile_stop[OF format_06d_other(1)]
    by (rule parse_index_format)
qed

section \<open>The format operator on the file name template\<close>

lemma bind_err_simps:
  "bind_err (Inr x) f = f x" "bind_err (Inl e) f = Inl e"
  by (simp_all add: bind_err_def)

lemma bind_err_assoc: "bind_err (bind_err m f) g = bind_err m (\<lambda>x. bind_err (f x) g)"
  by (cases m) (simp_all add: bind_err_def)

lemma fmt_text_plain:
  "CHR ''%'' \<notin> set xs \<Longrightarrow> fmt_text a (xs @ ys) = bind_err (fmt_text a ys) (\<lambda>r. Inr (xs @ r))"
proof (induction xs)
  case Nil
  show ?case by (cases "fmt_text a ys") (simp_all add: bind_err_def)
next
  case (Cons x xs)
  then show ?case by (auto simp: bind_err_assoc bind_err_simps)
qed

lemma fmt_text_no_percent: "CHR ''%'' \<notin> set xs \<Longrightarrow> fmt_text None xs = Inr xs"
  using fmt_text_plain[of xs None "[]"] by (simp add: bind_err_simps)

lemma fmt_spec_s:
  "fmt_spec Start False 0 None (Some v) (CHR ''s'' # cs)
     = bind_err (fmt_text None cs) (\<lambda>r. Inr (v @ r))"
  by (simp add: is_digit_def pad_def truncate_def)

lemma fmt_spec_None_cases:
  assumes "fmt_spec ph lj w p None (c # cs) = Inr r"
  shows "(\<exists>ph' lj' w' p'. fmt_spec ph' lj' w' p' None cs = Inr r)
     \<or> (\<exists>r0. fmt_text None cs = Inr r0 \<and> r = CHR ''%'' # r0)"
  using assms
  apply (simp only: fmt_spec.simps)
  apply (split if_split_asm)
   apply (cases "fmt_text None cs"; simp add: bind_err_def)
  apply (split if_split_asm, simp only: sum.distinct)
  apply (split if_split_asm, blast)
  apply (split if_split_asm, simp only: option.case sum.distinct)
  apply (split if_split_asm)
   apply (split if_split_asm, simp only: sum.distinct, blast)
  apply (split if_split_asm, blast)
  apply (split if_split_asm)
   apply (split if_split_asm, simp only: sum.distinct, blast)
  apply (split if_split_asm, blast)
  apply (simp only: option.case sum.distinct)
  done

lemma fmt_chars_aux:
  "(\<forall>r. fmt_text None xs = Inr r \<longrightarrow> set r \<subseteq> set xs)
   \<and> (\<forall>ph lj w p r. fmt_spec ph lj w p None xs = Inr r \<longrightarrow> set r \<subseteq> insert CHR ''%'' (set xs))"
proof (induction xs)
  case Nil
  show ?case by simp
next
  case (Cons c cs)
  from Cons have t: "\<And>r. fmt_text None cs = Inr r \<Longrightarrow> set r \<subseteq> set cs"
    and s: "\<And>ph lj w p r. fmt_spec ph lj w p None cs = Inr r
        \<Longrightarrow> set r \<subseteq> insert CHR ''%'' (set cs)"
    by blast+
  have a: "set r \<subseteq> set (c # cs)" if "fmt_text None (c # cs) = Inr r" for r
  proof (cases "c = CHR ''%''")
    case True
    with that s[of Start False 0 None r] show ?thesis by auto
  next
    case False
    with that obtain r0 where "fmt_text None cs = Inr r0" "r = c # r0"
      by (auto simp: bind_err_def split: sum.splits)
    with t[of r0] show ?thesis by auto
  qed
  have b: "set r \<subseteq> insert CHR ''%'' (set (c # cs))"
    if h: "fmt_spec ph lj w p None (c # cs) = Inr r" for ph lj w p r
  proof -
    from fmt_spec_None_cases[OF h] consider
      (rec) ph' lj' w' p' where "fmt_spec ph' lj' w' p' None cs = Inr r"
      | (pct) r0 where "fmt_text None cs = Inr r0" "r = CHR ''%'' # r0"
      by blast
    then show ?thesis
    proof cases
      case rec
      from s[OF rec] show ?thesis by auto
    next
      case pct
      with t[of r0] show ?thesis by auto
    qed
  qed
  from a b show ?case by blast
qed

lemma fmt_chars: "fmt_text None xs = Inr r \<Longrightarrow> set r \<subseteq> set xs"
  using fmt_chars_aux[of xs] by blast

lemma sanitized_item_chars:
  "CHR ''%'' \<notin> set (sanitized_item item)" "CHR '' '' \<notin> set (sanitized_item item)"
  by (simp_all add: sanitized_item_def replace_char_removes replace_char_keeps_out)

lemma sanitized_text_chars:
  "CHR '':'' \<notin> set (sanitized_text txt)" "CHR '' '' \<notin> set (sanitized_text txt)"
proof -
  have "CHR '':'' \<notin> set (take 80 (replace_char CHR '':'' ''$3A'' t))" for t
    using replace_char_removes[of "CHR '':''" "''$3A''" t] by (auto dest: in_set_takeD)
  then show "CHR '':'' \<notin> set (sanitized_text txt)"
    by (cases "txt") (simp_all add: sanitized_text_def replace_char_keeps_out)
  show "CHR '' '' \<notin> set (sanitized_text txt)"
    by (cases "txt") (simp_all add: sanitized_text_def replace_char_removes)
qed

lemma replace_char_Cons:
  "replace_char c n (x # xs) = (if x = c then n else [x]) @ replace_char c n xs"
  "replace_char c n [] = []"
  by (simp_all add: replace_char_def)

lemma base_fn_of_eq:
  "base_fn_of i item txt =
     (''['' @ format_06d i @ '']['' @ sanitized_item item @ '']['') @ ''%s''
       @ '']'' @ sanitized_text txt"
proof -
  have lit: "replace_char CHR '' '' ''_'' ''['' = ''[''"
    "replace_char CHR '' '' ''_'' '']['' = ''][''"
    "replace_char CHR '' '' ''_'' ''][%s]'' = ''][%s]''"
    by (simp_all add: replace_char_def)
  show ?thesis
    by (cases "txt")
      (simp_all add: base_fn_of_def Let_def replace_char_append replace_char_Cons
        sanitized_item_def sanitized_text_def replace_char_absent[OF format_06d_other(3)])
qed

lemma fmt_text_arg:
  "fmt_text (Some v) (''%s'' @ '']'' @ rest)
     = bind_err (fmt_text None rest) (\<lambda>r. Inr (v @ '']'' @ r))"
proof -
  have "fmt_text (Some v) (''%s'' @ '']'' @ rest)
      = fmt_spec Start False 0 None (Some v) (CHR ''s'' # CHR '']'' # rest)"
    by (simp only: append_Cons append_Nil fmt_text.simps refl if_True)
  also have "\<dots> = bind_err (fmt_text None (CHR '']'' # rest)) (\<lambda>r. Inr (v @ r))"
    by (rule fmt_spec_s)
  also have "fmt_text None (CHR '']'' # rest)
      = bind_err (fmt_text None rest) (\<lambda>r. Inr (CHR '']'' # r))"
    by simp
  finally show ?thesis
    by (simp add: bind_err_assoc bind_err_simps)
qed

lemma py_format_base:
  "py_format (base_fn_of i item txt) v
     = bind_err (fmt_text None (sanitized_text txt)) (\<lambda>r. Inr (file_name i item v r))"
proof -
  let ?pre = "''['' @ format_06d i @ '']['' @ sanitized_item item @ ''][''"
  have np: "CHR ''%'' \<notin> set ?pre"
    using format_06d_other(2)[of i] sanitized_item_chars(1)[of item] by simp
  have "py_format (base_fn_of i item txt) v
      = bind_err (fmt_text (Some v) (''%s'' @ '']'' @ sanitized_text txt)) (\<lambda>r. Inr (?pre @ r))"
    unfolding py_format_def base_fn_of_eq by (rule fmt_text_plain[OF np])
  then show ?thesis
    unfolding fmt_text_arg by (simp add: bind_err_assoc bind_err_simps file_name_def)
qed

lemma py_format_base_plain:
  "CHR ''%'' \<notin> set (sanitized_text txt)
    \<Longrightarrow> py_format (base_fn_of i item txt) v = Inr (file_name i item v (sanitized_text txt))"
  by (simp add: py_format_base fmt_text_no_percent bind_err_simps)

lemma sanitized_text_percent:
  "CHR ''%'' \<notin> set (sanitized_text txt) \<longleftrightarrow> (\<forall>t. txt = Some t \<longrightarrow> CHR ''%'' \<notin> set (take 80 (replace_char CHR '':'' ''$3A'' t)))"
proof (cases "txt")
  case None
  then show ?thesis by (simp add: sanitized_text_def)
next
  case (Some t)
  have "CHR ''%'' \<in> set (replace_char CHR '' '' ''_'' xs) \<longleftrightarrow> CHR ''%'' \<in> set xs" for xs
    by (induction xs) (auto simp: replace_char_def)
  with Some show ?thesis by (simp add: sanitized_text_def)
qed

lemma file_name_no_space:
  "CHR '' '' \<notin> set marker \<Longrightarrow> CHR '' '' \<notin> set r \<Longrightarrow> CHR '' '' \<notin> set (file_name i item marker r)"
  using format_06d_other(3)[of i] sanitized_item_chars(2)[of item]
  by (simp add: file_name_def)

section \<open>test_step, stage by stage\<close>

lemma run_model_infer_state:
  "snd (run_model C s True st)
     = called (model_call s (unsqueeze_last (time_mel_masks s)) True None) st"
  by (simp add: run_model_def Let_def called_def)

lemma save_attn_file_frame:
  "save_attn_file hp outputs item st = Inr st'
    \<Longrightarrow> model_calls st' = model_calls st \<and> saving_result_pool st' = saving_result_pool st"
  by (auto simp: save_attn_file_def bind_err_def split: if_splits sum.splits)

lemma test_step_unfold:
  assumes "length (txt_tokens s) = 1"
  shows "test_step C hp s i st =
     (case run_model C s True st of
        (Inl e, st1) \<Rightarrow> (Inl e, st1)
      | (Inr (TrainResult l out), st1) \<Rightarrow> (Inl (TypeError ''tuple indices must be integers''), st1)
      | (Inr (InferResult outputs), st1) \<Rightarrow>
          (case first_items s outputs of
             Inl e \<Rightarrow> (Inl e, st1)
           | Inr (txt, item, tokens, mel_gt, mel_pred, mel2ph0) \<Rightarrow>
               (case fmt_text None (sanitized_text txt) of
                  Inl e \<Rightarrow> (Inl e, st1)
                | Inr r \<Rightarrow>
                    (case save_attn_file hp outputs item
                            (after_jobs C hp i item r tokens mel_gt mel_pred mel2ph0 st1) of
                       Inl e \<Rightarrow> (Inl e, after_jobs C hp i item r tokens mel_gt mel_pred mel2ph0 st1)
                     | Inr st4 \<Rightarrow> (Inr (description C i item txt r tokens), st4)))))"
  using assms
  by (simp add: test_step_def py_format_base bind_err_def save_gt_job_def Let_def after_jobs_def
      pred_job_def gt_job_def description_def add_job_def
      split: prod.splits sum.splits run_result.splits)

lemma after_jobs_frame:
  "model_calls (after_jobs C hp i item r tokens mel_gt mel_pred mel2ph0 st1) = model_calls st1"
  by (simp add: after_jobs_def add_job_def Let_def)

lemma after_jobs_pool:
  "saving_result_pool (after_jobs C hp i item r tokens mel_gt mel_pred mel2ph0 st1)
     = saving_result_pool st1
       @ pred_job C i item r tokens mel_pred st1
         # (if save_gt hp then [gt_job C i item r tokens mel_gt mel2ph0 st1] else [])"
  by (simp add: after_jobs_def add_job_def Let_def)

lemma run_model_infer_pool:
  "run_model C s True st = (res, st1) \<Longrightarrow> saving_result_pool st1 = saving_result_pool st"
  using run_model_infer_state[of C s st] by (simp add: called_def)

lemma first_items_fields:
  "first_items s outputs = Inr (txt, item, tokens, mel_gt, mel_pred, mel2ph0)
    \<Longrightarrow> index0 (sample_text s) = Inr txt \<and> index0 (item_name s) = Inr item"
  by (auto simp: first_items_def bind_err_def split: sum.splits)

text \<open>What a step that returns has done.\<close>

lemma test_step_returns:
  assumes "test_step C hp s i st = (Inr d, st')"
  shows "\<exists>item txt r tokens.
      index0 (sample_text s) = Inr txt \<and> index0 (item_name s) = Inr item
      \<and> fmt_text None (sanitized_text txt) = Inr r
      \<and> d = description C i item txt r tokens
      \<and> new_job_names st st'
          = file_name i item ''P'' r # (if save_gt hp then [file_name i item ''G'' r] else [])"
proof -
  have len: "length (txt_tokens s) = 1"
    using assms by (auto simp: test_step_def split: if_splits)
  obtain res st1 where run: "run_model C s True st = (res, st1)"
    by (cases "run_model C s True st")
  from assms obtain outputs where res: "res = Inr (InferResult outputs)"
    unfolding test_step_unfold[OF len] run
    by (auto split: sum.splits run_result.splits)
  from assms obtain tx item tokens mel_gt mel_pred mel2ph0
    where fi: "first_items s outputs = Inr (tx, item, tokens, mel_gt, mel_pred, mel2ph0)"
    unfolding test_step_unfold[OF len] run res
    by (auto split: sum.splits)
  from assms obtain r where r: "fmt_text None (sanitized_text tx) = Inr r"
    unfolding test_step_unfold[OF len] run res
    by (auto simp: fi split: sum.splits)
  let ?st3 = "after_jobs C hp i item r tokens mel_gt mel_pred mel2ph0 st1"
  from assms have sv: "save_attn_file hp outputs item ?st3 = Inr st'"
    and d: "d = description C i item tx r tokens"
    unfolding test_step_unfold[OF len] run res
    by (auto simp: fi r split: sum.splits)
  have "saving_result_pool st' = saving_result_pool st
       @ pred_job C i item r tokens mel_pred st1
         # (if save_gt hp then [gt_job C i item r tokens mel_gt mel2ph0 st1] else [])"
    using save_attn_file_frame[OF sv] run_model_infer_pool[OF run]
    by (simp add: after_jobs_pool)
  then have "new_job_names st st'
      = file_name i item ''P'' r # (if save_gt hp then [file_name i item ''G'' r] else [])"
    by (simp add: new_job_names_def pred_job_def gt_job_def)
  with first_items_fields[OF fi] r d show ?thesis by blast
qed

text \<open>When a step returns.\<close>

lemma test_step_succeeds:
  assumes "length (txt_tokens s) = 1" "mask_shape (time_mel_masks s) (mels s)"
    and "mel_out (infer_output C s) = Some pred" "same_shape3 pred (mels s)"
    and "mels s \<noteq> []" "mel2ph s \<noteq> []"
    and "index0 (sample_text s) = Inr txt" "index0 (item_name s) = Inr item"
    and "CHR ''%'' \<notin> set (sanitized_text txt)" "save_attn hp \<noteq> Some True"
  shows "\<exists>st'. test_step C hp s i st
     = (Inr (description C i item txt (sanitized_text txt) (hd (txt_tokens s))), st')"
proof -
  obtain tokens where tk: "txt_tokens s = [tokens]"
    using assms(1) by (cases "txt_tokens s") auto
  obtain g gs where g: "mels s = g # gs" using assms(5) by (cases "mels s") auto
  obtain ph phs where ph: "mel2ph s = ph # phs" using assms(6) by (cases "mel2ph s") auto
  let ?mo = "composite_spec pred (mels s) (time_mel_masks s)"
  have "length ?mo = length (mels s)"
    using assms(2,4) by (rule composite_spec_length)
  then obtain p ps where mo: "?mo = p # ps" using g by (cases ?mo) auto
  have ix: "index0 (txt_tokens s) = Inr tokens" "index0 (mels s) = Inr g"
    "index0 (mel2ph s) = Inr ph"
    by (simp_all add: index0_def tk g ph)
  have ix': "index0 ?mo = Inr p"
    by (simp add: index0_def mo)
  have fi: "first_items s ((infer_output C s)\<lparr>mel_out := Some ?mo\<rparr>)
      = Inr (txt, item, tokens, g, p, ph)"
    by (simp add: first_items_def bind_err_def get_key_def ix ix' assms(7,8))
  have sa: "save_attn_file hp outputs item st3 = Inr st3" for outputs st3
    using assms(10) by (cases "save_attn hp") (auto simp: save_attn_file_def)
  show ?thesis
    unfolding test_step_unfold[OF assms(1)] run_model_infer_eq[OF assms(2,3,4)]
    by (simp add: fi fmt_text_no_percent[OF assms(9)] sa tk)
qed

section \<open>No stage after the assertion raises an assertion error\<close>

lemma sequence_error:
  "sequence rs = Inl e \<Longrightarrow> Inl e \<in> set rs"
  by (induction rs arbitrary: e) (auto split: sum.splits)

lemma broadcast_error:
  assumes "broadcast f xs ys = Inl e" "\<And>x y e. f x y = Inl e \<Longrightarrow> \<not> is_assertion e"
  shows "\<not> is_assertion e"
proof -
  have seq: "\<not> is_assertion e" if "sequence rs = Inl e" "\<And>r. r \<in> set rs \<Longrightarrow> \<exists>x y. r = f x y"
    for rs
  proof -
    from that obtain x y where "Inl e = f x y"
      using sequence_error[of rs e] by blast
    then show ?thesis using assms(2)[of x y e] by simp
  qed
  show ?thesis
  proof (cases "length xs = length ys")
    case True
    with assms(1) have "sequence (map2 f xs ys) = Inl e" by (simp add: broadcast_def)
    then show ?thesis by (rule seq) auto
  next
    case neq: False
    show ?thesis
    proof (cases "length xs = 1")
      case True
      with neq assms(1) have "sequence (map (f (hd xs)) ys) = Inl e" by (simp add: broadcast_def)
      then show ?thesis by (rule seq) auto
    next
      case nx: False
      show ?thesis
      proof (cases "length ys = 1")
        case True
        with neq nx assms(1) have "sequence (map (\<lambda>x. f x (hd ys)) xs) = Inl e"
          by (simp add: broadcast_def)
        then show ?thesis by (rule seq) auto
      next
        case False
        with neq nx assms(1) show ?thesis by (auto simp: broadcast_def is_assertion_def)
      qed
    qed
  qed
qed

lemma elementwise3_error: "elementwise3 f x y = Inl e \<Longrightarrow> \<not> is_assertion e"
  unfolding elementwise3_def
  by (erule broadcast_error, erule broadcast_error, erule broadcast_error) simp

lemma composite_error: "composite x g tm = Inl e \<Longrightarrow> \<not> is_assertion e"
  by (auto simp: composite_def bind_err_def tmul_def tadd_def split: sum.splits
      dest: elementwise3_error)

lemma run_model_infer_error:
  "run_model C s True st = (Inl e, st1) \<Longrightarrow> \<not> is_assertion e"
  by (auto simp: run_model_def Let_def bind_err_def get_key_def is_assertion_def
      split: sum.splits option.splits dest: composite_error)

lemma first_items_error: "first_items s outputs = Inl e \<Longrightarrow> \<not> is_assertion e"
  by (auto simp: first_items_def bind_err_def get_key_def index0_def is_assertion_def
      split: sum.splits option.splits list.splits)

lemma save_attn_file_error: "save_attn_file hp outputs item st = Inl e \<Longrightarrow> \<not> is_assertion e"
  by (auto simp: save_attn_file_def bind_err_def get_key_def index0_def is_assertion_def
      split: sum.splits option.splits list.splits if_splits)

lemma fmt_spec_error_cases:
  assumes "fmt_spec ph lj w p a (c # cs) = Inl e"
  shows "(\<exists>ph' lj' w' p'. fmt_spec ph' lj' w' p' a cs = Inl e)
     \<or> fmt_text a cs = Inl e \<or> fmt_text None cs = Inl e \<or> \<not> is_assertion e"
  using assms
  apply (simp only: fmt_spec.simps)
  apply (split if_split_asm)
   apply (cases "fmt_text a cs"; simp add: bind_err_def)
  apply (split if_split_asm, (clarsimp simp: is_assertion_def)[1])
  apply (split if_split_asm, blast)
  apply (split if_split_asm, (clarsimp simp: is_assertion_def split: option.splits)[1])
  apply (split if_split_asm)
   apply (split if_split_asm, (clarsimp simp: is_assertion_def)[1], blast)
  apply (split if_split_asm, blast)
  apply (split if_split_asm)
   apply (split if_split_asm, (clarsimp simp: is_assertion_def)[1], blast)
  apply (split if_split_asm, blast)
  apply (cases a)
   apply (clarsimp simp: is_assertion_def)
  apply (simp only: option.case)
  apply (split if_split_asm)
   apply (cases "fmt_text None cs"; simp add: bind_err_def)
  apply (split if_split_asm)
   apply (cases "fmt_text None cs"; simp add: bind_err_def)
  apply (split if_split_asm)
   apply (split if_split_asm)
    apply (cases "fmt_text None cs"; simp add: bind_err_def)
   apply (clarsimp simp: is_assertion_def)
  apply (split if_split_asm; clarsimp simp: is_assertion_def)
  done

lemma fmt_error_aux:
  "(\<forall>a e. fmt_text a xs = Inl e \<longrightarrow> \<not> is_assertion e)
   \<and> (\<forall>ph lj w p a e. fmt_spec ph lj w p a xs = Inl e \<longrightarrow> \<not> is_assertion e)"
proof (induction xs)
  case Nil
  show ?case by (auto simp: is_assertion_def split: option.splits)
next
  case (Cons c cs)
  from Cons have t: "\<And>a e. fmt_text a cs = Inl e \<Longrightarrow> \<not> is_assertion e"
    and s: "\<And>ph lj w p a e. fmt_spec ph lj w p a cs = Inl e \<Longrightarrow> \<not> is_assertion e"
    by blast+
  have a: "\<not> is_assertion e" if "fmt_text a (c # cs) = Inl e" for a e
  proof (cases "c = CHR ''%''")
    case True
    with that s[of Start False 0 None a e] show ?thesis by simp
  next
    case False
    with that have "fmt_text a cs = Inl e"
      by (auto simp: bind_err_def split: sum.splits)
    then show ?thesis by (rule t)
  qed
  have b: "\<not> is_assertion e" if "fmt_spec ph lj w p a (c # cs) = Inl e" for ph lj w p a e
    using fmt_spec_error_cases[OF that] s t by blast
  from a b show ?case by blast
qed

lemma fmt_text_error: "fmt_text a xs = Inl e \<Longrightarrow> \<not> is_assertion e"
  using fmt_error_aux[of xs] by blast

lemma test_step_proceeds:
  assumes "length (txt_tokens s) = 1"
  shows "model_calls (snd (test_step C hp s i st))
       = model_calls st @ [model_call s (unsqueeze_last (time_mel_masks s)) True None]
     \<and> (\<forall>e. fst (test_step C hp s i st) = Inl e \<longrightarrow> \<not> is_assertion e)"
proof -
  obtain res st1 where run: "run_model C s True st = (res, st1)"
    by (cases "run_model C s True st")
  have st1: "model_calls st1
      = model_calls st @ [model_call s (unsqueeze_last (time_mel_masks s)) True None]"
    using run_model_infer_state[of C s st] run by (simp add: called_def)
  show ?thesis
  proof (cases res)
    case (Inl e)
    with run run_model_infer_error[of C s st e st1] st1 show ?thesis
      by (simp add: test_step_unfold[OF assms])
  next
    case (Inr x)
    show ?thesis
    proof (cases x)
      case (TrainResult l out)
      with Inr run run_model_True_not_train[of C s st l out] show ?thesis by simp
    next
      case (InferResult outputs)
      note u = test_step_unfold[OF assms, of C hp i st, unfolded run Inr InferResult]
      show ?thesis
      proof (cases "first_items s outputs")
        case (Inl e)
        with u first_items_error[of s outputs e] st1 show ?thesis by simp
      next
        case fi: (Inr v)
        obtain tx item tokens mel_gt mel_pred mel2ph0
          where v: "v = (tx, item, tokens, mel_gt, mel_pred, mel2ph0)"
          by (cases v)
        show ?thesis
        proof (cases "fmt_text None (sanitized_text tx)")
          case (Inl e)
          with u fi v fmt_text_error[of None "sanitized_text tx" e] st1 show ?thesis by simp
        next
          case r: (Inr r)
          let ?st3 = "after_jobs C hp i item r tokens mel_gt mel_pred mel2ph0 st1"
          show ?thesis
          proof (cases "save_attn_file hp outputs item ?st3")
            case (Inl e)
            with u fi v r save_attn_file_error[of hp outputs item ?st3 e] st1 show ?thesis
              by (simp add: after_jobs_frame)
          next
            case (Inr st4)
            with u fi v r save_attn_file_frame[of hp outputs item ?st3 st4] st1 show ?thesis
              by (simp add: after_jobs_frame)
          qed
        qed
      qed
    qed
  qed
qed

text \<open>
  Claim C6. \<open>test_step\<close> on a batch whose token tensor does not have exactly one row
  fails with the assertion error of line 157 and leaves the state as it was: the
  model has not been called and no job has been added. On a batch of one row the
  step calls the model once, and whatever it returns or raises afterwards is not an
  assertion error.
\<close>

theorem test_step_batch_size:
  "(length (txt_tokens s) \<noteq> 1 \<longrightarrow>
      test_step C hp s batch_idx st
        = (Inl (AssertionError ''only support batch_size=1 in inference''), st))
   \<and> (length (txt_tokens s) = 1 \<longrightarrow>
        model_calls (snd (test_step C hp s batch_idx st))
          = model_calls st @ [model_call s (unsqueeze_last (time_mel_masks s)) True None]
        \<and> (\<forall>e. fst (test_step C hp s batch_idx st) = Inl e \<longrightarrow> \<not> is_assertion e))"
  using test_step_proceeds[of s C hp batch_idx st] by (simp add: test_step_def)

theorem test_step_batch_size_witness:
  "length (txt_tokens two_items) \<noteq> 1
   \<and> test_step demo_collab demo_hparams two_items 0 demo_task
        = (Inl (AssertionError ''only support batch_size=1 in inference''), demo_task)
   \<and> length (txt_tokens demo_sample) = 1
   \<and> model_calls (snd (test_step demo_collab demo_hparams demo_sample 0 demo_task))
        = [model_call demo_sample (unsqueeze_last (time_mel_masks demo_sample)) True None]"
proof -
  have a: "length (txt_tokens two_items) \<noteq> 1" "length (txt_tokens demo_sample) = 1"
    "model_calls demo_task = []"
    by (simp_all add: two_items_def demo_sample_def demo_task_def)
  show ?thesis
    using test_step_batch_size[of two_items demo_collab demo_hparams 0 demo_task]
      test_step_batch_size[of demo_sample demo_collab demo_hparams 0 demo_task] a
    by simp
qed

lemma demo_text:
  "sanitized_text (Some ''hi there: ok'') = ''hi_there$3A_ok''"
  "sanitized_item ''utt%1 a'' = ''utt_1_a''"
  by (simp_all add: sanitized_text_def sanitized_item_def replace_char_def)

lemma demo_format: "format_06d 3 = ''000003''" "format_06d 4 = ''000004''"
  by code_simp+

lemma demo_test_step:
  "\<exists>st'. test_step demo_collab demo_hparams demo_sample i demo_task
     = (Inr (description demo_collab i ''utt%1 a'' (Some ''hi there: ok'') ''hi_there$3A_ok''
               [5, 7]), st')"
proof -
  have h: "length (txt_tokens demo_sample) = 1" "mels demo_sample \<noteq> []"
    "mel2ph demo_sample \<noteq> []" "index0 (sample_text demo_sample) = Inr (Some ''hi there: ok'')"
    "index0 (item_name demo_sample) = Inr ''utt%1 a''"
    "CHR ''%'' \<notin> set (sanitized_text (Some ''hi there: ok''))"
    "save_attn demo_hparams \<noteq> Some True" "hd (txt_tokens demo_sample) = [5, 7]"
    by (simp_all add: demo_sample_def index0_def demo_text demo_hparams_def)
  show ?thesis
    using test_step_succeeds[OF h(1) demo_shapes(1) demo_outputs(1) demo_shapes(2) h(2,3,4,5,6,7),
        of i demo_task]
    by (simp add: h(8) demo_text)
qed

text \<open>
  Claim C10. The dictionary that \<open>test_step\<close> returns holds under
  \<^verbatim>\<open>'wav_fn_pred'\<close> the base file name formatted with the marker \<open>P\<close> and under
  \<^verbatim>\<open>'wav_fn_gt'\<close> the base file name formatted with the marker \<open>G\<close>, whether or not
  ground-truth artifacts are saved: when \<^verbatim>\<open>save_gt\<close> is off the only job added is
  the one named with \<open>P\<close>, and the entry \<^verbatim>\<open>'wav_fn_gt'\<close> is there all the same.
  The step returns on a batch of one item with matching shapes whose text has no
  \<open>%\<close>, when no attention map is saved.
\<close>

theorem test_step_description:
  "(\<forall>d st'. test_step C hp s batch_idx st = (Inr d, st') \<longrightarrow>
      (\<exists>item tx r.
         index0 (item_name s) = Inr item \<and> index0 (sample_text s) = Inr tx
         \<and> py_format (base_fn_of batch_idx item tx) ''P'' = Inr (file_name batch_idx item ''P'' r)
         \<and> py_format (base_fn_of batch_idx item tx) ''G'' = Inr (file_name batch_idx item ''G'' r)
         \<and> map fst d = [''item_name'', ''text'', ''ph_tokens'', ''wav_fn_pred'', ''wav_fn_gt'']
         \<and> map_of d ''wav_fn_pred'' = Some (DStr (file_name batch_idx item ''P'' r))
         \<and> map_of d ''wav_fn_gt'' = Some (DStr (file_name batch_idx item ''G'' r))
         \<and> (\<not> save_gt hp \<longrightarrow> new_job_names st st' = [file_name batch_idx item ''P'' r])))
   \<and> (\<forall>pred tx item.
        length (txt_tokens s) = 1 \<and> mask_shape (time_mel_masks s) (mels s)
        \<and> mel_out (infer_output C s) = Some pred \<and> same_shape3 pred (mels s)
        \<and> mels s \<noteq> [] \<and> mel2ph s \<noteq> []
        \<and> index0 (sample_text s) = Inr tx \<and> index0 (item_name s) = Inr item
        \<and> CHR ''%'' \<notin> set (sanitized_text tx) \<and> save_attn hp \<noteq> Some True
        \<longrightarrow> (\<exists>d st'. test_step C hp s batch_idx st = (Inr d, st')))"
proof (intro conjI allI impI)
  fix d st' assume t: "test_step C hp s batch_idx st = (Inr d, st')"
  from test_step_returns[OF t] obtain item tx r tokens where
    h: "index0 (sample_text s) = Inr tx" "index0 (item_name s) = Inr item"
      "fmt_text None (sanitized_text tx) = Inr r" "d = description C batch_idx item tx r tokens"
      "new_job_names st st' = file_name batch_idx item ''P'' r
         # (if save_gt hp then [file_name batch_idx item ''G'' r] else [])"
    by blast
  have "py_format (base_fn_of batch_idx item tx) v = Inr (file_name batch_idx item v r)" for v
    by (simp add: py_format_base h(3) bind_err_simps)
  with h show "\<exists>item tx r.
         index0 (item_name s) = Inr item \<and> index0 (sample_text s) = Inr tx
         \<and> py_format (base_fn_of batch_idx item tx) ''P'' = Inr (file_name batch_idx item ''P'' r)
         \<and> py_format (base_fn_of batch_idx item tx) ''G'' = Inr (file_name batch_idx item ''G'' r)
         \<and> map fst d = [''item_name'', ''text'', ''ph_tokens'', ''wav_fn_pred'', ''wav_fn_gt'']
         \<and> map_of d ''wav_fn_pred'' = Some (DStr (file_name batch_idx item ''P'' r))
         \<and> map_of d ''wav_fn_gt'' = Some (DStr (file_name batch_idx item ''G'' r))
         \<and> (\<not> save_gt hp \<longrightarrow> new_job_names st st' = [file_name batch_idx item ''P'' r])"
    by (intro exI[of _ item] exI[of _ tx] exI[of _ r]) (simp add: description_def)
next
  fix pred tx item
  assume "length (txt_tokens s) = 1 \<and> mask_shape (time_mel_masks s) (mels s)
        \<and> mel_out (infer_output C s) = Some pred \<and> same_shape3 pred (mels s)
        \<and> mels s \<noteq> [] \<and> mel2ph s \<noteq> []
        \<and> index0 (sample_text s) = Inr tx \<and> index0 (item_name s) = Inr item
        \<and> CHR ''%'' \<notin> set (sanitized_text tx) \<and> save_attn hp \<noteq> Some True"
  then show "\<exists>d st'. test_step C hp s batch_idx st = (Inr d, st')"
    using test_step_succeeds[of s C pred tx item hp batch_idx st] by blast
qed

theorem test_step_description_witness:
  "\<exists>d st'. test_step demo_collab demo_hparams demo_sample 3 demo_task = (Inr d, st')
     \<and> \<not> save_gt demo_hparams
     \<and> map_of d ''wav_fn_pred'' = Some (DStr ''[000003][utt_1_a][P]hi_there$3A_ok'')
     \<and> map_of d ''wav_fn_gt'' = Some (DStr ''[000003][utt_1_a][G]hi_there$3A_ok'')
     \<and> new_job_names demo_task st' = [''[000003][utt_1_a][P]hi_there$3A_ok'']"
proof -
  obtain st' where t: "test_step demo_collab demo_hparams demo_sample 3 demo_task
     = (Inr (description demo_collab 3 ''utt%1 a'' (Some ''hi there: ok'') ''hi_there$3A_ok''
               [5, 7]), st')"
    using demo_test_step[of 3] by blast
  have n: "\<not> save_gt demo_hparams" by (simp add: demo_hparams_def)
  note f = test_step_description[of demo_collab demo_hparams demo_sample 3 demo_task,
      THEN conjunct1, rule_format, OF t]
  from f n obtain item tx r where
    h: "map_of (description demo_collab 3 ''utt%1 a'' (Some ''hi there: ok'') ''hi_there$3A_ok''
               [5, 7]) ''wav_fn_pred'' = Some (DStr (file_name 3 item ''P'' r))"
      "new_job_names demo_task st' = [file_name 3 item ''P'' r]"
    by blast
  have p: "file_name 3 item ''P'' r = ''[000003][utt_1_a][P]hi_there$3A_ok''"
    using h(1) by (simp add: description_def file_name_def demo_text demo_format)
  show ?thesis
    using t n h(2) p
    by (simp add: description_def file_name_def demo_text demo_format)
qed

lemma new_job_names_index:
  assumes "test_step C hp s i st = (Inr d, st')" "n \<in> set (new_job_names st st')"
  shows "index_of_name n = i \<and> CHR '' '' \<notin> set n"
proof -
  from test_step_returns[OF assms(1)] obtain item tx r where
    r: "fmt_text None (sanitized_text tx) = Inr r"
    and names: "new_job_names st st'
      = file_name i item ''P'' r # (if save_gt hp then [file_name i item ''G'' r] else [])"
    by blast
  have "CHR '' '' \<notin> set r"
    using fmt_chars[OF r] sanitized_text_chars(2)[of tx] by blast
  then have "CHR '' '' \<notin> set (file_name i item ''P'' r)" "CHR '' '' \<notin> set (file_name i item ''G'' r)"
    by (simp_all add: file_name_no_space)
  moreover from assms(2) names have "n = file_name i item ''P'' r \<or> n = file_name i item ''G'' r"
    by (auto split: if_splits)
  ultimately show ?thesis
    by (auto simp: index_of_file_name)
qed

text \<open>
  Claim C9. When \<open>test_step\<close> returns, the jobs it added are named by the base file
  name formatted with \<open>P\<close> for the prediction and, when \<^verbatim>\<open>save_gt\<close> is on, with
  \<open>G\<close> for the ground truth. A name is the batch index padded with zeros to six
  digits, the item name with \<open>%\<close> and spaces replaced by \<open>_\<close>, the marker, and the
  raw text with \<open>:\<close> replaced by \<open>$3A\<close>, cut to 80 characters, its spaces replaced by
  \<open>_\<close> (and as the format operator leaves it, which is unchanged when it has no
  \<open>%\<close>). No name has a space, the batch index can be read back from every name, and
  so the names of two steps with different batch indices are different. The step
  returns on a batch of one item with matching shapes whose text has no \<open>%\<close>, when
  no attention map is saved.
\<close>

theorem test_step_file_names:
  "(\<forall>d st'. test_step C hp s batch_idx st = (Inr d, st') \<longrightarrow>
      (\<exists>item tx r.
         index0 (item_name s) = Inr item \<and> index0 (sample_text s) = Inr tx
         \<and> fmt_text None (sanitized_text tx) = Inr r
         \<and> (CHR ''%'' \<notin> set (sanitized_text tx) \<longrightarrow> r = sanitized_text tx)
         \<and> new_job_names st st'
             = file_name batch_idx item ''P'' r
               # (if save_gt hp then [file_name batch_idx item ''G'' r] else [])
         \<and> CHR ''%'' \<notin> set (sanitized_item item) \<and> CHR '' '' \<notin> set (sanitized_item item)
         \<and> CHR '':'' \<notin> set (sanitized_text tx) \<and> CHR '' '' \<notin> set (sanitized_text tx))
      \<and> (\<forall>n \<in> set (new_job_names st st'). CHR '' '' \<notin> set n \<and> index_of_name n = batch_idx)
      \<and> (\<forall>C2 hp2 s2 j st2 d2 st2'.
            test_step C2 hp2 s2 j st2 = (Inr d2, st2') \<and> j \<noteq> batch_idx
            \<longrightarrow> set (new_job_names st st') \<inter> set (new_job_names st2 st2') = {}))
   \<and> (\<forall>pred tx item.
        length (txt_tokens s) = 1 \<and> mask_shape (time_mel_masks s) (mels s)
        \<and> mel_out (infer_output C s) = Some pred \<and> same_shape3 pred (mels s)
        \<and> mels s \<noteq> [] \<and> mel2ph s \<noteq> []
        \<and> index0 (sample_text s) = Inr tx \<and> index0 (item_name s) = Inr item
        \<and> CHR ''%'' \<notin> set (sanitized_text tx) \<and> save_attn hp \<noteq> Some True
        \<longrightarrow> (\<exists>d st'. test_step C hp s batch_idx st = (Inr d, st')))"
proof (intro conjI allI impI)
  fix d st' assume t: "test_step C hp s batch_idx st = (Inr d, st')"
  from test_step_returns[OF t] obtain item tx r where
    h: "index0 (sample_text s) = Inr tx" "index0 (item_name s) = Inr item"
      "fmt_text None (sanitized_text tx) = Inr r"
      "new_job_names st st' = file_name batch_idx item ''P'' r
         # (if save_gt hp then [file_name batch_idx item ''G'' r] else [])"
    by blast
  have "r = sanitized_text tx" if "CHR ''%'' \<notin> set (sanitized_text tx)"
    using fmt_text_no_percent[OF that] h(3) by simp
  with h sanitized_item_chars[of item] sanitized_text_chars[of tx]
  show "\<exists>item tx r.
         index0 (item_name s) = Inr item \<and> index0 (sample_text s) = Inr tx
         \<and> fmt_text None (sanitized_text tx) = Inr r
         \<and> (CHR ''%'' \<notin> set (sanitized_text tx) \<longrightarrow> r = sanitized_text tx)
         \<and> new_job_names st st'
             = file_name batch_idx item ''P'' r
               # (if save_gt hp then [file_name batch_idx item ''G'' r] else [])
         \<and> CHR ''%'' \<notin> set (sanitized_item item) \<and> CHR '' '' \<notin> set (sanitized_item item)
         \<and> CHR '':'' \<notin> set (sanitized_text tx) \<and> CHR '' '' \<notin> set (sanitized_text tx)"
    by blast
next
  fix d st' assume t: "test_step C hp s batch_idx st = (Inr d, st')"
  show "\<forall>n \<in> set (new_job_names st st'). CHR '' '' \<notin> set n \<and> index_of_name n = batch_idx"
    using new_job_names_index[OF t] by blast
next
  fix d st' C2 hp2 s2 j st2 d2 st2'
  assume t: "test_step C hp s batch_idx st = (Inr d, st')"
    and t2: "test_step C2 hp2 s2 j st2 = (Inr d2, st2') \<and> j \<noteq> batch_idx"
  show "set (new_job_names st st') \<inter> set (new_job_names st2 st2') = {}"
  proof (rule ccontr)
    assume "set (new_job_names st st') \<inter> set (new_job_names st2 st2') \<noteq> {}"
    then obtain n where "n \<in> set (new_job_names st st')" "n \<in> set (new_job_names st2 st2')"
      by blast
    then have "index_of_name n = batch_idx" "index_of_name n = j"
      using new_job_names_index[OF t] new_job_names_index[of C2 hp2 s2 j st2 d2 st2'] t2
      by blast+
    with t2 show False by simp
  qed
next
  fix pred tx item
  assume "length (txt_tokens s) = 1 \<and> mask_shape (time_mel_masks s) (mels s)
        \<and> mel_out (infer_output C s) = Some pred \<and> same_shape3 pred (mels s)
        \<and> mels s \<noteq> [] \<and> mel2ph s \<noteq> []
        \<and> index0 (sample_text s) = Inr tx \<and> index0 (item_name s) = Inr item
        \<and> CHR ''%'' \<notin> set (sanitized_text tx) \<and> save_attn hp \<noteq> Some True"
  then show "\<exists>d st'. test_step C hp s batch_idx st = (Inr d, st')"
    using test_step_succeeds[of s C pred tx item hp batch_idx st] by blast
qed

theorem test_step_file_names_witness:
  "\<exists>d st' d2 st2'.
     test_step demo_collab demo_hparams demo_sample 3 demo_task = (Inr d, st')
     \<and> test_step demo_collab demo_hparams demo_sample 4 demo_task = (Inr d2, st2')
     \<and> new_job_names demo_task st' = [''[000003][utt_1_a][P]hi_there$3A_ok'']
     \<and> index_of_name ''[000003][utt_1_a][P]hi_there$3A_ok'' = 3
     \<and> set (new_job_names demo_task st') \<inter> set (new_job_names demo_task st2') = {}"
proof -
  let ?d = "\<lambda>i. description demo_collab i ''utt%1 a'' (Some ''hi there: ok'') ''hi_there$3A_ok''
               [5, 7]"
  obtain st' where t: "test_step demo_collab demo_hparams demo_sample 3 demo_task
     = (Inr (?d 3), st')"
    using demo_test_step[of 3] by blast
  obtain st2' where t2: "test_step demo_collab demo_hparams demo_sample 4 demo_task
     = (Inr (?d 4), st2')"
    using demo_test_step[of 4] by blast
  note f = test_step_file_names[of demo_collab demo_hparams demo_sample 3 demo_task,
      THEN conjunct1, rule_format, OF t]
  have ix: "index0 (item_name demo_sample) = Inr ''utt%1 a''"
    "index0 (sample_text demo_sample) = Inr (Some ''hi there: ok'')"
    "\<not> save_gt demo_hparams"
    by (simp_all add: demo_sample_def index0_def demo_hparams_def)
  from f obtain item tx r where
    h: "index0 (item_name demo_sample) = Inr item" "index0 (sample_text demo_sample) = Inr tx"
      "fmt_text None (sanitized_text tx) = Inr r"
      "new_job_names demo_task st'
         = file_name 3 item ''P'' r
           # (if save_gt demo_hparams then [file_name 3 item ''G'' r] else [])"
    by blast
  from h(1,2) ix have it: "item = ''utt%1 a''" "tx = Some ''hi there: ok''" by simp_all
  have "r = ''hi_there$3A_ok''"
    using h(3) by (simp add: it demo_text bind_err_def)
  then have n': "new_job_names demo_task st' = [''[000003][utt_1_a][P]hi_there$3A_ok'']"
    using h(4) ix(3) by (simp add: it file_name_def demo_text demo_format)
  from f have "\<forall>n \<in> set (new_job_names demo_task st'). index_of_name n = 3"
    by blast
  with n' have i: "index_of_name ''[000003][utt_1_a][P]hi_there$3A_ok'' = 3"
    by simp
  from f have "test_step demo_collab demo_hparams demo_sample 4 demo_task = (Inr (?d 4), st2')
      \<and> (4::int) \<noteq> 3
      \<longrightarrow> set (new_job_names demo_task st') \<inter> set (new_job_names demo_task st2') = {}"
    by blast
  with t2 have "set (new_job_names demo_task st') \<inter> set (new_job_names demo_task st2') = {}"
    by simp
  with t t2 n' i show ?thesis by blast
qed

section \<open>The scheduler hook\<close>

lemma on_after_optimization_some:
  assumes "scheduler st = Some (sch # rest)" "accumulate_grad_batches hp \<noteq> 0"
  shows "on_after_optimization hp epoch batch_idx optimizer_idx st
     = (Inr (), st\<lparr>scheduler :=
          Some ((sch @ [global_step st div accumulate_grad_batches hp]) # rest)\<rparr>)"
  using assms by (simp add: on_after_optimization_def)

lemma after_steps_trace:
  assumes "accumulate_grad_batches hp \<noteq> 0"
  shows "scheduler st = Some (sch # rest)
    \<Longrightarrow> \<exists>st'. after_steps hp gs st = (Inr (), st')
          \<and> scheduler st' = Some ((sch @ map (\<lambda>g. g div accumulate_grad_batches hp) gs) # rest)"
proof (induction gs arbitrary: st sch)
  case Nil
  then show ?case by simp
next
  case (Cons g gs)
  let ?st1 = "st\<lparr>global_step := g,
      scheduler := Some ((sch @ [g div accumulate_grad_batches hp]) # rest)\<rparr>"
  have step: "on_after_optimization hp 0 0 0 (st\<lparr>global_step := g\<rparr>) = (Inr (), ?st1)"
    using Cons.prems assms by (simp add: on_after_optimization_def)
  have "scheduler ?st1 = Some ((sch @ [g div accumulate_grad_batches hp]) # rest)" by simp
  from Cons.IH[OF this] show ?case by (simp add: step)
qed

lemma raw_steps_Suc: "raw_steps g0 (Suc n) = (g0 + 1) # raw_steps (g0 + 1) n"
proof -
  have "[0..<Suc n] = 0 # map Suc [0..<n]"
    by (simp add: upt_conv_Cons map_Suc_upt del: upt_Suc)
  then show ?thesis
    by (simp add: raw_steps_def comp_def del: upt_Suc)
qed

lemma div_step:
  assumes "0 < (k::int)"
  shows "(g + 1) div k = g div k \<or> (g + 1) div k = g div k + 1"
proof -
  have a: "g div k \<le> (g + 1) div k" by (rule zdiv_mono1) (use assms in simp_all)
  have "(g + 1) div k \<le> (g + k) div k" by (rule zdiv_mono1) (use assms in simp_all)
  also have "\<dots> = g div k + 1" using assms by simp
  finally show ?thesis using a by linarith
qed

lemma advances_raw_steps:
  assumes "0 < (k::int)"
  shows "advances (g0 div k) (map (\<lambda>g. g div k) (raw_steps g0 n))
     = nat ((g0 + int n) div k - g0 div k)"
proof (induction n arbitrary: g0)
  case 0
  show ?case by (simp add: raw_steps_def)
next
  case (Suc n)
  have mono: "(g0 + 1) div k \<le> (g0 + 1 + int n) div k"
    by (rule zdiv_mono1) (use assms in simp_all)
  have eq: "g0 + int (Suc n) = g0 + 1 + int n" by simp
  from div_step[OF assms, of g0] show ?case
  proof
    assume same: "(g0 + 1) div k = g0 div k"
    then show ?thesis
      using Suc[of "g0 + 1"] by (simp add: raw_steps_Suc eq del: of_nat_Suc)
  next
    assume next_pos: "(g0 + 1) div k = g0 div k + 1"
    then show ?thesis
      using Suc[of "g0 + 1"] mono by (simp add: raw_steps_Suc eq del: of_nat_Suc)
  qed
qed

lemma advances_from_zero:
  assumes "0 < (k::int)"
  shows "advances 0 (map (\<lambda>g. g div k) (raw_steps 0 n)) = n div nat k"
proof -
  have "int n div k = int (n div nat k)"
    using assms by (simp add: zdiv_int)
  then show ?thesis
    using advances_raw_steps[OF assms, of 0 n] by simp
qed

lemma schedule_trace_simps:
  "scheduler st = Some (sch # rest) \<Longrightarrow> schedule_trace st = sch"
  by (simp add: schedule_trace_def)

text \<open>
  Claim C7. Without a scheduler the hook does nothing. With one, and a
  gradient-accumulation factor \<open>k > 0\<close>, each call hands the first scheduler the
  position \<open>global_step // k\<close> and changes nothing else. When the counter
  \<open>global_step\<close> is incremented before each call, the positions of \<open>n\<close> calls after
  the counter value \<open>g0\<close> are \<open>(g0 + 1) // k, ..., (g0 + n) // k\<close>, and the position
  moves \<open>(g0 + n) // k - g0 // k\<close> times: from the start of training, \<open>n // k\<close> times
  in \<open>n\<close> calls.
\<close>

theorem scheduler_steps:
  assumes "0 < accumulate_grad_batches hp"
  shows "(scheduler st = None
          \<longrightarrow> on_after_optimization hp epoch batch_idx optimizer_idx st = (Inr (), st))
     \<and> (\<forall>sch rest. scheduler st = Some (sch # rest)
          \<longrightarrow> on_after_optimization hp epoch batch_idx optimizer_idx st
                = (Inr (), st\<lparr>scheduler :=
                     Some ((sch @ [global_step st div accumulate_grad_batches hp]) # rest)\<rparr>)
            \<and> (\<forall>gs. \<exists>st'. after_steps hp gs st = (Inr (), st')
                  \<and> schedule_trace st'
                      = sch @ map (\<lambda>g. g div accumulate_grad_batches hp) gs))
     \<and> (\<forall>g0 n. advances (g0 div accumulate_grad_batches hp)
                  (map (\<lambda>g. g div accumulate_grad_batches hp) (raw_steps g0 n))
                = nat ((g0 + int n) div accumulate_grad_batches hp
                       - g0 div accumulate_grad_batches hp))
     \<and> (\<forall>n. advances 0 (map (\<lambda>g. g div accumulate_grad_batches hp) (raw_steps 0 n))
                = n div nat (accumulate_grad_batches hp))"
proof (intro conjI allI impI)
  assume "scheduler st = None"
  then show "on_after_optimization hp epoch batch_idx optimizer_idx st = (Inr (), st)"
    by (simp add: on_after_optimization_def)
next
  fix sch rest assume s: "scheduler st = Some (sch # rest)"
  show "on_after_optimization hp epoch batch_idx optimizer_idx st
      = (Inr (), st\<lparr>scheduler :=
           Some ((sch @ [global_step st div accumulate_grad_batches hp]) # rest)\<rparr>)"
    using on_after_optimization_some[OF s] assms by simp
  fix gs
  have "accumulate_grad_batches hp \<noteq> 0" using assms by simp
  from after_steps_trace[OF this s, of gs]
  show "\<exists>st'. after_steps hp gs st = (Inr (), st')
      \<and> schedule_trace st' = sch @ map (\<lambda>g. g div accumulate_grad_batches hp) gs"
    by (auto simp: schedule_trace_simps)
next
  fix g0 n
  show "advances (g0 div accumulate_grad_batches hp)
          (map (\<lambda>g. g div accumulate_grad_batches hp) (raw_steps g0 n))
        = nat ((g0 + int n) div accumulate_grad_batches hp - g0 div accumulate_grad_batches hp)"
    by (rule advances_raw_steps[OF assms])
next
  fix n
  show "advances 0 (map (\<lambda>g. g div accumulate_grad_batches hp) (raw_steps 0 n))
        = n div nat (accumulate_grad_batches hp)"
    by (rule advances_from_zero[OF assms])
qed

lemma raw_steps_eight: "raw_steps 0 8 = [1, 2, 3, 4, 5, 6, 7, 8]"
  by (simp add: raw_steps_def upt_rec)

theorem scheduler_steps_witness:
  "0 < accumulate_grad_batches demo_hparams
   \<and> scheduler demo_task = Some ([] # [])
   \<and> (\<exists>st'. after_steps demo_hparams [1, 2, 3, 4, 5, 6, 7, 8] demo_task = (Inr (), st')
         \<and> schedule_trace st' = [0, 0, 0, 1, 1, 1, 1, 2])
   \<and> advances 0 [0, 0, 0, 1, 1, 1, 1, 2] = 2"
proof -
  have k: "accumulate_grad_batches demo_hparams = 4" by (simp add: demo_hparams_def)
  have p: "0 < accumulate_grad_batches demo_hparams" by (simp add: k)
  have s: "scheduler demo_task = Some ([] # [])" by (simp add: demo_task_def)
  note t = scheduler_steps[OF p, of demo_task 0 0 0]
  from t s have "\<exists>st'. after_steps demo_hparams [1, 2, 3, 4, 5, 6, 7, 8] demo_task = (Inr (), st')
      \<and> schedule_trace st'
          = [] @ map (\<lambda>g. g div accumulate_grad_batches demo_hparams) [1, 2, 3, 4, 5, 6, 7, 8]"
    by blast
  then have a: "\<exists>st'. after_steps demo_hparams [1, 2, 3, 4, 5, 6, 7, 8] demo_task = (Inr (), st')
      \<and> schedule_trace st' = [0, 0, 0, 1, 1, 1, 1, 2]"
    by (simp add: k)
  from t have "advances 0 (map (\<lambda>g. g div accumulate_grad_batches demo_hparams) (raw_steps 0 8))
      = 8 div nat (accumulate_grad_batches demo_hparams)"
    by blast
  then have b: "advances 0 [0, 0, 0, 1, 1, 1, 1, 2] = 2"
    by (simp add: k raw_steps_eight)
  from p s a b show ?thesis by blast
qed


section \<open>The alignment statistics\<close>

lemma attn_ks_same_length:
  assumes "length (txt_lengths s) = length (mel_lengths s)"
  shows "attn_ks_of s
     = Inr (map2 (\<lambda>a b. fdiv (float_of_int a) (float_of_int b)) (txt_lengths s) (mel_lengths s))"
proof -
  have "attn_ks_of s
      = Inr (map2 fdiv (map float_of_int (txt_lengths s)) (map float_of_int (mel_lengths s)))"
    unfolding attn_ks_of_def using assms by (intro broadcast_same) auto
  also have "map2 fdiv (map float_of_int (txt_lengths s)) (map float_of_int (mel_lengths s))
      = map2 (\<lambda>a b. fdiv (float_of_int a) (float_of_int b)) (txt_lengths s) (mel_lengths s)"
    by (simp add: zip_map1 zip_map2 case_prod_unfold)
  finally show ?thesis .
qed

lemma stat_keys_distinct: "distinct (stat_keys prefix)"
  by (simp add: stat_keys_def)

lemma get_attn_stats_eq:
  assumes "attn_ks_of s = Inr ks"
  shows "get_attn_stats C a s l prefix st
     = Inr (AList.update (prefix @ ''dfr'')
              (Tensor (tensor_mean C (fst (get_diagonal_focus_rate C a ks
                 (map float_of_int (mel_lengths s)) (src_padding_mask_of s)
                 (target_padding_mask_of C s)))) False)
           (AList.update (prefix @ ''pcr'')
              (Tensor (tensor_mean C [tensor_mean C (get_phone_coverage_rate C a
                 (src_padding_mask_of s) (src_seg_mask_of st s) (target_padding_mask_of C s))])
                 False)
           (AList.update (prefix @ ''fr'')
              (Tensor (tensor_mean C [tensor_mean C (get_focus_rate C a (src_padding_mask_of s)
                 (target_padding_mask_of C s))]) False) l)))"
  by (simp add: get_attn_stats_def Let_def assms bind_err_def case_prod_unfold)

lemma map_of_update3:
  assumes "distinct [k1, k2, k3]"
  shows "map_of (AList.update k3 v3 (AList.update k2 v2 (AList.update k1 v1 l))) k
     = (if k = k3 then Some v3 else if k = k2 then Some v2 else if k = k1 then Some v1
        else map_of l k)"
  using assms by (simp add: update_conv')

lemma update_absent: "k \<notin> fst ` set l \<Longrightarrow> AList.update k v l = l @ [(k, v)]"
  by (induction l) auto

lemma grad_entries_append: "grad_entries (l @ l') = grad_entries l @ grad_entries l'"
  by (simp add: grad_entries_def)

lemma training_step_ignores_metrics:
  "a3t_training_step
      (C\<lparr>get_focus_rate := f1, get_phone_coverage_rate := f2, get_diagonal_focus_rate := f3\<rparr>)
      s batch_idx optimizer_idx st
     = a3t_training_step C s batch_idx optimizer_idx st"
  by (simp add: a3t_training_step_def run_model_def)

text \<open>
  Claim C8. On a batch with one text length and one mel length for each row,
  \<open>get_attn_stats\<close> returns the logging record with three entries written, under the
  prefix followed by \<open>fr\<close>, \<open>pcr\<close> and \<open>dfr\<close>, and every other entry unchanged. The
  entries are the means of what the three metric functions return, for these
  arguments: the source padding mask (token equal to 0), the target padding mask (the
  sum over the channels of the absolute values of a mel frame equal to 0), the source
  segment mask (token equal to the segment index), and for each row the slope, the
  float quotient of the text length by the mel length. The three entries track no
  gradient, so the sum of line 48 leaves them out, and \<open>_training_step\<close> does not
  depend on the metric functions.
\<close>

theorem attn_stats_entries:
  assumes "length (txt_lengths s) = length (mel_lengths s)"
  shows "\<exists>l' ks.
      get_attn_stats C a s l prefix st = Inr l'
      \<and> attn_ks_of s = Inr ks
      \<and> ks = map2 (\<lambda>n m. fdiv (float_of_int n) (float_of_int m)) (txt_lengths s) (mel_lengths s)
      \<and> map_of l' (prefix @ ''fr'')
          = Some (Tensor (tensor_mean C [tensor_mean C (get_focus_rate C a
                    (src_padding_mask_of s) (target_padding_mask_of C s))]) False)
      \<and> map_of l' (prefix @ ''pcr'')
          = Some (Tensor (tensor_mean C [tensor_mean C (get_phone_coverage_rate C a
                    (src_padding_mask_of s) (src_seg_mask_of st s) (target_padding_mask_of C s))])
                    False)
      \<and> map_of l' (prefix @ ''dfr'')
          = Some (Tensor (tensor_mean C (fst (get_diagonal_focus_rate C a ks
                    (map float_of_int (mel_lengths s)) (src_padding_mask_of s)
                    (target_padding_mask_of C s)))) False)
      \<and> (\<forall>k. k \<notin> set (stat_keys prefix) \<longrightarrow> map_of l' k = map_of l k)
      \<and> fst ` set l' = fst ` set l \<union> set (stat_keys prefix)
      \<and> (\<forall>k v. k \<in> set (stat_keys prefix) \<and> map_of l' k = Some v \<longrightarrow> \<not> is_grad_tensor v)
      \<and> (set (stat_keys prefix) \<inter> fst ` set l = {}
           \<longrightarrow> length l' = length l + 3 \<and> take (length l) l' = l
             \<and> (\<forall>W. total_loss_of W l' = total_loss_of W l))
      \<and> (\<forall>b i. b < length (txt_tokens s) \<and> i < length (txt_tokens s ! b)
           \<longrightarrow> src_padding_mask_of s ! b ! i = (txt_tokens s ! b ! i = 0)
             \<and> src_seg_mask_of st s ! b ! i = (txt_tokens s ! b ! i = seg_idx st))
      \<and> (\<forall>b t. b < length (mels s) \<and> t < length (mels s ! b)
           \<longrightarrow> target_padding_mask_of C s ! b ! t
               = (tensor_sum C (map fabs (mels s ! b ! t)) = Fin 0))
      \<and> (\<forall>f1 f2 f3 s' i j st'.
            a3t_training_step
              (C\<lparr>get_focus_rate := f1, get_phone_coverage_rate := f2,
                 get_diagonal_focus_rate := f3\<rparr>) s' i j st'
            = a3t_training_step C s' i j st')"
proof -
  let ?ks = "map2 (\<lambda>n m. fdiv (float_of_int n) (float_of_int m)) (txt_lengths s) (mel_lengths s)"
  let ?fr = "Tensor (tensor_mean C [tensor_mean C (get_focus_rate C a
                    (src_padding_mask_of s) (target_padding_mask_of C s))]) False"
  let ?pcr = "Tensor (tensor_mean C [tensor_mean C (get_phone_coverage_rate C a
                    (src_padding_mask_of s) (src_seg_mask_of st s) (target_padding_mask_of C s))])
                    False"
  let ?dfr = "Tensor (tensor_mean C (fst (get_diagonal_focus_rate C a ?ks
                    (map float_of_int (mel_lengths s)) (src_padding_mask_of s)
                    (target_padding_mask_of C s)))) False"
  let ?l' = "AList.update (prefix @ ''dfr'') ?dfr
              (AList.update (prefix @ ''pcr'') ?pcr (AList.update (prefix @ ''fr'') ?fr l))"
  have ks: "attn_ks_of s = Inr ?ks" by (rule attn_ks_same_length[OF assms])
  have run: "get_attn_stats C a s l prefix st = Inr ?l'"
    by (rule get_attn_stats_eq[OF ks])
  have d: "distinct [prefix @ ''fr'', prefix @ ''pcr'', prefix @ ''dfr'']" by simp
  note m = map_of_update3[OF d, of ?dfr ?pcr ?fr l]
  have e1: "map_of ?l' (prefix @ ''fr'') = Some ?fr" by (simp add: m)
  have e2: "map_of ?l' (prefix @ ''pcr'') = Some ?pcr" by (simp add: m)
  have e3: "map_of ?l' (prefix @ ''dfr'') = Some ?dfr" by (simp add: m)
  have other: "\<forall>k. k \<notin> set (stat_keys prefix) \<longrightarrow> map_of ?l' k = map_of l k"
    by (simp add: m stat_keys_def)
  have keys: "fst ` set ?l' = fst ` set l \<union> set (stat_keys prefix)"
  proof -
    have "fst ` set ?l' = dom (map_of ?l')" by (simp add: dom_map_of_conv_image_fst)
    also have "\<dots> = dom (map_of l) \<union> set (stat_keys prefix)"
      by (auto simp: m stat_keys_def dom_def split: if_splits)
    finally show ?thesis by (simp add: dom_map_of_conv_image_fst)
  qed
  have nograd: "\<forall>k v. k \<in> set (stat_keys prefix) \<and> map_of ?l' k = Some v \<longrightarrow> \<not> is_grad_tensor v"
    by (auto simp: m stat_keys_def is_grad_tensor_def split: if_splits)
  have fresh: "length ?l' = length l + 3 \<and> take (length l) ?l' = l
      \<and> (\<forall>W. total_loss_of W ?l' = total_loss_of W l)"
    if h: "set (stat_keys prefix) \<inter> fst ` set l = {}"
  proof -
    from h have a1: "prefix @ ''fr'' \<notin> fst ` set l" by (auto simp: stat_keys_def)
    from h have a2: "prefix @ ''pcr'' \<notin> fst ` set (l @ [(prefix @ ''fr'', ?fr)])"
      by (auto simp: stat_keys_def)
    from h have a3: "prefix @ ''dfr''
        \<notin> fst ` set ((l @ [(prefix @ ''fr'', ?fr)]) @ [(prefix @ ''pcr'', ?pcr)])"
      by (auto simp: stat_keys_def)
    have eq: "?l' = l @ [(prefix @ ''fr'', ?fr), (prefix @ ''pcr'', ?pcr), (prefix @ ''dfr'', ?dfr)]"
      unfolding update_absent[OF a1] update_absent[OF a2] update_absent[OF a3] by simp
    have "grad_entries ?l' = grad_entries l"
      unfolding eq grad_entries_append by (simp add: grad_entries_def)
    then show ?thesis
      by (simp add: total_loss_weighted) (simp add: eq)
  qed
  have masks: "\<forall>b i. b < length (txt_tokens s) \<and> i < length (txt_tokens s ! b)
           \<longrightarrow> src_padding_mask_of s ! b ! i = (txt_tokens s ! b ! i = 0)
             \<and> src_seg_mask_of st s ! b ! i = (txt_tokens s ! b ! i = seg_idx st)"
    by (simp add: src_padding_mask_of_def src_seg_mask_of_def)
  have tmask: "\<forall>b t. b < length (mels s) \<and> t < length (mels s ! b)
           \<longrightarrow> target_padding_mask_of C s ! b ! t
               = (tensor_sum C (map fabs (mels s ! b ! t)) = Fin 0)"
    by (simp add: target_padding_mask_of_def)
  show ?thesis
    apply (rule exI[of _ ?l'], rule exI[of _ ?ks])
    apply (intro conjI)
    apply (rule run)
    apply (rule ks)
    apply (rule refl)
    apply (rule e1)
    apply (rule e2)
    apply (rule e3)
    apply (rule other)
    apply (rule keys)
    apply (rule nograd)
    using fresh apply blast
    apply (rule masks)
    apply (rule tmask)
    apply (simp add: training_step_ignores_metrics)
    done
qed

lemma demo_means:
  "mean_left [Fin 1] = Fin 1" "mean_left [Fin (1 / 2)] = Fin (1 / 2)"
  by (simp_all add: mean_left_def sum_left_def fadd_def fdiv_def float_of_int_def)

theorem attn_stats_entries_witness:
  "length (txt_lengths demo_sample) = length (mel_lengths demo_sample)
   \<and> attn_ks_of demo_sample = Inr [Fin (1 / 2)]
   \<and> get_attn_stats demo_collab [] demo_sample [(''mel'', Tensor (Fin 3) True)] ''val_'' demo_task
       = Inr [(''mel'', Tensor (Fin 3) True), (''val_fr'', Tensor (Fin 1) False),
              (''val_pcr'', Tensor (Fin (1 / 2)) False), (''val_dfr'', Tensor (Fin (1 / 2)) False)]
   \<and> total_loss_of []
        [(''mel'', Tensor (Fin 3) True), (''val_fr'', Tensor (Fin 1) False),
         (''val_pcr'', Tensor (Fin (1 / 2)) False), (''val_dfr'', Tensor (Fin (1 / 2)) False)]
       = total_loss_of [] [(''mel'', Tensor (Fin 3) True)]"
proof -
  have len: "length (txt_lengths demo_sample) = length (mel_lengths demo_sample)"
    by (simp add: demo_sample_def)
  have ks: "attn_ks_of demo_sample = Inr [Fin (1 / 2)]"
    by (simp add: attn_ks_same_length[OF len]) (simp add: demo_sample_def fdiv_def float_of_int_def)
  have run: "get_attn_stats demo_collab [] demo_sample [(''mel'', Tensor (Fin 3) True)] ''val_''
      demo_task
       = Inr [(''mel'', Tensor (Fin 3) True), (''val_fr'', Tensor (Fin 1) False),
              (''val_pcr'', Tensor (Fin (1 / 2)) False), (''val_dfr'', Tensor (Fin (1 / 2)) False)]"
    by (simp add: get_attn_stats_eq[OF ks] demo_collab_def demo_means)
  have fresh: "set (stat_keys ''val_'') \<inter> fst ` set [(''mel'', Tensor (Fin 3) True)] = {}"
    by (simp add: stat_keys_def)
  from attn_stats_entries[OF len, of demo_collab "[]" "[(''mel'', Tensor (Fin 3) True)]" "''val_''"
      demo_task]
  obtain l' where l': "get_attn_stats demo_collab [] demo_sample [(''mel'', Tensor (Fin 3) True)]
        ''val_'' demo_task = Inr l'"
    and t: "set (stat_keys ''val_'') \<inter> fst ` set [(''mel'', Tensor (Fin 3) True)] = {}
           \<longrightarrow> length l' = length [(''mel'', Tensor (Fin 3) True)] + 3
             \<and> take (length [(''mel'', Tensor (Fin 3) True)]) l' = [(''mel'', Tensor (Fin 3) True)]
             \<and> (\<forall>W. total_loss_of W l' = total_loss_of W [(''mel'', Tensor (Fin 3) True)])"
    by blast
  from l' run have "l' = [(''mel'', Tensor (Fin 3) True), (''val_fr'', Tensor (Fin 1) False),
              (''val_pcr'', Tensor (Fin (1 / 2)) False), (''val_dfr'', Tensor (Fin (1 / 2)) False)]"
    by simp
  with t fresh len ks run show ?thesis by blast
qed


end
